theory Spec2Isabelle
  imports Complex_Main
begin

section \<open>Data model (types.ts)\<close>

datatype AppMode = NORMAL | SEARCH | FILTER | INSPECT | COPY

datatype InspectFocus = HEADERS | RESPONSE | PREVIEW

datatype ResourceType =
  XHR | FETCH | DOC | CSS | JS | IMG | FONT | MEDIA | MANIFEST | SOCKET | WASM | OTHER

datatype PreviewTab = TabHeaders | TabResponse | TabPreview

text \<open>
  JavaScript objects have identity and are shared by reference.  Every object the code
  aliases (state objects, the request array, request records, the filter object, its
  \<open>Set\<close>, the expansion \<open>Map\<close>) lives in a heap and is named by a reference.
\<close>

type_synonym ref = nat

text \<open>
  \<open>NetworkRequest\<close>.  The fields \<open>id\<close>, \<open>type\<close> and \<open>size\<close> of the source are
  \<open>rid\<close>, \<open>rtype\<close> and \<open>rsize\<close> here (the source names are HOL constants).
  \<open>httpMethod\<close> (the source's \<open>method\<close>) holds whatever string the capture source sent (the source casts without a
  check).  \<open>timestamp\<close> and \<open>duration\<close> are numbers computed from the fractional
  seconds the capture source sends; they are reals here, so the rounding of the
  floating-point product and difference is left out.
\<close>

record NetworkRequest =
  rid :: string
  url :: string
  name :: string
  httpMethod :: string
  rtype :: ResourceType
  status :: int
  statusText :: string
  timestamp :: real
  duration :: real
  rsize :: int
  requestHeaders :: "string \<rightharpoonup> string"
  responseHeaders :: "string \<rightharpoonup> string"
  requestBody :: "string option"
  responseBody :: "string option"
  initiator :: "string option"

record FilterState =
  types :: ref
  statusCodes :: "int list"

typedecl JsonValue

datatype JsonType = JObject | JArray | JString | JNumber | JBoolean | JNull

text \<open>\<open>JsonNode\<close>; its \<open>key\<close>, \<open>value\<close> and \<open>type\<close> are prefixed with \<open>node\<close>.\<close>

record JsonNode =
  nodeKey :: string
  nodeValue :: JsonValue
  nodeType :: JsonType
  path :: string
  isExpanded :: bool
  level :: nat

record AppState =
  mode :: AppMode
  requests :: ref
  selectedIndex :: int
  searchQuery :: string
  filters :: ref
  jsonExpanded :: ref
  previewTab :: PreviewTab
  filterSelectedIndex :: int
  filterOrder :: "string list"
  inspectFocus :: InspectFocus
  inspectScrollPosition :: int
  inspectSearchQuery :: string
  inspectSearchMatches :: "int list"
  inspectSearchIndex :: int
  headersSelectedIndex :: int
  isInspectExpanded :: bool
  jsonSelectedIndex :: int
  flattenedJsonNodes :: "JsonNode list"

text \<open>
  \<open>Partial<AppState>\<close>: an object literal is the list of its properties, each a field
  name with a value of the field's type.  \<open>Object.assign\<close> and object spread copy the
  properties of their arguments from left to right, so merging is concatenation and a
  later property overwrites an earlier one.
\<close>

datatype Update =
  Mode AppMode
  | Requests ref
  | SelectedIndex int
  | SearchQuery string
  | Filters ref
  | JsonExpanded ref
  | PreviewTabU PreviewTab
  | FilterSelectedIndex int
  | FilterOrder "string list"
  | InspectFocusU InspectFocus
  | InspectScrollPosition int
  | InspectSearchQuery string
  | InspectSearchMatches "int list"
  | InspectSearchIndex int
  | HeadersSelectedIndex int
  | IsInspectExpanded bool
  | JsonSelectedIndex int
  | FlattenedJsonNodes "JsonNode list"

type_synonym Partial = "Update list"

datatype Field =
  Fmode | Frequests | FselectedIndex | FsearchQuery | Ffilters | FjsonExpanded
  | FpreviewTab | FfilterSelectedIndex | FfilterOrder | FinspectFocus
  | FinspectScrollPosition | FinspectSearchQuery | FinspectSearchMatches
  | FinspectSearchIndex | FheadersSelectedIndex | FisInspectExpanded
  | FjsonSelectedIndex | FflattenedJsonNodes

fun fieldOf :: "Update \<Rightarrow> Field" where
  "fieldOf (Mode _) = Fmode"
| "fieldOf (Requests _) = Frequests"
| "fieldOf (SelectedIndex _) = FselectedIndex"
| "fieldOf (SearchQuery _) = FsearchQuery"
| "fieldOf (Filters _) = Ffilters"
| "fieldOf (JsonExpanded _) = FjsonExpanded"
| "fieldOf (PreviewTabU _) = FpreviewTab"
| "fieldOf (FilterSelectedIndex _) = FfilterSelectedIndex"
| "fieldOf (FilterOrder _) = FfilterOrder"
| "fieldOf (InspectFocusU _) = FinspectFocus"
| "fieldOf (InspectScrollPosition _) = FinspectScrollPosition"
| "fieldOf (InspectSearchQuery _) = FinspectSearchQuery"
| "fieldOf (InspectSearchMatches _) = FinspectSearchMatches"
| "fieldOf (InspectSearchIndex _) = FinspectSearchIndex"
| "fieldOf (HeadersSelectedIndex _) = FheadersSelectedIndex"
| "fieldOf (IsInspectExpanded _) = FisInspectExpanded"
| "fieldOf (JsonSelectedIndex _) = FjsonSelectedIndex"
| "fieldOf (FlattenedJsonNodes _) = FflattenedJsonNodes"

text \<open>Reading a field of a state object, as a property (name with value).\<close>

fun getField :: "Field \<Rightarrow> AppState \<Rightarrow> Update" where
  "getField Fmode s = Mode (mode s)"
| "getField Frequests s = Requests (requests s)"
| "getField FselectedIndex s = SelectedIndex (selectedIndex s)"
| "getField FsearchQuery s = SearchQuery (searchQuery s)"
| "getField Ffilters s = Filters (filters s)"
| "getField FjsonExpanded s = JsonExpanded (jsonExpanded s)"
| "getField FpreviewTab s = PreviewTabU (previewTab s)"
| "getField FfilterSelectedIndex s = FilterSelectedIndex (filterSelectedIndex s)"
| "getField FfilterOrder s = FilterOrder (filterOrder s)"
| "getField FinspectFocus s = InspectFocusU (inspectFocus s)"
| "getField FinspectScrollPosition s = InspectScrollPosition (inspectScrollPosition s)"
| "getField FinspectSearchQuery s = InspectSearchQuery (inspectSearchQuery s)"
| "getField FinspectSearchMatches s = InspectSearchMatches (inspectSearchMatches s)"
| "getField FinspectSearchIndex s = InspectSearchIndex (inspectSearchIndex s)"
| "getField FheadersSelectedIndex s = HeadersSelectedIndex (headersSelectedIndex s)"
| "getField FisInspectExpanded s = IsInspectExpanded (isInspectExpanded s)"
| "getField FjsonSelectedIndex s = JsonSelectedIndex (jsonSelectedIndex s)"
| "getField FflattenedJsonNodes s = FlattenedJsonNodes (flattenedJsonNodes s)"

text \<open>Writing one property into a state object.\<close>

fun assign :: "Update \<Rightarrow> AppState \<Rightarrow> AppState" where
  "assign (Mode v) s = s\<lparr>mode := v\<rparr>"
| "assign (Requests v) s = s\<lparr>requests := v\<rparr>"
| "assign (SelectedIndex v) s = s\<lparr>selectedIndex := v\<rparr>"
| "assign (SearchQuery v) s = s\<lparr>searchQuery := v\<rparr>"
| "assign (Filters v) s = s\<lparr>filters := v\<rparr>"
| "assign (JsonExpanded v) s = s\<lparr>jsonExpanded := v\<rparr>"
| "assign (PreviewTabU v) s = s\<lparr>previewTab := v\<rparr>"
| "assign (FilterSelectedIndex v) s = s\<lparr>filterSelectedIndex := v\<rparr>"
| "assign (FilterOrder v) s = s\<lparr>filterOrder := v\<rparr>"
| "assign (InspectFocusU v) s = s\<lparr>inspectFocus := v\<rparr>"
| "assign (InspectScrollPosition v) s = s\<lparr>inspectScrollPosition := v\<rparr>"
| "assign (InspectSearchQuery v) s = s\<lparr>inspectSearchQuery := v\<rparr>"
| "assign (InspectSearchMatches v) s = s\<lparr>inspectSearchMatches := v\<rparr>"
| "assign (InspectSearchIndex v) s = s\<lparr>inspectSearchIndex := v\<rparr>"
| "assign (HeadersSelectedIndex v) s = s\<lparr>headersSelectedIndex := v\<rparr>"
| "assign (IsInspectExpanded v) s = s\<lparr>isInspectExpanded := v\<rparr>"
| "assign (JsonSelectedIndex v) s = s\<lparr>jsonSelectedIndex := v\<rparr>"
| "assign (FlattenedJsonNodes v) s = s\<lparr>flattenedJsonNodes := v\<rparr>"

text \<open>\<open>{...s, ...p}\<close>: the properties of \<open>p\<close> written over \<open>s\<close> from left to right.\<close>

definition spread :: "AppState \<Rightarrow> Partial \<Rightarrow> AppState" where
  "spread s p = foldl (\<lambda>t u. assign u t) s p"

text \<open>\<open>p.f !== undefined\<close>: the object \<open>p\<close> has the property \<open>f\<close>.\<close>

definition defined :: "Field \<Rightarrow> Partial \<Rightarrow> bool" where
  "defined f p = (f \<in> fieldOf ` set p)"

text \<open>The value \<open>p.f\<close>: the last property of that name written into \<open>p\<close>.\<close>

definition property :: "Field \<Rightarrow> Partial \<Rightarrow> Update option" where
  "property f p = find (\<lambda>u. fieldOf u = f) (rev p)"


section \<open>Objects, components and the scheduler\<close>

record Heap =
  stateObjs :: "ref \<Rightarrow> AppState"
  arrayObjs :: "ref \<Rightarrow> ref list"
  requestObjs :: "ref \<Rightarrow> NetworkRequest"
  filterObjs :: "ref \<Rightarrow> FilterState"
  setObjs :: "ref \<Rightarrow> ResourceType set"
  mapObjs :: "ref \<Rightarrow> (string \<rightharpoonup> bool)"
  nextRef :: ref

text \<open>
  The Fuse index (fuse.js, an external library).  \<open>new Fuse(requests, options)\<close> keeps
  the array it is given, by reference, and records the \<open>url\<close> and the \<open>name\<close> of each
  entry as they are then.  A search ranks the recorded texts and returns, for each match,
  the entry the array holds at the position of the record when the search runs.  What
  Fuse matches is a parameter \<open>fz\<close> of the functions below: \<open>fz texts q\<close> are the
  positions of the records Fuse reports for the query \<open>q\<close>, in Fuse's order.
\<close>

record FuseIndex =
  docs :: ref
  texts :: "(string \<times> string) list"

type_synonym Fuzzy = "(string \<times> string) list \<Rightarrow> string \<Rightarrow> nat list"

text \<open>The memo object; the source's field \<open>requests\<close> is \<open>cachedRequests\<close> here.\<close>

record FilteredRequestsCache =
  cachedRequests :: "ref option"
  lastRequestsLength :: nat
  lastSearchQuery :: string
  lastMethodsSize :: nat
  lastTypesSize :: nat

text \<open>
  A subscriber is a function of a component, called with the state object.  What it
  does to the Store is what is kept of it: whether the call reads the filtered view
  (\<open>getFilteredRequests()\<close>, as \<open>StatusBar.update\<close>, \<open>HeadersList.render\<close> and
  \<open>PreviewPane.render\<close> do first), and the \<open>setState\<close> calls it then makes, which may
  depend on the heap, the state object and the array it has read.  \<open>fuse\<close> is the
  search of the page the subscriber belongs to (the parameter \<open>fz\<close> of the read).  A
  \<open>getState()\<close> in a subscriber only makes a snapshot object that is dropped; the
  drawing is not part of the Store.
\<close>

record Listener =
  lid :: nat
  readsView :: "Heap \<Rightarrow> ref \<Rightarrow> bool"
  fuse :: Fuzzy
  onNotify :: "Heap \<Rightarrow> ref \<Rightarrow> ref option \<Rightarrow> Partial list"

record StateManager =
  state :: ref
  listeners :: "Listener list"
  pendingUpdates :: "Partial list"
  rafId :: "nat option"
  filteredRequestsCache :: FilteredRequestsCache
  fuseIndex :: "FuseIndex option"
  lastFuseIndexLength :: nat

text \<open>
  \<open>NetworkCapture\<close>, without the fields of the debugger attachment and of the message
  banner (\<open>tabId\<close>, \<open>isAttaching\<close>, \<open>retryCount\<close>, the handlers, \<open>messageTimeoutId\<close>).
\<close>

record NetworkCapture =
  pendingRequests :: "string \<rightharpoonup> ref"
  responseBodyCache :: "string \<rightharpoonup> JsonValue"
  fetchingBodies :: "string set"
  mainFrameId :: "string option"
  pendingUIUpdates :: "string set"
  updateBatchRafId :: "nat option"

record KeyboardHandler =
  keySequence :: string
  sequenceTimeout :: "nat option"

text \<open>
  Callbacks waiting for the next animation frame: the Store's batch, and the capture's
  coalesced update, which closes over the snapshot \<open>state\<close> of the handler that
  scheduled it.  Callbacks that only touch the document are not queued.
\<close>

datatype Callback = StoreFlush | CaptureFlush ref

text \<open>
  The whole page.  \<open>deliveries\<close> records every call of a subscriber (which one, with
  which state object) and \<open>indexBuilds\<close> counts the calls of \<open>createFuseIndex\<close>; both
  only observe.  \<open>copyMenu\<close> says whether \<open>window.copyMenu\<close> is set.
\<close>

record World =
  heap :: Heap
  sm :: StateManager
  nc :: NetworkCapture
  kh :: KeyboardHandler
  rafQueue :: "Callback list"
  rafCounter :: nat
  timers :: "nat list"
  timerCounter :: nat
  deliveries :: "(nat \<times> ref) list"
  indexBuilds :: nat
  copyMenu :: bool

text \<open>\<open>!x\<close> for a handle that is \<open>null\<close> or a number.\<close>

definition falsyId :: "nat option \<Rightarrow> bool" where
  "falsyId x = (case x of None \<Rightarrow> True | Some i \<Rightarrow> i = 0)"

text \<open>\<open>requestAnimationFrame\<close>: queue the callback, return a handle greater than zero.\<close>

definition requestAnimationFrame :: "Callback \<Rightarrow> World \<Rightarrow> nat \<times> World" where
  "requestAnimationFrame cb w =
     (Suc (rafCounter w), w\<lparr>rafQueue := rafQueue w @ [cb], rafCounter := Suc (rafCounter w)\<rparr>)"

subsection \<open>Reading and writing through \<open>this.state\<close>\<close>

definition theState :: "World \<Rightarrow> AppState" where
  "theState w = stateObjs (heap w) (state (sm w))"

definition theRequests :: "World \<Rightarrow> ref list" where
  "theRequests w = arrayObjs (heap w) (requests (theState w))"

definition theTypes :: "World \<Rightarrow> ResourceType set" where
  "theTypes w = setObjs (heap w) (types (filterObjs (heap w) (filters (theState w))))"

text \<open>An assignment \<open>this.state.f = v\<close>: the state object is changed in place.\<close>

definition modifyState :: "(AppState \<Rightarrow> AppState) \<Rightarrow> World \<Rightarrow> World" where
  "modifyState f w =
     w\<lparr>heap := (heap w)\<lparr>stateObjs := (stateObjs (heap w))(state (sm w) := f (theState w))\<rparr>\<rparr>"

text \<open>A change in place of the array \<open>this.state.requests\<close>.\<close>

definition modifyRequests :: "(ref list \<Rightarrow> ref list) \<Rightarrow> World \<Rightarrow> World" where
  "modifyRequests f w =
     w\<lparr>heap := (heap w)\<lparr>arrayObjs :=
        (arrayObjs (heap w))(requests (theState w) := f (theRequests w))\<rparr>\<rparr>"

text \<open>A new array object.\<close>

definition newArray :: "ref list \<Rightarrow> World \<Rightarrow> ref \<times> World" where
  "newArray xs w =
     (nextRef (heap w),
      w\<lparr>heap := (heap w)\<lparr>arrayObjs := (arrayObjs (heap w))(nextRef (heap w) := xs),
                          nextRef := Suc (nextRef (heap w))\<rparr>\<rparr>)"

text \<open>
  The array \<open>map\<close> or \<open>filter\<close> returns is a new object too, and never the Store's
  array: its reference is the counter's, taken beyond the Store's array first where the
  counter is not (on a page built by the constructor and the operations below it
  always is).
\<close>

definition newView :: "ref list \<Rightarrow> World \<Rightarrow> ref \<times> World" where
  "newView xs w =
     newArray xs
       (w\<lparr>heap := (heap w)\<lparr>nextRef := max (nextRef (heap w)) (Suc (requests (theState w)))\<rparr>\<rparr>)"

text \<open>A new state object.\<close>

definition newState :: "AppState \<Rightarrow> World \<Rightarrow> ref \<times> World" where
  "newState s w =
     (nextRef (heap w),
      w\<lparr>heap := (heap w)\<lparr>stateObjs := (stateObjs (heap w))(nextRef (heap w) := s),
                          nextRef := Suc (nextRef (heap w))\<rparr>\<rparr>)"

section \<open>StateManager\<close>

definition MAX_REQUESTS :: nat where
  "MAX_REQUESTS = 1000"

text \<open>\<open>getState\<close>: \<open>{ ...this.state }\<close>, a new object with the same field values.\<close>

definition getState :: "World \<Rightarrow> ref \<times> World" where
  "getState w = newState (theState w) w"

definition invalidateFilterCache :: "World \<Rightarrow> World" where
  "invalidateFilterCache w =
     w\<lparr>sm := (sm w)\<lparr>filteredRequestsCache :=
                        (filteredRequestsCache (sm w))\<lparr>cachedRequests := None\<rparr>,
                     fuseIndex := None\<rparr>\<rparr>"

text \<open>
  \<open>setState\<close>: queue the update; ask for an animation frame unless one is awaited.
\<close>

definition setState :: "Partial \<Rightarrow> World \<Rightarrow> World" where
  "setState updates w =
     (let w1 = w\<lparr>sm := (sm w)\<lparr>pendingUpdates := pendingUpdates (sm w) @ [updates]\<rparr>\<rparr>
      in if falsyId (rafId (sm w1))
         then (case requestAnimationFrame StoreFlush w1 of
                 (i, w2) \<Rightarrow> w2\<lparr>sm := (sm w2)\<lparr>rafId := Some i\<rparr>\<rparr>)
         else w1)"

text \<open>\<open>createFuseIndex(this.state.requests)\<close>.\<close>

definition createFuseIndex :: "World \<Rightarrow> FuseIndex" where
  "createFuseIndex w =
     \<lparr>docs = requests (theState w),
      texts = map (\<lambda>r. (url (requestObjs (heap w) r), name (requestObjs (heap w) r)))
                (theRequests w)\<rparr>"

text \<open>
  \<open>index.search(q).map(result => result.item)\<close>: the entries now at the reported
  positions of the array the index was given.  A position at which that array has no
  entry now gives \<open>undefined\<close> in JavaScript; such positions are left out here (the
  array has then been shortened and replaced since the index was built, without a
  read in between).
\<close>

definition fuseSearch :: "Fuzzy \<Rightarrow> FuseIndex \<Rightarrow> string \<Rightarrow> Heap \<Rightarrow> ref list" where
  "fuseSearch fz ix q h =
     map (\<lambda>i. arrayObjs h (docs ix) ! i)
       (filter (\<lambda>i. i < length (arrayObjs h (docs ix))) (fz (texts ix) q))"

text \<open>
  \<open>getFilteredRequests\<close>.  With no query and no type filter the result is the array
  \<open>this.state.requests\<close> itself; \<open>map\<close> and \<open>filter\<close> make new arrays.
\<close>

definition cacheValid :: "World \<Rightarrow> bool" where
  "cacheValid w =
     (cachedRequests (filteredRequestsCache (sm w)) \<noteq> None \<and>
      lastRequestsLength (filteredRequestsCache (sm w)) = length (theRequests w) \<and>
      lastSearchQuery (filteredRequestsCache (sm w)) = searchQuery (theState w) \<and>
      lastTypesSize (filteredRequestsCache (sm w)) = card (theTypes w))"

definition rebuildIndex :: "World \<Rightarrow> World" where
  "rebuildIndex w =
     (if fuseIndex (sm w) = None \<or> lastFuseIndexLength (sm w) \<noteq> length (theRequests w)
      then w\<lparr>sm := (sm w)\<lparr>fuseIndex := Some (createFuseIndex w),
                          lastFuseIndexLength := length (theRequests w)\<rparr>,
             indexBuilds := Suc (indexBuilds w)\<rparr>
      else w)"

definition baseResults :: "Fuzzy \<Rightarrow> World \<Rightarrow> ref \<times> World" where
  "baseResults fz w =
     (if searchQuery (theState w) \<noteq> []
      then newView (fuseSearch fz (the (fuseIndex (sm w))) (searchQuery (theState w)) (heap w)) w
      else (requests (theState w), w))"

definition typeFilter :: "ref \<Rightarrow> World \<Rightarrow> ref \<times> World" where
  "typeFilter base w =
     (if card (theTypes w) > 0
      then newView (filter (\<lambda>r. rtype (requestObjs (heap w) r) \<in> theTypes w)
                      (arrayObjs (heap w) base)) w
      else (base, w))"

definition getFilteredRequests :: "Fuzzy \<Rightarrow> World \<Rightarrow> ref \<times> World" where
  "getFilteredRequests fz w =
     (if cacheValid w then (the (cachedRequests (filteredRequestsCache (sm w))), w)
      else (case baseResults fz (rebuildIndex w) of
              (base, w2) \<Rightarrow>
                (case typeFilter base w2 of
                   (filtered, w3) \<Rightarrow>
                     (filtered,
                      w3\<lparr>sm := (sm w3)\<lparr>filteredRequestsCache :=
                           \<lparr>cachedRequests = Some filtered,
                            lastRequestsLength = length (theRequests w3),
                            lastSearchQuery = searchQuery (theState w3),
                            lastMethodsSize = 0,
                            lastTypesSize = card (theTypes w3)\<rparr>\<rparr>\<rparr>))))"

text \<open>
  \<open>listener(this.state)\<close> for one subscriber: the call is recorded, the subscriber
  reads the filtered view if it does, and the \<open>setState\<close> calls of its body run.
\<close>

definition callListener :: "Listener \<Rightarrow> World \<Rightarrow> World" where
  "callListener l w =
     (let w0 = w\<lparr>deliveries := deliveries w @ [(lid l, state (sm w))]\<rparr>;
          r = (if readsView l (heap w) (state (sm w))
               then (case getFilteredRequests (fuse l) w0 of (a, v) \<Rightarrow> (Some a, v))
               else (None, w0))
      in foldl (\<lambda>v u. setState u v) (snd r)
           (onNotify l (heap (snd r)) (state (sm w)) (fst r)))"

definition notifyListeners :: "World \<Rightarrow> World" where
  "notifyListeners w = foldl (\<lambda>v l. callListener l v) w (listeners (sm w))"

text \<open>\<open>subscribe\<close>: \<open>Set.add\<close> keeps one entry per function.\<close>

definition subscribe :: "Listener \<Rightarrow> World \<Rightarrow> World" where
  "subscribe l w =
     (if lid l \<in> lid ` set (listeners (sm w)) then w
      else w\<lparr>sm := (sm w)\<lparr>listeners := listeners (sm w) @ [l]\<rparr>\<rparr>)"

definition unsubscribe :: "nat \<Rightarrow> World \<Rightarrow> World" where
  "unsubscribe i w =
     w\<lparr>sm := (sm w)\<lparr>listeners := filter (\<lambda>l. lid l \<noteq> i) (listeners (sm w))\<rparr>\<rparr>"

text \<open>
  The callback \<open>setState\<close> hands to \<open>requestAnimationFrame\<close>.  \<open>applyBatch\<close> is
  its part before \<open>this.notifyListeners()\<close>: the merge, the new state object, the
  invalidation and the reset of the selection.
\<close>

definition applyBatch :: "World \<Rightarrow> World" where
  "applyBatch w =
     (let merged = concat (pendingUpdates (sm w));
          w1 = (case newState (spread (theState w) merged) w of
                  (r, v) \<Rightarrow> v\<lparr>sm := (sm v)\<lparr>state := r\<rparr>\<rparr>);
          w2 = (if defined FsearchQuery merged \<or> defined Ffilters merged
                then invalidateFilterCache w1 else w1)
      in if defined FsearchQuery merged \<and> \<not> defined FselectedIndex merged
         then modifyState (\<lambda>s. s\<lparr>selectedIndex := 0\<rparr>) w2 else w2)"

definition storeFlush :: "World \<Rightarrow> World" where
  "storeFlush w =
     (let w4 = notifyListeners (applyBatch w)
      in w4\<lparr>sm := (sm w4)\<lparr>pendingUpdates := [], rafId := None\<rparr>\<rparr>)"

text \<open>
  \<open>addRequest\<close>.  \<open>push\<close>, then \<open>splice(0, toRemove)\<close> when the array is longer than
  \<open>MAX_REQUESTS\<close>; both change the array in place.
\<close>

definition addRequest :: "ref \<Rightarrow> World \<Rightarrow> World" where
  "addRequest request w =
     (let w1 = modifyRequests (\<lambda>xs. xs @ [request]) w;
          w2 = (if length (theRequests w1) > MAX_REQUESTS
                then (let toRemove = length (theRequests w1) - MAX_REQUESTS;
                          v = modifyRequests (drop toRemove) w1
                      in if selectedIndex (theState v) < int toRemove
                         then modifyState (\<lambda>s. s\<lparr>selectedIndex := 0\<rparr>) v
                         else modifyState
                                (\<lambda>s. s\<lparr>selectedIndex := selectedIndex s - int toRemove\<rparr>) v)
                else w1)
      in notifyListeners w2)"

text \<open>\<open>clearRequests\<close>: a new empty array replaces the old one.\<close>

definition clearRequests :: "World \<Rightarrow> World" where
  "clearRequests w =
     (case newArray [] w of
        (a, w1) \<Rightarrow>
          notifyListeners
            (modifyState (\<lambda>s. s\<lparr>selectedIndex := 0\<rparr>)
               (modifyState (\<lambda>s. s\<lparr>requests := a\<rparr>) w1)))"

text \<open>
  \<open>splice(index, 1)\<close>: a negative start counts from the end, a start beyond the end
  is the end; one element is removed when there is one at the start.
\<close>

definition spliceStart :: "int \<Rightarrow> nat \<Rightarrow> nat" where
  "spliceStart i n = (if i < 0 then nat (max (int n + i) 0) else min (nat i) n)"

definition splice1 :: "int \<Rightarrow> 'a list \<Rightarrow> 'a list" where
  "splice1 i xs = take (spliceStart i (length xs)) xs @ drop (Suc (spliceStart i (length xs))) xs"

definition deleteRequest :: "int \<Rightarrow> World \<Rightarrow> World" where
  "deleteRequest index w =
     (let w1 = modifyRequests (splice1 index) w;
          w2 = (if selectedIndex (theState w1) \<ge> int (length (theRequests w1))
                then modifyState
                       (\<lambda>s. s\<lparr>selectedIndex := max 0 (int (length (theRequests w1)) - 1)\<rparr>) w1
                else w1)
      in notifyListeners w2)"

section \<open>NetworkCapture\<close>

definition clearCaches :: "World \<Rightarrow> World" where
  "clearCaches w =
     w\<lparr>nc := (nc w)\<lparr>pendingRequests := Map.empty, responseBodyCache := Map.empty,
                     fetchingBodies := {}\<rparr>\<rparr>"

text \<open>\<open>typeMap[type] || ResourceType.OTHER\<close>, for the keys the table lists.\<close>

definition mapResourceType :: "string \<Rightarrow> ResourceType" where
  "mapResourceType t =
     (case map_of [(''XHR'', XHR), (''Fetch'', FETCH), (''Document'', DOC),
                   (''Stylesheet'', CSS), (''Script'', JS), (''Image'', IMG),
                   (''Font'', FONT), (''Media'', MEDIA), (''Manifest'', MANIFEST),
                   (''WebSocket'', SOCKET), (''WebAssembly'', WASM)] t of
        Some r \<Rightarrow> r | None \<Rightarrow> OTHER)"

text \<open>
  The platform's \<open>URL\<close> class is a parameter: \<open>parseURL u\<close> is \<open>None\<close> where
  \<open>new URL(u)\<close> throws, and the parts \<open>extractName\<close> reads otherwise.
\<close>

record URLParts =
  pathname :: string
  search :: string
  hostname :: string

type_synonym URLParser = "string \<Rightarrow> URLParts option"

text \<open>\<open>s.split(c)\<close> for a one-character separator.\<close>

fun splitOn :: "char \<Rightarrow> string \<Rightarrow> string list" where
  "splitOn c [] = [[]]"
| "splitOn c (x # xs) =
     (if x = c then [] # splitOn c xs
      else (case splitOn c xs of [] \<Rightarrow> [[x]] | y # ys \<Rightarrow> (x # y) # ys))"

definition extractName :: "URLParser \<Rightarrow> string \<Rightarrow> string" where
  "extractName parseURL u =
     (case parseURL u of
        None \<Rightarrow> u
      | Some urlObj \<Rightarrow>
          (let segments = filter (\<lambda>s. length s > 0) (splitOn CHR ''/'' (pathname urlObj))
           in if length segments > 0
              then (let lastSegment = last segments
                    in if CHR ''.'' \<in> set lastSegment \<or> search urlObj \<noteq> []
                       then lastSegment @ search urlObj
                       else if length segments > 1
                       then segments ! (length segments - 2) @ ''/'' @ lastSegment
                       else lastSegment)
              else hostname urlObj))"

text \<open>The parameters of the four debugger events, as far as the handlers read them.\<close>

record RequestWillBeSent =
  requestId :: string
  ptype :: string
  frameId :: string
  requestUrl :: string
  requestMethod :: string
  requestHdrs :: "string \<rightharpoonup> string"
  postData :: "string option"
  ptimestamp :: real
  initiatorUrl :: "string option"

record ResponseReceived =
  rrRequestId :: string
  rrStatus :: int
  rrStatusText :: string
  rrHeaders :: "string \<rightharpoonup> string"

record LoadingFinished =
  lfRequestId :: string
  encodedDataLength :: int
  lfTimestamp :: real

record LoadingFailed =
  lxRequestId :: string
  errorText :: string
  lxTimestamp :: real

text \<open>A new request record.\<close>

definition newRequest :: "NetworkRequest \<Rightarrow> World \<Rightarrow> ref \<times> World" where
  "newRequest q w =
     (nextRef (heap w),
      w\<lparr>heap := (heap w)\<lparr>requestObjs := (requestObjs (heap w))(nextRef (heap w) := q),
                          nextRef := Suc (nextRef (heap w))\<rparr>\<rparr>)"

text \<open>\<open>!this.mainFrameId\<close>: \<open>null\<close> or the empty string.\<close>

definition falsyStr :: "string option \<Rightarrow> bool" where
  "falsyStr x = (case x of None \<Rightarrow> True | Some s \<Rightarrow> s = [])"

text \<open>
  \<open>handleRequestWillBeSent\<close>.  Its first block, which removes a banner from the
  document, is left out.
\<close>

definition handleRequestWillBeSent :: "URLParser \<Rightarrow> RequestWillBeSent \<Rightarrow> World \<Rightarrow> World" where
  "handleRequestWillBeSent parseURL params w =
     (let w1 = (if ptype params = ''Document''
                then (if falsyStr (mainFrameId (nc w)) \<or> Some (frameId params) = mainFrameId (nc w)
                      then clearRequests
                             (clearCaches (w\<lparr>nc := (nc w)\<lparr>mainFrameId := Some (frameId params)\<rparr>\<rparr>))
                      else w)
                else w)
      in case newRequest
                \<lparr>rid = requestId params,
                 url = requestUrl params,
                 name = extractName parseURL (requestUrl params),
                 httpMethod = requestMethod params,
                 rtype = mapResourceType (ptype params),
                 status = 0,
                 statusText = ''Pending'',
                 timestamp = ptimestamp params * 1000,
                 duration = 0,
                 rsize = 0,
                 requestHeaders = requestHdrs params,
                 responseHeaders = Map.empty,
                 requestBody = postData params,
                 responseBody = None,
                 initiator = initiatorUrl params\<rparr> w1 of
           (request, w2) \<Rightarrow>
             (let w3 = addRequest request w2
              in w3\<lparr>nc := (nc w3)\<lparr>pendingRequests :=
                      (pendingRequests (nc w3))(requestId params \<mapsto> request)\<rparr>\<rparr>))"

text \<open>\<open>state.requests.find(r => r.id === id)\<close> on a snapshot \<open>state\<close>.\<close>

definition findRequest :: "ref \<Rightarrow> string \<Rightarrow> World \<Rightarrow> ref option" where
  "findRequest snapshot i w =
     find (\<lambda>r. rid (requestObjs (heap w) r) = i)
       (arrayObjs (heap w) (requests (stateObjs (heap w) snapshot)))"

text \<open>An assignment to fields of a request record: the record is changed in place.\<close>

definition modifyRequest :: "ref \<Rightarrow> (NetworkRequest \<Rightarrow> NetworkRequest) \<Rightarrow> World \<Rightarrow> World" where
  "modifyRequest r f w =
     w\<lparr>heap := (heap w)\<lparr>requestObjs := (requestObjs (heap w))(r := f (requestObjs (heap w) r))\<rparr>\<rparr>"

definition handleResponseReceived :: "ResponseReceived \<Rightarrow> World \<Rightarrow> World" where
  "handleResponseReceived params w =
     (case getState w of
        (snapshot, w1) \<Rightarrow>
          (case findRequest snapshot (rrRequestId params) w1 of
             Some request \<Rightarrow>
               modifyRequest request
                 (\<lambda>q. q\<lparr>status := rrStatus params, statusText := rrStatusText params,
                        responseHeaders := rrHeaders params\<rparr>) w1
           | None \<Rightarrow> w1))"

text \<open>The callback of \<open>handleLoadingFinished\<close>; \<open>snapshot\<close> is its \<open>state\<close>.\<close>

definition captureFlush :: "ref \<Rightarrow> World \<Rightarrow> World" where
  "captureFlush snapshot w =
     (case newArray (arrayObjs (heap w) (requests (stateObjs (heap w) snapshot))) w of
        (copy, w1) \<Rightarrow>
          (let w2 = setState [Requests copy] w1
           in w2\<lparr>nc := (nc w2)\<lparr>pendingUIUpdates := {}, updateBatchRafId := None\<rparr>\<rparr>))"

definition handleLoadingFinished :: "LoadingFinished \<Rightarrow> World \<Rightarrow> World" where
  "handleLoadingFinished params w =
     (case getState w of
        (snapshot, w1) \<Rightarrow>
          (case findRequest snapshot (lfRequestId params) w1 of
             Some request \<Rightarrow>
               (let w2 = modifyRequest request
                           (\<lambda>q. q\<lparr>rsize := encodedDataLength params,
                                  duration := lfTimestamp params * 1000 - timestamp q\<rparr>) w1;
                    w3 = w2\<lparr>nc := (nc w2)\<lparr>pendingUIUpdates :=
                               insert (lfRequestId params) (pendingUIUpdates (nc w2))\<rparr>\<rparr>;
                    w4 = (if falsyId (updateBatchRafId (nc w3))
                          then (case requestAnimationFrame (CaptureFlush snapshot) w3 of
                                  (i, v) \<Rightarrow> v\<lparr>nc := (nc v)\<lparr>updateBatchRafId := Some i\<rparr>\<rparr>)
                          else w3)
                in w4\<lparr>nc := (nc w4)\<lparr>pendingRequests :=
                        (pendingRequests (nc w4))(lfRequestId params := None)\<rparr>\<rparr>)
           | None \<Rightarrow> w1))"

definition handleLoadingFailed :: "LoadingFailed \<Rightarrow> World \<Rightarrow> World" where
  "handleLoadingFailed params w =
     (case getState w of
        (snapshot, w1) \<Rightarrow>
          (let w2 = (case findRequest snapshot (lxRequestId params) w1 of
                       Some request \<Rightarrow>
                         (case newArray
                                 (arrayObjs (heap w1) (requests (stateObjs (heap w1) snapshot)))
                                 (modifyRequest request
                                    (\<lambda>q. q\<lparr>statusText := errorText params,
                                           duration := lxTimestamp params * 1000 - timestamp q\<rparr>)
                                    w1) of
                            (copy, v) \<Rightarrow> setState [Requests copy] v)
                     | None \<Rightarrow> w1)
           in w2\<lparr>nc := (nc w2)\<lparr>pendingRequests :=
                   (pendingRequests (nc w2))(lxRequestId params := None)\<rparr>\<rparr>))"

section \<open>The animation frame\<close>

fun runCallback :: "Callback \<Rightarrow> World \<Rightarrow> World" where
  "runCallback StoreFlush w = storeFlush w"
| "runCallback (CaptureFlush snapshot) w = captureFlush snapshot w"

text \<open>
  One frame: the callbacks queued so far run in the order they were queued; what they
  queue waits for the next frame.
\<close>

definition runFrame :: "World \<Rightarrow> World" where
  "runFrame w = foldl (\<lambda>v cb. runCallback cb v) (w\<lparr>rafQueue := []\<rparr>) (rafQueue w)"


section \<open>FilterManager: toggling a filter\<close>

datatype OptionKind = KindAll | KindType

text \<open>The string values of the enumeration \<open>ResourceType\<close>.\<close>

fun enumValue :: "ResourceType \<Rightarrow> string" where
  "enumValue XHR = ''xhr''"
| "enumValue FETCH = ''fetch''"
| "enumValue DOC = ''document''"
| "enumValue CSS = ''stylesheet''"
| "enumValue JS = ''script''"
| "enumValue IMG = ''image''"
| "enumValue FONT = ''font''"
| "enumValue MEDIA = ''media''"
| "enumValue MANIFEST = ''manifest''"
| "enumValue SOCKET = ''websocket''"
| "enumValue WASM = ''wasm''"
| "enumValue OTHER = ''other''"

record FilterOption =
  optValue :: string
  optLabel :: string
  optKind :: OptionKind
  resourceTypes :: "ResourceType list option"

definition typeOption :: "ResourceType \<Rightarrow> string \<Rightarrow> FilterOption" where
  "typeOption t l = \<lparr>optValue = enumValue t, optLabel = l, optKind = KindType, resourceTypes = None\<rparr>"

definition filterOptions :: "FilterOption list" where
  "filterOptions =
     [\<lparr>optValue = ''all'', optLabel = ''All'', optKind = KindAll, resourceTypes = None\<rparr>,
      \<lparr>optValue = ''fetch/xhr'', optLabel = ''Fetch/XHR'', optKind = KindType,
        resourceTypes = Some [FETCH, XHR]\<rparr>,
      typeOption DOC ''Doc'', typeOption CSS ''CSS'', typeOption JS ''JS'',
      typeOption FONT ''Font'', typeOption IMG ''Img'', typeOption MEDIA ''Media'',
      typeOption MANIFEST ''Manifest'', typeOption SOCKET ''Socket'',
      typeOption WASM ''Wasm'', typeOption OTHER ''Other'']"

text \<open>\<open>value as ResourceType\<close>: the member whose string the value is.\<close>

definition asResourceType :: "string \<Rightarrow> ResourceType option" where
  "asResourceType v =
     find (\<lambda>t. enumValue t = v)
       [XHR, FETCH, DOC, CSS, JS, IMG, FONT, MEDIA, MANIFEST, SOCKET, WASM, OTHER]"

text \<open>\<open>Set.add\<close>, \<open>Set.delete\<close> and \<open>Set.clear\<close> change the set object in place.\<close>

definition modifySet :: "ref \<Rightarrow> (ResourceType set \<Rightarrow> ResourceType set) \<Rightarrow> World \<Rightarrow> World" where
  "modifySet r f w =
     w\<lparr>heap := (heap w)\<lparr>setObjs := (setObjs (heap w))(r := f (setObjs (heap w) r))\<rparr>\<rparr>"

definition addOrDelete :: "bool \<Rightarrow> ResourceType \<Rightarrow> ResourceType set \<Rightarrow> ResourceType set" where
  "addOrDelete checked t S = (if checked then insert t S else S - {t})"

text \<open>
  \<open>handleCheckboxChange\<close>, without the checkbox elements and the write to storage.
  The set changed is the one reached through the snapshot, \<open>state.filters.types\<close>.
\<close>

definition handleCheckboxChange :: "string \<Rightarrow> bool \<Rightarrow> World \<Rightarrow> World" where
  "handleCheckboxChange v checked w =
     (case getState w of
        (snapshot, w1) \<Rightarrow>
          (let fobj = filters (stateObjs (heap w1) snapshot);
               tset = types (filterObjs (heap w1) fobj);
               w2 = (if v = ''all''
                     then (if checked then modifySet tset (\<lambda>S. {}) w1 else w1)
                     else (case find (\<lambda>opt. optValue opt = v) filterOptions of
                             Some opt \<Rightarrow>
                               (if optKind opt = KindType
                                then (case resourceTypes opt of
                                        Some ts \<Rightarrow>
                                          foldl (\<lambda>x t. modifySet tset (addOrDelete checked t) x) w1 ts
                                      | None \<Rightarrow>
                                          (case asResourceType v of
                                             Some t \<Rightarrow> modifySet tset (addOrDelete checked t) w1
                                           | None \<Rightarrow> w1))
                                else w1)
                           | None \<Rightarrow> w1))
           in setState [Filters fobj] w2))"

section \<open>KeyboardHandler\<close>

record KeyboardEvent =
  key :: string
  shiftKey :: bool
  ctrlKey :: bool

text \<open>
  \<open>moveSelection\<close>.  Here and in the other key handlers a snapshot \<open>getState()\<close>
  that is only read at once is a read of \<open>this.state\<close>.
\<close>

definition moveSelection :: "int \<Rightarrow> int \<Rightarrow> World \<Rightarrow> World" where
  "moveSelection delta maxLength w =
     setState [SelectedIndex (max 0 (min (maxLength - 1) (selectedIndex (theState w) + delta)))] w"

text \<open>
  Timers of the key sequences: \<open>setTimeout\<close> returns a handle greater than zero and
  keeps it until the timer fires or is cleared.
\<close>

definition setSequenceTimeout :: "World \<Rightarrow> World" where
  "setSequenceTimeout w =
     w\<lparr>timers := timers w @ [Suc (timerCounter w)], timerCounter := Suc (timerCounter w),
       kh := (kh w)\<lparr>sequenceTimeout := Some (Suc (timerCounter w))\<rparr>\<rparr>"

definition clearSequenceTimeout :: "World \<Rightarrow> World" where
  "clearSequenceTimeout w =
     (if falsyId (sequenceTimeout (kh w)) then w
      else w\<lparr>timers := filter (\<lambda>t. Some t \<noteq> sequenceTimeout (kh w)) (timers w)\<rparr>)"

text \<open>A timer of a key sequence fires: \<open>this.keySequence = ''\<close>.\<close>

definition sequenceTimerFires :: "nat \<Rightarrow> World \<Rightarrow> World" where
  "sequenceTimerFires t w =
     (if t \<in> set (timers w)
      then w\<lparr>timers := filter (\<lambda>x. x \<noteq> t) (timers w), kh := (kh w)\<lparr>keySequence := []\<rparr>\<rparr>
      else w)"

definition handleGSequence :: "World \<Rightarrow> World" where
  "handleGSequence w =
     (let w1 = clearSequenceTimeout (w\<lparr>kh := (kh w)\<lparr>keySequence := keySequence (kh w) @ ''g''\<rparr>\<rparr>)
      in if keySequence (kh w1) = ''gg''
         then (let w2 = setState [SelectedIndex 0] w1 in w2\<lparr>kh := (kh w2)\<lparr>keySequence := []\<rparr>\<rparr>)
         else setSequenceTimeout w1)"

definition handleDSequence :: "World \<Rightarrow> World" where
  "handleDSequence w =
     (let w1 = clearSequenceTimeout (w\<lparr>kh := (kh w)\<lparr>keySequence := keySequence (kh w) @ ''d''\<rparr>\<rparr>)
      in if keySequence (kh w1) = ''dd''
         then (let w2 = deleteRequest (selectedIndex (theState w1)) w1
               in w2\<lparr>kh := (kh w2)\<lparr>keySequence := []\<rparr>\<rparr>)
         else if keySequence (kh w1) = ''dr''
         then (let w2 = clearRequests w1 in w2\<lparr>kh := (kh w2)\<lparr>keySequence := []\<rparr>\<rparr>)
         else setSequenceTimeout w1)"

definition focusMap :: "PreviewTab \<Rightarrow> InspectFocus" where
  "focusMap t = (case t of TabHeaders \<Rightarrow> HEADERS | TabResponse \<Rightarrow> RESPONSE | TabPreview \<Rightarrow> PREVIEW)"

text \<open>
  \<open>handleNormalMode\<close>: the \<open>switch\<close> on the key, then the Ctrl and the Shift
  combinations.  \<open>toggleJsonNode\<close>, \<open>toggleJsonFormat\<close> and \<open>quickSearch\<close> are empty
  in the source; \<open>toggleHelp\<close>, \<open>exportData\<close> and the focusing after Enter only
  touch the document.
\<close>

definition normalKey :: "int \<Rightarrow> KeyboardEvent \<Rightarrow> World \<Rightarrow> World" where
  "normalKey n event w =
     (if key event = ''j'' then moveSelection 1 n w
      else if key event = ''k'' then moveSelection (- 1) n w
      else if key event = ''g'' then handleGSequence w
      else if key event = ''G'' then setState [SelectedIndex (max 0 (n - 1))] w
      else if key event = ''/'' then setState [Mode SEARCH, SearchQuery []] w
      else if key event = ''f'' then setState [Mode FILTER] w
      else if key event = ''d'' then handleDSequence w
      else if key event = ''Enter''
      then setState [Mode INSPECT, InspectFocusU (focusMap (previewTab (theState w)))] w
      else if key event = ''c'' then setState [Mode COPY] w
      else w)"

definition normalShift :: "KeyboardEvent \<Rightarrow> World \<Rightarrow> World" where
  "normalShift event w =
     (if shiftKey event
      then (if key event = ''H'' then setState [PreviewTabU TabHeaders] w
            else if key event = ''L'' then setState [PreviewTabU TabResponse] w
            else if key event = ''P'' then setState [PreviewTabU TabPreview] w
            else w)
      else w)"

definition handleNormalMode :: "Fuzzy \<Rightarrow> KeyboardEvent \<Rightarrow> World \<Rightarrow> World" where
  "handleNormalMode fz event w =
     (case getFilteredRequests fz w of
        (view, w1) \<Rightarrow>
          normalShift event (normalKey (int (length (arrayObjs (heap w1) view))) event w1))"

definition handleSearchMode :: "KeyboardEvent \<Rightarrow> World \<Rightarrow> World" where
  "handleSearchMode event w =
     (if key event = ''q'' then setState [Mode NORMAL, SearchQuery []] w
      else if key event = ''Enter'' then setState [Mode NORMAL] w
      else w)"

text \<open>
  The handlers of the other modes hand some keys to components that are not modelled
  (the filter bar, the header list, the JSON viewer, the copy menu's own selection) or
  answer them from a panel of the document (\<open>scrollInspectPanel\<close>,
  \<open>scrollInspectPanelTo\<close>).  Where that is all the handler does, the result is
  \<open>None\<close>: the handler itself changes nothing of the page, and the \<open>setState\<close> call
  the component makes, or the handler makes with what it has read from the panel, is an
  event of its own (\<open>UiUpdate\<close> below).  \<open>Some\<close> is what the handler does itself.
\<close>

definition handleFilterMode :: "KeyboardEvent \<Rightarrow> World \<Rightarrow> World option" where
  "handleFilterMode event w =
     (if key event = ''q'' then Some (setState [Mode NORMAL] w)
      else if shiftKey event \<and> key event = ''H'' then None
      else if shiftKey event \<and> key event = ''L'' then None
      else if key event = ''h'' \<or> key event = ''l'' \<or> key event = ''Enter'' then None
      else Some w)"

definition switchToPanel :: "PreviewTab \<Rightarrow> InspectFocus \<Rightarrow> World \<Rightarrow> World" where
  "switchToPanel tab focus w =
     setState [InspectFocusU focus, PreviewTabU tab, InspectScrollPosition 0] w"

definition tabMap :: "InspectFocus \<Rightarrow> PreviewTab" where
  "tabMap f = (case f of HEADERS \<Rightarrow> TabHeaders | RESPONSE \<Rightarrow> TabResponse | PREVIEW \<Rightarrow> TabPreview)"

text \<open>\<open>cycleInspectFocus\<close>: the panel \<open>direction\<close> places further in the cycle of three.\<close>

definition cycleInspectFocus :: "int \<Rightarrow> World \<Rightarrow> World" where
  "cycleInspectFocus direction w =
     (let panels = [HEADERS, RESPONSE, PREVIEW];
          currentIndex = (case inspectFocus (theState w) of
                            HEADERS \<Rightarrow> 0 | RESPONSE \<Rightarrow> 1 | PREVIEW \<Rightarrow> 2);
          newIndex = (currentIndex + direction + 3) mod 3;
          newFocus = panels ! nat newIndex
      in switchToPanel (tabMap newFocus) newFocus w)"

text \<open>
  \<open>handleHeadersGSequence\<close>, \<open>handleJsonGSequence\<close> and \<open>handleInspectGSequence\<close>
  are the same but for the call at \<open>gg\<close> (to the header list, the JSON viewer, the
  panel), which is such an event of its own.
\<close>

definition handleInspectGSequence :: "World \<Rightarrow> World" where
  "handleInspectGSequence w =
     (let w1 = clearSequenceTimeout (w\<lparr>kh := (kh w)\<lparr>keySequence := keySequence (kh w) @ ''g''\<rparr>\<rparr>)
      in if keySequence (kh w1) = ''gg''
         then w1\<lparr>kh := (kh w1)\<lparr>keySequence := []\<rparr>\<rparr>
         else setSequenceTimeout w1)"

definition handleHeadersGSequence :: "World \<Rightarrow> World" where
  "handleHeadersGSequence = handleInspectGSequence"

definition handleJsonGSequence :: "World \<Rightarrow> World" where
  "handleJsonGSequence = handleInspectGSequence"

text \<open>
  \<open>handleJsonYankSequence\<close>: \<open>yy\<close>, \<open>yp\<close> and the timer of a single \<open>y\<close> copy to
  the clipboard, which is not part of the page here.
\<close>

definition handleJsonYankSequence :: "KeyboardEvent \<Rightarrow> World \<Rightarrow> World" where
  "handleJsonYankSequence event w =
     (let w1 = clearSequenceTimeout
                 (w\<lparr>kh := (kh w)\<lparr>keySequence := keySequence (kh w) @ key event\<rparr>\<rparr>)
      in if keySequence (kh w1) = ''yy'' then w1\<lparr>kh := (kh w1)\<lparr>keySequence := []\<rparr>\<rparr>
         else if keySequence (kh w1) = ''yp'' then w1\<lparr>kh := (kh w1)\<lparr>keySequence := []\<rparr>\<rparr>
         else if keySequence (kh w1) = ''y'' then setSequenceTimeout w1
         else w1\<lparr>kh := (kh w1)\<lparr>keySequence := []\<rparr>\<rparr>)"

text \<open>The remainder \<open>a % n\<close> of JavaScript, which has the sign of \<open>a\<close>.\<close>

definition jsRem :: "int \<Rightarrow> int \<Rightarrow> int" where
  "jsRem a n = (if 0 \<le> a then a mod \<bar>n\<bar> else - ((- a) mod \<bar>n\<bar>))"

definition nextInspectSearchMatch :: "int \<Rightarrow> World \<Rightarrow> World" where
  "nextInspectSearchMatch direction w =
     (if length (inspectSearchMatches (theState w)) = 0 then w
      else setState
             [InspectSearchIndex
                (jsRem (inspectSearchIndex (theState w) + direction
                          + int (length (inspectSearchMatches (theState w))))
                   (int (length (inspectSearchMatches (theState w)))))] w)"

text \<open>
  \<open>handleInspectMode\<close>.  After the keys of the mode itself come the keys of the
  focused panel; a key that is none of these reaches the rest of the handler: the
  scrolling by half pages, the search in the panel (\<open>startInspectSearch\<close> only shows
  the search bar) and its matches.
\<close>

definition inspectOtherKey :: "KeyboardEvent \<Rightarrow> World \<Rightarrow> World option" where
  "inspectOtherKey event w =
     (if ctrlKey event \<and> (key event = ''d'' \<or> key event = ''u'') then None
      else if key event = ''/'' then Some w
      else if key event = ''n'' then Some (nextInspectSearchMatch 1 w)
      else if key event = ''N'' then Some (nextInspectSearchMatch (- 1) w)
      else Some w)"

definition handleInspectMode :: "KeyboardEvent \<Rightarrow> World \<Rightarrow> World option" where
  "handleInspectMode event w =
     (if key event = ''q''
      then Some (setState [Mode NORMAL, InspectFocusU HEADERS, InspectSearchQuery [],
                           InspectSearchMatches [], InspectSearchIndex 0,
                           HeadersSelectedIndex 0, IsInspectExpanded False] w)
      else if key event = ''z''
      then Some (setState [IsInspectExpanded (\<not> isInspectExpanded (theState w))] w)
      else if shiftKey event \<and> key event = ''H'' then Some (switchToPanel TabHeaders HEADERS w)
      else if shiftKey event \<and> key event = ''L'' then Some (switchToPanel TabResponse RESPONSE w)
      else if shiftKey event \<and> key event = ''P'' then Some (switchToPanel TabPreview PREVIEW w)
      else if key event = ''Tab''
      then Some (cycleInspectFocus (if shiftKey event then - 1 else 1) w)
      else if inspectFocus (theState w) = HEADERS \<and> previewTab (theState w) = TabHeaders
      then (if key event = ''j'' \<or> key event = ''k'' \<or> key event = ''h'' \<or> key event = ''l''
               \<or> key event = ''y''
            then None
            else if key event = ''g'' then Some (handleHeadersGSequence w)
            else if key event = ''G'' then None
            else inspectOtherKey event w)
      else if inspectFocus (theState w) = PREVIEW \<and> previewTab (theState w) = TabPreview
      then (if key event = ''j'' \<or> key event = ''k'' \<or> key event = ''h'' \<or> key event = ''l''
            then None
            else if key event = ''y'' \<or> (key event = ''p'' \<and> keySequence (kh w) = ''y'')
            then Some (handleJsonYankSequence event w)
            else if key event = ''g'' then Some (handleJsonGSequence w)
            else if key event = ''G'' then None
            else inspectOtherKey event w)
      else (if key event = ''j'' \<or> key event = ''k'' then None
            else if key event = ''g'' then Some (handleInspectGSequence w)
            else if key event = ''G'' then None
            else inspectOtherKey event w))"

definition handleCopyMode :: "KeyboardEvent \<Rightarrow> World \<Rightarrow> World option" where
  "handleCopyMode event w =
     (if \<not> copyMenu w then Some w
      else if key event = ''q'' \<or> key event = ''Escape'' then Some (setState [Mode NORMAL] w)
      else if key event = ''l'' \<or> key event = ''ArrowRight'' then None
      else if key event = ''h'' \<or> key event = ''ArrowLeft'' then None
      else if key event = ''Enter'' then None
      else Some w)"

definition handleKeyDown :: "Fuzzy \<Rightarrow> KeyboardEvent \<Rightarrow> World \<Rightarrow> World option" where
  "handleKeyDown fz event w =
     (case mode (theState w) of
        NORMAL \<Rightarrow> Some (handleNormalMode fz event w)
      | SEARCH \<Rightarrow> Some (handleSearchMode event w)
      | FILTER \<Rightarrow> handleFilterMode event w
      | INSPECT \<Rightarrow> handleInspectMode event w
      | COPY \<Rightarrow> handleCopyMode event w)"

section \<open>The page after construction\<close>

text \<open>
  The objects the \<open>StateManager\<close> constructor makes: the request array (0), the set
  of types (1), the filter object (2), the expansion map (3) and the state object (4).
  \<open>panel.ts\<close> sets \<open>window.copyMenu\<close> when it builds the page.
\<close>

definition initialState :: AppState where
  "initialState =
     \<lparr>mode = NORMAL, requests = 0, selectedIndex = 0, searchQuery = [], filters = 2,
      jsonExpanded = 3, previewTab = TabHeaders, filterSelectedIndex = 0,
      filterOrder = [''fetch/xhr'', ''document'', ''stylesheet'', ''script'', ''font'',
                     ''image'', ''media'', ''manifest'', ''websocket'', ''wasm'', ''other''],
      inspectFocus = HEADERS, inspectScrollPosition = 0, inspectSearchQuery = [],
      inspectSearchMatches = [], inspectSearchIndex = 0, headersSelectedIndex = 0,
      isInspectExpanded = False, jsonSelectedIndex = 0, flattenedJsonNodes = []\<rparr>"

definition emptyRequest :: NetworkRequest where
  "emptyRequest =
     \<lparr>rid = [], url = [], name = [], httpMethod = [], rtype = OTHER, status = 0,
      statusText = [], timestamp = 0, duration = 0, rsize = 0, requestHeaders = Map.empty,
      responseHeaders = Map.empty, requestBody = None, responseBody = None, initiator = None\<rparr>"

definition initialHeap :: Heap where
  "initialHeap =
     \<lparr>stateObjs = (\<lambda>_. initialState),
      arrayObjs = (\<lambda>_. []),
      requestObjs = (\<lambda>_. emptyRequest),
      filterObjs = (\<lambda>_. \<lparr>types = 1, statusCodes = []\<rparr>),
      setObjs = (\<lambda>_. {}),
      mapObjs = (\<lambda>_. Map.empty),
      nextRef = 5\<rparr>"

definition initialWorld :: World where
  "initialWorld =
     \<lparr>heap = initialHeap,
      sm = \<lparr>state = 4, listeners = [], pendingUpdates = [], rafId = None,
            filteredRequestsCache =
              \<lparr>cachedRequests = None, lastRequestsLength = 0, lastSearchQuery = [],
               lastMethodsSize = 0, lastTypesSize = 0\<rparr>,
            fuseIndex = None, lastFuseIndexLength = 0\<rparr>,
      nc = \<lparr>pendingRequests = Map.empty, responseBodyCache = Map.empty, fetchingBodies = {},
            mainFrameId = None, pendingUIUpdates = {}, updateBatchRafId = None\<rparr>,
      kh = \<lparr>keySequence = [], sequenceTimeout = None\<rparr>,
      rafQueue = [], rafCounter = 0, timers = [], timerCounter = 0, deliveries = [],
      indexBuilds = 0, copyMenu = True\<rparr>"


section \<open>The filtered view as the specification words it\<close>

text \<open>
  The view as a function of the requests, the search query and the set of types: the
  fuzzy matches over the requests when there is a query (all requests otherwise), of
  which those with a type in the set are kept when the set is not empty.
\<close>

definition filteredViewSpec :: "Fuzzy \<Rightarrow> Heap \<Rightarrow> ref list \<Rightarrow> string \<Rightarrow> ResourceType set \<Rightarrow> ref list" where
  "filteredViewSpec fz h reqs q tys =
     (let base = (if q \<noteq> []
                  then map (\<lambda>i. reqs ! i)
                         (filter (\<lambda>i. i < length reqs)
                            (fz (map (\<lambda>r. (url (requestObjs h r), name (requestObjs h r))) reqs) q))
                  else reqs)
      in if tys \<noteq> {} then filter (\<lambda>r. rtype (requestObjs h r) \<in> tys) base else base)"

text \<open>What \<open>getFilteredRequests\<close> would have to return in a world.\<close>

definition expectedView :: "Fuzzy \<Rightarrow> World \<Rightarrow> ref list" where
  "expectedView fz w =
     filteredViewSpec fz (heap w) (theRequests w) (searchQuery (theState w)) (theTypes w)"

text \<open>A write to fields of the state object \<open>r\<close>, which may be a snapshot.\<close>

definition modifyStateObj :: "ref \<Rightarrow> (AppState \<Rightarrow> AppState) \<Rightarrow> World \<Rightarrow> World" where
  "modifyStateObj r f w =
     w\<lparr>heap := (heap w)\<lparr>stateObjs := (stateObjs (heap w))(r := f (stateObjs (heap w) r))\<rparr>\<rparr>"

section \<open>Notions used in the statements\<close>

text \<open>The test \<open>handleRequestWillBeSent\<close> makes before it clears.\<close>

definition navigates :: "RequestWillBeSent \<Rightarrow> World \<Rightarrow> bool" where
  "navigates params w =
     (ptype params = ''Document'' \<and>
      (falsyStr (mainFrameId (nc w)) \<or> Some (frameId params) = mainFrameId (nc w)))"

text \<open>The record \<open>handleRequestWillBeSent\<close> builds.\<close>

definition freshRequest :: "URLParser \<Rightarrow> RequestWillBeSent \<Rightarrow> NetworkRequest" where
  "freshRequest parseURL params =
     \<lparr>rid = requestId params, url = requestUrl params,
      name = extractName parseURL (requestUrl params), httpMethod = requestMethod params,
      rtype = mapResourceType (ptype params), status = 0, statusText = ''Pending'',
      timestamp = ptimestamp params * 1000, duration = 0, rsize = 0,
      requestHeaders = requestHdrs params, responseHeaders = Map.empty,
      requestBody = postData params, responseBody = None, initiator = initiatorUrl params\<rparr>"

text \<open>
  The page when that record is made: after the clearing and its notification when the
  handler clears.  The reference of the record is the next free one then.
\<close>

definition cleared :: "RequestWillBeSent \<Rightarrow> World \<Rightarrow> World" where
  "cleared params w =
     (if navigates params w
      then clearRequests (clearCaches (w\<lparr>nc := (nc w)\<lparr>mainFrameId := Some (frameId params)\<rparr>\<rparr>))
      else w)"

definition newRequestRef :: "RequestWillBeSent \<Rightarrow> World \<Rightarrow> ref" where
  "newRequestRef params w = nextRef (heap (cleared params w))"

text \<open>The state a batch \<open>m\<close> of merged updates leaves, from the state \<open>s\<close>.\<close>

definition flushed :: "AppState \<Rightarrow> Partial \<Rightarrow> AppState" where
  "flushed s m =
     (if defined FsearchQuery m \<and> \<not> defined FselectedIndex m
      then (spread s m)\<lparr>selectedIndex := 0\<rparr> else spread s m)"

text \<open>The calls one notification makes: each subscriber once, with the state object.\<close>

definition notification :: "World \<Rightarrow> (nat \<times> ref) list" where
  "notification w = map (\<lambda>l. (lid l, state (sm w))) (listeners (sm w))"

text \<open>A change in place of the array \<open>a\<close>, of the map \<open>m\<close>.\<close>

definition modifyArray :: "ref \<Rightarrow> (ref list \<Rightarrow> ref list) \<Rightarrow> World \<Rightarrow> World" where
  "modifyArray a f w =
     w\<lparr>heap := (heap w)\<lparr>arrayObjs := (arrayObjs (heap w))(a := f (arrayObjs (heap w) a))\<rparr>\<rparr>"

definition modifyMap :: "ref \<Rightarrow> ((string \<rightharpoonup> bool) \<Rightarrow> (string \<rightharpoonup> bool)) \<Rightarrow> World \<Rightarrow> World" where
  "modifyMap m f w =
     w\<lparr>heap := (heap w)\<lparr>mapObjs := (mapObjs (heap w))(m := f (mapObjs (heap w) m))\<rparr>\<rparr>"

definition theExpanded :: "World \<Rightarrow> (string \<rightharpoonup> bool)" where
  "theExpanded w = mapObjs (heap w) (jsonExpanded (theState w))"

section \<open>The page as a system\<close>

text \<open>
  What happens to the page: the four events of the capture source, an animation
  frame, a key, a tick of a filter checkbox, the timer of a key sequence, a
  \<open>setState\<close> call of a component that is not modelled, and a read of the filtered
  view outside a notification (the first drawing of a component).  A key that its
  handler hands to such a component changes nothing here; what the component then asks
  of the Store is an event \<open>UiUpdate\<close> of its own.
\<close>

datatype Event =
  Initiated RequestWillBeSent
  | Headers ResponseReceived
  | Finished LoadingFinished
  | Failed LoadingFailed
  | Frame
  | Key KeyboardEvent
  | Checkbox string bool
  | SequenceTimer nat
  | UiUpdate Partial
  | ViewRead

fun step :: "Fuzzy \<Rightarrow> URLParser \<Rightarrow> Event \<Rightarrow> World \<Rightarrow> World" where
  "step fz parseURL (Initiated params) w = handleRequestWillBeSent parseURL params w"
| "step fz parseURL (Headers params) w = handleResponseReceived params w"
| "step fz parseURL (Finished params) w = handleLoadingFinished params w"
| "step fz parseURL (Failed params) w = handleLoadingFailed params w"
| "step fz parseURL Frame w = runFrame w"
| "step fz parseURL (Key event) w = (case handleKeyDown fz event w of Some v \<Rightarrow> v | None \<Rightarrow> w)"
| "step fz parseURL (Checkbox v checked) w = handleCheckboxChange v checked w"
| "step fz parseURL (SequenceTimer t) w = sequenceTimerFires t w"
| "step fz parseURL (UiUpdate p) w = setState p w"
| "step fz parseURL ViewRead w = snd (getFilteredRequests fz w)"

definition run :: "Fuzzy \<Rightarrow> URLParser \<Rightarrow> Event list \<Rightarrow> World \<Rightarrow> World" where
  "run fz parseURL es w = foldl (\<lambda>v e. step fz parseURL e v) w es"

text \<open>
  No component of the repository passes \<open>requests\<close> to \<open>setState\<close>; only the capture
  does, with a copy of the array of a snapshot.  An event is \<open>plain\<close> when it is not
  such a call of a component, and a subscriber is \<open>quiet\<close> when its body makes none.
\<close>

fun plain :: "Event \<Rightarrow> bool" where
  "plain (UiUpdate p) = (\<not> defined Frequests p)"
| "plain _ = True"

definition quiet :: "Listener \<Rightarrow> bool" where
  "quiet l = (\<forall>h s v. \<not> defined Frequests (concat (onNotify l h s v)))"

text \<open>
  An array that exists and holds at most 1000 entries; a snapshot that exists, is not
  the Store's state object, and points to such an array.
\<close>

definition okArr :: "Heap \<Rightarrow> ref \<Rightarrow> bool" where
  "okArr h a = (a < nextRef h \<and> length (arrayObjs h a) \<le> MAX_REQUESTS)"

definition okSnap :: "World \<Rightarrow> ref \<Rightarrow> bool" where
  "okSnap w s =
     (s < nextRef (heap w) \<and> s \<noteq> state (sm w) \<and> okArr (heap w) (requests (stateObjs (heap w) s)))"

fun okUpdate :: "Heap \<Rightarrow> Update \<Rightarrow> bool" where
  "okUpdate h (Requests a) = okArr h a"
| "okUpdate h _ = True"

fun okCallback :: "World \<Rightarrow> Callback \<Rightarrow> bool" where
  "okCallback w (CaptureFlush s) = okSnap w s"
| "okCallback w StoreFlush = True"

text \<open>
  The invariant: the stored array, every array a waiting update would store and
  every array a waiting capture callback would copy hold at most 1000 entries.
\<close>

definition bounded :: "World \<Rightarrow> bool" where
  "bounded w =
     (state (sm w) < nextRef (heap w)
      \<and> okArr (heap w) (requests (theState w))
      \<and> list_all quiet (listeners (sm w))
      \<and> list_all (list_all (okUpdate (heap w))) (pendingUpdates (sm w))
      \<and> list_all (okCallback w) (rafQueue w))"

section \<open>Example pages\<close>

text \<open>
  Concrete inputs: a URL parser that rejects every string, a fuzzy search that matches
  every item, an initiated event, a key press, and a subscriber that only draws.
\<close>

definition noURL :: URLParser where
  "noURL = (\<lambda>_. None)"

definition matchAll :: Fuzzy where
  "matchAll = (\<lambda>texts q. [0..<length texts])"

definition initiated :: "string \<Rightarrow> string \<Rightarrow> string \<Rightarrow> RequestWillBeSent" where
  "initiated i t f =
     \<lparr>requestId = i, ptype = t, frameId = f, requestUrl = ''https://x.test/'' @ i,
      requestMethod = ''GET'', requestHdrs = Map.empty, postData = None, ptimestamp = 1,
      initiatorUrl = None\<rparr>"

definition press :: "string \<Rightarrow> KeyboardEvent" where
  "press k = \<lparr>key = k, shiftKey = False, ctrlKey = False\<rparr>"

definition tableView :: Listener where
  "tableView = \<lparr>lid = 1, readsView = (\<lambda>_ _. False), fuse = matchAll, onNotify = (\<lambda>_ _ _. [])\<rparr>"

definition page :: World where
  "page = subscribe tableView initialWorld"

text \<open>A key press followed by the next frame.\<close>

definition keyThenFrame :: "string \<Rightarrow> World \<Rightarrow> World" where
  "keyThenFrame k w = (case handleKeyDown matchAll (press k) w of Some v \<Rightarrow> runFrame v | None \<Rightarrow> w)"

text \<open>The page with the Script filter ticked, then one script request \<open>a\<close>, then viewed.\<close>

definition scriptsOnly :: World where
  "scriptsOnly = runFrame (handleCheckboxChange ''script'' True page)"

definition withA :: World where
  "withA = handleRequestWillBeSent noURL (initiated ''a'' ''Script'' ''F'') scriptsOnly"

definition viewedA :: World where
  "viewedA = snd (getFilteredRequests matchAll withA)"

text \<open>Request \<open>a\<close> deleted and a script request \<open>b\<close> captured, between two reads.\<close>

definition replaced :: World where
  "replaced =
     handleRequestWillBeSent noURL (initiated ''b'' ''Script'' ''F'') (deleteRequest 0 viewedA)"

text \<open>The key \<open>j\<close> pressed on \<open>viewedA\<close>, and the frame after it.\<close>

definition movedA :: World where
  "movedA = keyThenFrame ''j'' viewedA"

text \<open>The key \<open>/\<close> pressed on \<open>viewedA\<close>, and the frame after it.\<close>

definition slashed :: World where
  "slashed = keyThenFrame ''/'' viewedA"

text \<open>
  A page with one request, viewed; then the search box sets the query \<open>ab\<close> (\<open>panel.ts\<close>
  calls \<open>setState({ searchQuery: query })\<close>) and the frame runs.
\<close>

definition oneRequest :: World where
  "oneRequest =
     snd (getFilteredRequests matchAll
       (handleRequestWillBeSent noURL (initiated ''a'' ''Script'' ''F'') page))"

definition typed :: World where
  "typed = runFrame (setState [SearchQuery ''ab''] oneRequest)"

text \<open>
  A script \<open>a\<close> and an image \<open>b\<close>; \<open>j\<close> selects the second row; then the Script
  filter is ticked.
\<close>

definition twoRequests :: World where
  "twoRequests =
     handleRequestWillBeSent noURL (initiated ''b'' ''Image'' ''F'')
       (handleRequestWillBeSent noURL (initiated ''a'' ''Script'' ''F'') page)"

definition secondSelected :: World where
  "secondSelected = keyThenFrame ''j'' twoRequests"

definition thenFiltered :: World where
  "thenFiltered = runFrame (handleCheckboxChange ''script'' True secondSelected)"

text \<open>The response headers of \<open>b\<close> arrive with status 404.\<close>

definition notFound :: ResponseReceived where
  "notFound = \<lparr>rrRequestId = ''b'', rrStatus = 404, rrStatusText = ''Not Found'',
                rrHeaders = Map.empty\<rparr>"

text \<open>Enter on the page, and the frame after it: INSPECT mode.\<close>

definition inspecting :: World where
  "inspecting = keyThenFrame ''Enter'' twoRequests"

text \<open>Then \<open>z\<close>: the full-width view.\<close>

definition zoomed :: World where
  "zoomed = keyThenFrame ''z'' inspecting"

text \<open>
  A subscriber that answers every notification with a \<open>setState\<close> call, as
  \<open>HeadersList.render\<close> does when it clamps the selected header, and the page with
  it after one \<open>setState\<close> call and the frame.
\<close>

definition clamper :: Listener where
  "clamper = \<lparr>lid = 2, readsView = (\<lambda>_ _. False), fuse = matchAll,
              onNotify = (\<lambda>_ _ _. [[HeadersSelectedIndex 2]])\<rparr>"

definition clamped :: World where
  "clamped = runFrame (setState [SelectedIndex 1] (subscribe clamper page))"

text \<open>
  A subscriber that reads the filtered view whenever it is notified and makes no
  \<open>setState\<close> call, as \<open>StatusBar.update\<close>; the page with it beside the table and
  one request captured; then the search box sets the query \<open>ab\<close> and the frame runs.
\<close>

definition statusBar :: Listener where
  "statusBar = \<lparr>lid = 3, readsView = (\<lambda>_ _. True), fuse = matchAll, onNotify = (\<lambda>_ _ _. [])\<rparr>"

definition watched :: World where
  "watched =
     handleRequestWillBeSent noURL (initiated ''a'' ''Script'' ''F'') (subscribe statusBar page)"

definition watchedTyped :: World where
  "watchedTyped = runFrame (setState [SearchQuery ''ab''] watched)"

section \<open>Frame lemmas\<close>

lemma setState_heap [simp]: "heap (setState u w) = heap w"
  by (simp add: setState_def requestAnimationFrame_def Let_def)

lemma setState_state [simp]: "state (sm (setState u w)) = state (sm w)"
  by (simp add: setState_def requestAnimationFrame_def Let_def)

lemma setStates_heap [simp]: "heap (foldl (\<lambda>v u. setState u v) w us) = heap w"
  by (induction us arbitrary: w) simp_all

lemma setStates_state [simp]: "state (sm (foldl (\<lambda>v u. setState u v) w us)) = state (sm w)"
  by (induction us arbitrary: w) simp_all

lemma theState_modifyState [simp]: "theState (modifyState f w) = f (theState w)"
  by (simp add: theState_def modifyState_def)

lemma theState_modifyRequests [simp]: "theState (modifyRequests f w) = theState w"
  by (simp add: theState_def modifyRequests_def)

lemma theRequests_modifyRequests [simp]: "theRequests (modifyRequests f w) = f (theRequests w)"
  by (simp add: theRequests_def theState_def modifyRequests_def)

lemma theRequests_modifyState [simp]:
  "requests (f (theState w)) = requests (theState w) \<Longrightarrow>
   theRequests (modifyState f w) = theRequests w"
  by (simp add: theRequests_def theState_def modifyState_def)

section \<open>What queueing leaves alone\<close>

lemma setState_shape:
  "\<exists>P R Q C. setState u w =
     w\<lparr>sm := (sm w)\<lparr>pendingUpdates := P, rafId := R\<rparr>, rafQueue := Q, rafCounter := C\<rparr>"
proof (cases "falsyId (rafId (sm w))")
  case True
  then have "setState u w =
     w\<lparr>sm := (sm w)\<lparr>pendingUpdates := pendingUpdates (sm w) @ [u],
                     rafId := Some (Suc (rafCounter w))\<rparr>,
       rafQueue := rafQueue w @ [StoreFlush], rafCounter := Suc (rafCounter w)\<rparr>"
    by (simp add: setState_def Let_def requestAnimationFrame_def)
  then show ?thesis by blast
next
  case False
  then have "setState u w =
     w\<lparr>sm := (sm w)\<lparr>pendingUpdates := pendingUpdates (sm w) @ [u], rafId := rafId (sm w)\<rparr>,
       rafQueue := rafQueue w, rafCounter := rafCounter w\<rparr>"
    by (simp add: setState_def Let_def)
  then show ?thesis by blast
qed

lemma setStates_shape:
  "\<exists>P R Q C. foldl (\<lambda>v u. setState u v) w us =
     w\<lparr>sm := (sm w)\<lparr>pendingUpdates := P, rafId := R\<rparr>, rafQueue := Q, rafCounter := C\<rparr>"
proof (induction us arbitrary: w)
  case Nil
  have "w = w\<lparr>sm := (sm w)\<lparr>pendingUpdates := pendingUpdates (sm w), rafId := rafId (sm w)\<rparr>,
            rafQueue := rafQueue w, rafCounter := rafCounter w\<rparr>"
    by simp
  then show ?case by (metis foldl_Nil)
next
  case (Cons u us)
  obtain P R Q C where a: "setState u w =
     w\<lparr>sm := (sm w)\<lparr>pendingUpdates := P, rafId := R\<rparr>, rafQueue := Q, rafCounter := C\<rparr>"
    using setState_shape by blast
  obtain P' R' Q' C' where b: "foldl (\<lambda>v u. setState u v) (setState u w) us =
     (setState u w)\<lparr>sm := (sm (setState u w))\<lparr>pendingUpdates := P', rafId := R'\<rparr>,
                     rafQueue := Q', rafCounter := C'\<rparr>"
    using Cons.IH by blast
  have "foldl (\<lambda>v u. setState u v) (setState u w) us =
     w\<lparr>sm := (sm w)\<lparr>pendingUpdates := P', rafId := R'\<rparr>, rafQueue := Q', rafCounter := C'\<rparr>"
    by (subst b, subst a, subst a) simp
  then show ?case by (simp del: foldl_Cons add: foldl_Cons) blast
qed

lemma setState_sm_frame [simp]:
  "listeners (sm (setState u w)) = listeners (sm w)"
  "filteredRequestsCache (sm (setState u w)) = filteredRequestsCache (sm w)"
  "fuseIndex (sm (setState u w)) = fuseIndex (sm w)"
  "lastFuseIndexLength (sm (setState u w)) = lastFuseIndexLength (sm w)"
  using setState_shape [of u w] by auto

lemma setState_frame [simp]:
  "nc (setState u w) = nc w"
  "kh (setState u w) = kh w"
  "indexBuilds (setState u w) = indexBuilds w"
  "copyMenu (setState u w) = copyMenu w"
  "timers (setState u w) = timers w"
  "timerCounter (setState u w) = timerCounter w"
  "deliveries (setState u w) = deliveries w"
  using setState_shape [of u w] by auto

lemma setStates_sm_frame [simp]:
  "listeners (sm (foldl (\<lambda>v u. setState u v) w us)) = listeners (sm w)"
  "filteredRequestsCache (sm (foldl (\<lambda>v u. setState u v) w us)) = filteredRequestsCache (sm w)"
  "fuseIndex (sm (foldl (\<lambda>v u. setState u v) w us)) = fuseIndex (sm w)"
  "lastFuseIndexLength (sm (foldl (\<lambda>v u. setState u v) w us)) = lastFuseIndexLength (sm w)"
  using setStates_shape [of w us] by auto

lemma setStates_frame [simp]:
  "nc (foldl (\<lambda>v u. setState u v) w us) = nc w"
  "kh (foldl (\<lambda>v u. setState u v) w us) = kh w"
  "indexBuilds (foldl (\<lambda>v u. setState u v) w us) = indexBuilds w"
  "copyMenu (foldl (\<lambda>v u. setState u v) w us) = copyMenu w"
  "timers (foldl (\<lambda>v u. setState u v) w us) = timers w"
  "timerCounter (foldl (\<lambda>v u. setState u v) w us) = timerCounter w"
  "deliveries (foldl (\<lambda>v u. setState u v) w us) = deliveries w"
  using setStates_shape [of w us] by auto

lemma setState_pending [simp]:
  "pendingUpdates (sm (setState u w)) = pendingUpdates (sm w) @ [u]"
  by (simp add: setState_def Let_def requestAnimationFrame_def)

lemma theState_setState [simp]: "theState (setState u w) = theState w"
  by (simp add: theState_def)

lemma theRequests_setState [simp]: "theRequests (setState u w) = theRequests w"
  by (simp add: theRequests_def theState_def)

lemma theTypes_setState [simp]: "theTypes (setState u w) = theTypes w"
  by (simp add: theTypes_def theState_def)

section \<open>What a read of the view leaves alone\<close>

lemma newArray_frame [simp]:
  "sm (snd (newArray xs w)) = sm w"
  "indexBuilds (snd (newArray xs w)) = indexBuilds w"
  "stateObjs (heap (snd (newArray xs w))) = stateObjs (heap w)"
  "requestObjs (heap (snd (newArray xs w))) = requestObjs (heap w)"
  "filterObjs (heap (snd (newArray xs w))) = filterObjs (heap w)"
  "setObjs (heap (snd (newArray xs w))) = setObjs (heap w)"
  "mapObjs (heap (snd (newArray xs w))) = mapObjs (heap w)"
  "arrayObjs (heap (snd (newArray xs w))) (fst (newArray xs w)) = xs"
  "theState (snd (newArray xs w)) = theState w"
  "theTypes (snd (newArray xs w)) = theTypes w"
  by (simp_all add: newArray_def theState_def theTypes_def)

lemma newView_frame [simp]:
  "sm (snd (newView xs w)) = sm w"
  "nc (snd (newView xs w)) = nc w"
  "kh (snd (newView xs w)) = kh w"
  "rafQueue (snd (newView xs w)) = rafQueue w"
  "rafCounter (snd (newView xs w)) = rafCounter w"
  "timers (snd (newView xs w)) = timers w"
  "timerCounter (snd (newView xs w)) = timerCounter w"
  "deliveries (snd (newView xs w)) = deliveries w"
  "copyMenu (snd (newView xs w)) = copyMenu w"
  "indexBuilds (snd (newView xs w)) = indexBuilds w"
  "stateObjs (heap (snd (newView xs w))) = stateObjs (heap w)"
  "requestObjs (heap (snd (newView xs w))) = requestObjs (heap w)"
  "filterObjs (heap (snd (newView xs w))) = filterObjs (heap w)"
  "setObjs (heap (snd (newView xs w))) = setObjs (heap w)"
  "mapObjs (heap (snd (newView xs w))) = mapObjs (heap w)"
  "arrayObjs (heap (snd (newView xs w))) (fst (newView xs w)) = xs"
  "theState (snd (newView xs w)) = theState w"
  "theTypes (snd (newView xs w)) = theTypes w"
  by (simp_all add: newView_def newArray_def theState_def theTypes_def)

lemma theRequests_newView [simp]: "theRequests (snd (newView xs w)) = theRequests w"
proof -
  have "requests (theState w) \<noteq> max (nextRef (heap w)) (Suc (requests (theState w)))"
    by arith
  then show ?thesis
    by (simp add: newView_def newArray_def theState_def theRequests_def)
qed

lemma newView_ref:
  "nextRef (heap w) \<le> fst (newView xs w)"
  "nextRef (heap (snd (newView xs w))) = Suc (fst (newView xs w))"
  "fst (newView xs w) \<noteq> requests (theState w)"
  "a \<noteq> fst (newView xs w) \<Longrightarrow> arrayObjs (heap (snd (newView xs w))) a = arrayObjs (heap w) a"
  by (simp_all add: newView_def newArray_def theState_def max_def)

lemma newView_counter:
  assumes "requests (theState w) < nextRef (heap w)"
  shows "newView xs w = newArray xs w"
proof -
  have "max (nextRef (heap w)) (Suc (requests (theState w))) = nextRef (heap w)"
    using assms by arith
  then show ?thesis by (simp add: newView_def)
qed

lemma newView_below [simp]:
  "a < nextRef (heap w) \<Longrightarrow> arrayObjs (heap (snd (newView xs w))) a = arrayObjs (heap w) a"
  using newView_ref(1) [of w xs] by (simp add: newView_ref(4))

lemma rebuildIndex_frame [simp]:
  "heap (rebuildIndex w) = heap w"
  "state (sm (rebuildIndex w)) = state (sm w)"
  "listeners (sm (rebuildIndex w)) = listeners (sm w)"
  "pendingUpdates (sm (rebuildIndex w)) = pendingUpdates (sm w)"
  "rafId (sm (rebuildIndex w)) = rafId (sm w)"
  "filteredRequestsCache (sm (rebuildIndex w)) = filteredRequestsCache (sm w)"
  "nc (rebuildIndex w) = nc w"
  "kh (rebuildIndex w) = kh w"
  "rafQueue (rebuildIndex w) = rafQueue w"
  "rafCounter (rebuildIndex w) = rafCounter w"
  "timers (rebuildIndex w) = timers w"
  "timerCounter (rebuildIndex w) = timerCounter w"
  "deliveries (rebuildIndex w) = deliveries w"
  "copyMenu (rebuildIndex w) = copyMenu w"
  "theState (rebuildIndex w) = theState w"
  "theRequests (rebuildIndex w) = theRequests w"
  "theTypes (rebuildIndex w) = theTypes w"
  by (simp_all add: rebuildIndex_def theState_def theRequests_def theTypes_def)

lemma rebuildIndex_builds:
  "indexBuilds (rebuildIndex w) =
     (if fuseIndex (sm w) = None \<or> lastFuseIndexLength (sm w) \<noteq> length (theRequests w)
      then Suc (indexBuilds w) else indexBuilds w)"
  by (simp add: rebuildIndex_def)

lemma baseResults_frame [simp]:
  "sm (snd (baseResults fz w)) = sm w"
  "nc (snd (baseResults fz w)) = nc w"
  "kh (snd (baseResults fz w)) = kh w"
  "rafQueue (snd (baseResults fz w)) = rafQueue w"
  "rafCounter (snd (baseResults fz w)) = rafCounter w"
  "timers (snd (baseResults fz w)) = timers w"
  "timerCounter (snd (baseResults fz w)) = timerCounter w"
  "deliveries (snd (baseResults fz w)) = deliveries w"
  "copyMenu (snd (baseResults fz w)) = copyMenu w"
  "indexBuilds (snd (baseResults fz w)) = indexBuilds w"
  "stateObjs (heap (snd (baseResults fz w))) = stateObjs (heap w)"
  "requestObjs (heap (snd (baseResults fz w))) = requestObjs (heap w)"
  "filterObjs (heap (snd (baseResults fz w))) = filterObjs (heap w)"
  "setObjs (heap (snd (baseResults fz w))) = setObjs (heap w)"
  "mapObjs (heap (snd (baseResults fz w))) = mapObjs (heap w)"
  "theState (snd (baseResults fz w)) = theState w"
  "theTypes (snd (baseResults fz w)) = theTypes w"
  "theRequests (snd (baseResults fz w)) = theRequests w"
  by (simp_all add: baseResults_def)

lemma baseResults_ref:
  "nextRef (heap w) \<le> nextRef (heap (snd (baseResults fz w)))"
  "a < nextRef (heap w) \<Longrightarrow> arrayObjs (heap (snd (baseResults fz w))) a = arrayObjs (heap w) a"
  using newView_ref(1) [of w] by (simp_all add: baseResults_def newView_ref(2) le_Suc_eq)

lemma typeFilter_frame [simp]:
  "sm (snd (typeFilter b w)) = sm w"
  "nc (snd (typeFilter b w)) = nc w"
  "kh (snd (typeFilter b w)) = kh w"
  "rafQueue (snd (typeFilter b w)) = rafQueue w"
  "rafCounter (snd (typeFilter b w)) = rafCounter w"
  "timers (snd (typeFilter b w)) = timers w"
  "timerCounter (snd (typeFilter b w)) = timerCounter w"
  "deliveries (snd (typeFilter b w)) = deliveries w"
  "copyMenu (snd (typeFilter b w)) = copyMenu w"
  "indexBuilds (snd (typeFilter b w)) = indexBuilds w"
  "stateObjs (heap (snd (typeFilter b w))) = stateObjs (heap w)"
  "requestObjs (heap (snd (typeFilter b w))) = requestObjs (heap w)"
  "filterObjs (heap (snd (typeFilter b w))) = filterObjs (heap w)"
  "setObjs (heap (snd (typeFilter b w))) = setObjs (heap w)"
  "mapObjs (heap (snd (typeFilter b w))) = mapObjs (heap w)"
  "theState (snd (typeFilter b w)) = theState w"
  "theTypes (snd (typeFilter b w)) = theTypes w"
  "theRequests (snd (typeFilter b w)) = theRequests w"
  by (simp_all add: typeFilter_def)

lemma typeFilter_ref:
  "nextRef (heap w) \<le> nextRef (heap (snd (typeFilter b w)))"
  "a < nextRef (heap w) \<Longrightarrow> arrayObjs (heap (snd (typeFilter b w))) a = arrayObjs (heap w) a"
  using newView_ref(1) [of w] by (simp_all add: typeFilter_def newView_ref(2) le_Suc_eq)

lemma sm_update_frame [simp]:
  "state s = state (sm w) \<Longrightarrow> theState (w\<lparr>sm := s\<rparr>) = theState w"
  "state s = state (sm w) \<Longrightarrow> theRequests (w\<lparr>sm := s\<rparr>) = theRequests w"
  "state s = state (sm w) \<Longrightarrow> theTypes (w\<lparr>sm := s\<rparr>) = theTypes w"
  by (simp_all add: theState_def theRequests_def theTypes_def)

lemma getFilteredRequests_hit:
  "cacheValid w \<Longrightarrow>
   getFilteredRequests fz w = (the (cachedRequests (filteredRequestsCache (sm w))), w)"
  by (simp add: getFilteredRequests_def)

lemma getFilteredRequests_miss:
  "\<not> cacheValid w \<Longrightarrow>
   getFilteredRequests fz w =
     (let w2 = snd (baseResults fz (rebuildIndex w));
          base = fst (baseResults fz (rebuildIndex w));
          w3 = snd (typeFilter base w2);
          filtered = fst (typeFilter base w2)
      in (filtered,
          w3\<lparr>sm := (sm (rebuildIndex w))\<lparr>filteredRequestsCache :=
               \<lparr>cachedRequests = Some filtered,
                lastRequestsLength = length (theRequests w),
                lastSearchQuery = searchQuery (theState w),
                lastMethodsSize = 0,
                lastTypesSize = card (theTypes w)\<rparr>\<rparr>\<rparr>))"
  by (simp add: getFilteredRequests_def Let_def case_prod_beta)

lemma getFilteredRequests_frame [simp]:
  "state (sm (snd (getFilteredRequests fz w))) = state (sm w)"
  "listeners (sm (snd (getFilteredRequests fz w))) = listeners (sm w)"
  "pendingUpdates (sm (snd (getFilteredRequests fz w))) = pendingUpdates (sm w)"
  "rafId (sm (snd (getFilteredRequests fz w))) = rafId (sm w)"
  "nc (snd (getFilteredRequests fz w)) = nc w"
  "kh (snd (getFilteredRequests fz w)) = kh w"
  "rafQueue (snd (getFilteredRequests fz w)) = rafQueue w"
  "rafCounter (snd (getFilteredRequests fz w)) = rafCounter w"
  "timers (snd (getFilteredRequests fz w)) = timers w"
  "timerCounter (snd (getFilteredRequests fz w)) = timerCounter w"
  "deliveries (snd (getFilteredRequests fz w)) = deliveries w"
  "copyMenu (snd (getFilteredRequests fz w)) = copyMenu w"
  "stateObjs (heap (snd (getFilteredRequests fz w))) = stateObjs (heap w)"
  "requestObjs (heap (snd (getFilteredRequests fz w))) = requestObjs (heap w)"
  "filterObjs (heap (snd (getFilteredRequests fz w))) = filterObjs (heap w)"
  "setObjs (heap (snd (getFilteredRequests fz w))) = setObjs (heap w)"
  "mapObjs (heap (snd (getFilteredRequests fz w))) = mapObjs (heap w)"
  by (cases "cacheValid w"; simp add: getFilteredRequests_hit getFilteredRequests_miss Let_def)+

lemma getFilteredRequests_the [simp]:
  "theState (snd (getFilteredRequests fz w)) = theState w"
  "theTypes (snd (getFilteredRequests fz w)) = theTypes w"
  "theRequests (snd (getFilteredRequests fz w)) = theRequests w"
  by (cases "cacheValid w"; simp add: getFilteredRequests_hit getFilteredRequests_miss Let_def)+

lemma getFilteredRequests_ref:
  "nextRef (heap w) \<le> nextRef (heap (snd (getFilteredRequests fz w)))"
  "a < nextRef (heap w) \<Longrightarrow>
   arrayObjs (heap (snd (getFilteredRequests fz w))) a = arrayObjs (heap w) a"
proof -
  let ?w2 = "snd (baseResults fz (rebuildIndex w))"
  let ?b = "fst (baseResults fz (rebuildIndex w))"
  have 1: "nextRef (heap w) \<le> nextRef (heap ?w2)"
    using baseResults_ref(1) [of "rebuildIndex w" fz] by simp
  have 2: "nextRef (heap ?w2) \<le> nextRef (heap (snd (typeFilter ?b ?w2)))"
    by (rule typeFilter_ref(1))
  show "nextRef (heap w) \<le> nextRef (heap (snd (getFilteredRequests fz w)))"
    using 1 2 by (cases "cacheValid w") (simp_all add: getFilteredRequests_hit getFilteredRequests_miss Let_def)
  assume a: "a < nextRef (heap w)"
  then have "arrayObjs (heap ?w2) a = arrayObjs (heap w) a"
    using baseResults_ref(2) [of a "rebuildIndex w" fz] by simp
  moreover have "arrayObjs (heap (snd (typeFilter ?b ?w2))) a = arrayObjs (heap ?w2) a"
    using a 1 by (intro typeFilter_ref(2)) simp
  ultimately show "arrayObjs (heap (snd (getFilteredRequests fz w))) a = arrayObjs (heap w) a"
    by (cases "cacheValid w") (simp_all add: getFilteredRequests_hit getFilteredRequests_miss Let_def)
qed

lemma getFilteredRequests_post:
  assumes "getFilteredRequests fz w = (a, w1)"
  shows "cacheValid w1 \<and> cachedRequests (filteredRequestsCache (sm w1)) = Some a"
proof (cases "cacheValid w")
  case True
  then show ?thesis using assms by (auto simp: getFilteredRequests_hit cacheValid_def)
next
  case False
  then show ?thesis using assms
    by (auto simp: getFilteredRequests_miss Let_def cacheValid_def)
qed

lemma getFilteredRequests_builds:
  "indexBuilds (snd (getFilteredRequests fz w)) =
     (if \<not> cacheValid w \<and>
         (fuseIndex (sm w) = None \<or> lastFuseIndexLength (sm w) \<noteq> length (theRequests w))
      then Suc (indexBuilds w) else indexBuilds w)"
proof (cases "cacheValid w")
  case True
  then show ?thesis by (simp add: getFilteredRequests_hit)
next
  case False
  then show ?thesis by (simp add: getFilteredRequests_miss Let_def rebuildIndex_builds)
qed

section \<open>What a notification leaves alone\<close>

lemma deliveries_update_frame [simp]:
  "theState (w\<lparr>deliveries := d\<rparr>) = theState w"
  "theRequests (w\<lparr>deliveries := d\<rparr>) = theRequests w"
  "theTypes (w\<lparr>deliveries := d\<rparr>) = theTypes w"
  by (simp_all add: theState_def theRequests_def theTypes_def)

lemma theState_setStates [simp]: "theState (foldl (\<lambda>v u. setState u v) w us) = theState w"
  by (simp add: theState_def)

lemma theRequests_setStates [simp]:
  "theRequests (foldl (\<lambda>v u. setState u v) w us) = theRequests w"
  by (simp add: theRequests_def theState_def)

lemma theTypes_setStates [simp]: "theTypes (foldl (\<lambda>v u. setState u v) w us) = theTypes w"
  by (simp add: theTypes_def theState_def)

lemma callListener_frame [simp]:
  "state (sm (callListener l w)) = state (sm w)"
  "listeners (sm (callListener l w)) = listeners (sm w)"
  "nc (callListener l w) = nc w"
  "kh (callListener l w) = kh w"
  "timers (callListener l w) = timers w"
  "timerCounter (callListener l w) = timerCounter w"
  "copyMenu (callListener l w) = copyMenu w"
  "stateObjs (heap (callListener l w)) = stateObjs (heap w)"
  "requestObjs (heap (callListener l w)) = requestObjs (heap w)"
  "filterObjs (heap (callListener l w)) = filterObjs (heap w)"
  "setObjs (heap (callListener l w)) = setObjs (heap w)"
  "mapObjs (heap (callListener l w)) = mapObjs (heap w)"
  "deliveries (callListener l w) = deliveries w @ [(lid l, state (sm w))]"
  by (simp_all add: callListener_def Let_def case_prod_beta)

lemma callListener_the [simp]:
  "theState (callListener l w) = theState w"
  "theTypes (callListener l w) = theTypes w"
  "theRequests (callListener l w) = theRequests w"
  by (simp_all add: callListener_def Let_def case_prod_beta)

lemma callListener_ref:
  "nextRef (heap w) \<le> nextRef (heap (callListener l w))"
  "a < nextRef (heap w) \<Longrightarrow> arrayObjs (heap (callListener l w)) a = arrayObjs (heap w) a"
  "indexBuilds w \<le> indexBuilds (callListener l w)"
  using getFilteredRequests_ref(1)
          [where w = "w\<lparr>deliveries := deliveries w @ [(lid l, state (sm w))]\<rparr>" and fz = "fuse l"]
        getFilteredRequests_ref(2)
          [where w = "w\<lparr>deliveries := deliveries w @ [(lid l, state (sm w))]\<rparr>" and fz = "fuse l"
             and a = a]
  by (simp_all add: callListener_def Let_def case_prod_beta getFilteredRequests_builds)

lemma callListener_mute:
  "\<not> readsView l (heap w) (state (sm w)) \<Longrightarrow>
   callListener l w =
     foldl (\<lambda>v u. setState u v) (w\<lparr>deliveries := deliveries w @ [(lid l, state (sm w))]\<rparr>)
       (onNotify l (heap w) (state (sm w)) None)"
  by (simp add: callListener_def)

lemma callListeners_frame [simp]:
  "state (sm (foldl (\<lambda>v l. callListener l v) w ls)) = state (sm w)"
  "listeners (sm (foldl (\<lambda>v l. callListener l v) w ls)) = listeners (sm w)"
  "nc (foldl (\<lambda>v l. callListener l v) w ls) = nc w"
  "kh (foldl (\<lambda>v l. callListener l v) w ls) = kh w"
  "timers (foldl (\<lambda>v l. callListener l v) w ls) = timers w"
  "timerCounter (foldl (\<lambda>v l. callListener l v) w ls) = timerCounter w"
  "copyMenu (foldl (\<lambda>v l. callListener l v) w ls) = copyMenu w"
  "stateObjs (heap (foldl (\<lambda>v l. callListener l v) w ls)) = stateObjs (heap w)"
  "requestObjs (heap (foldl (\<lambda>v l. callListener l v) w ls)) = requestObjs (heap w)"
  "filterObjs (heap (foldl (\<lambda>v l. callListener l v) w ls)) = filterObjs (heap w)"
  "setObjs (heap (foldl (\<lambda>v l. callListener l v) w ls)) = setObjs (heap w)"
  "mapObjs (heap (foldl (\<lambda>v l. callListener l v) w ls)) = mapObjs (heap w)"
  "theState (foldl (\<lambda>v l. callListener l v) w ls) = theState w"
  "theTypes (foldl (\<lambda>v l. callListener l v) w ls) = theTypes w"
  "theRequests (foldl (\<lambda>v l. callListener l v) w ls) = theRequests w"
  by (induction ls arbitrary: w; simp)+

lemma callListeners_deliveries:
  "deliveries (foldl (\<lambda>v l. callListener l v) w ls) =
     deliveries w @ map (\<lambda>l. (lid l, state (sm w))) ls"
  by (induction ls arbitrary: w) simp_all

lemma callListeners_ref:
  "nextRef (heap w) \<le> nextRef (heap (foldl (\<lambda>v l. callListener l v) w ls))"
  "a < nextRef (heap w) \<Longrightarrow>
   arrayObjs (heap (foldl (\<lambda>v l. callListener l v) w ls)) a = arrayObjs (heap w) a"
  "indexBuilds w \<le> indexBuilds (foldl (\<lambda>v l. callListener l v) w ls)"
proof (induction ls arbitrary: w)
  case Nil
  {
    case 1 show ?case by simp
  next
    case 2 show ?case by simp
  next
    case 3 show ?case by simp
  }
next
  case (Cons l ls)
  {
    case 1
    show ?case
      using Cons.IH(1) [of "callListener l w"] callListener_ref(1) [of w l] by simp
  next
    case 2
    then have "a < nextRef (heap (callListener l w))"
      using callListener_ref(1) [of w l] by simp
    from Cons.IH(2) [OF this] show ?case
      using 2 by (simp add: callListener_ref(2))
  next
    case 3
    show ?case
      using Cons.IH(3) [of "callListener l w"] callListener_ref(3) [of w l] by simp
  }
qed

lemma notifyListeners_frame [simp]:
  "state (sm (notifyListeners w)) = state (sm w)"
  "listeners (sm (notifyListeners w)) = listeners (sm w)"
  "nc (notifyListeners w) = nc w"
  "kh (notifyListeners w) = kh w"
  "timers (notifyListeners w) = timers w"
  "timerCounter (notifyListeners w) = timerCounter w"
  "copyMenu (notifyListeners w) = copyMenu w"
  "stateObjs (heap (notifyListeners w)) = stateObjs (heap w)"
  "requestObjs (heap (notifyListeners w)) = requestObjs (heap w)"
  "filterObjs (heap (notifyListeners w)) = filterObjs (heap w)"
  "setObjs (heap (notifyListeners w)) = setObjs (heap w)"
  "mapObjs (heap (notifyListeners w)) = mapObjs (heap w)"
  "theState (notifyListeners w) = theState w"
  "theTypes (notifyListeners w) = theTypes w"
  "theRequests (notifyListeners w) = theRequests w"
  by (simp_all add: notifyListeners_def)

lemma notifyListeners_deliveries [simp]:
  "deliveries (notifyListeners w) = deliveries w @ notification w"
  by (simp add: notifyListeners_def notification_def callListeners_deliveries)

lemma notifyListeners_ref:
  "nextRef (heap w) \<le> nextRef (heap (notifyListeners w))"
  "a < nextRef (heap w) \<Longrightarrow> arrayObjs (heap (notifyListeners w)) a = arrayObjs (heap w) a"
  "indexBuilds w \<le> indexBuilds (notifyListeners w)"
  by (simp_all add: notifyListeners_def callListeners_ref)

lemma addRequest_requests:
  "theRequests (addRequest r w) =
     drop (Suc (length (theRequests w)) - MAX_REQUESTS) (theRequests w @ [r])"
  by (simp add: addRequest_def Let_def)

lemma addRequest_selectedIndex:
  "selectedIndex (theState (addRequest r w)) =
     (if Suc (length (theRequests w)) > MAX_REQUESTS
      then max 0 (selectedIndex (theState w) - int (Suc (length (theRequests w)) - MAX_REQUESTS))
      else selectedIndex (theState w))"
  by (simp add: addRequest_def Let_def)

section \<open>Merging updates\<close>

lemma getField_assign_same: "fieldOf u = f \<Longrightarrow> getField f (assign u s) = u"
  by (cases u) auto

lemma getField_assign_other: "fieldOf u \<noteq> f \<Longrightarrow> getField f (assign u s) = getField f s"
  by (cases u; cases f) simp_all

lemma spread_snoc: "spread s (p @ [u]) = assign u (spread s p)"
  by (simp add: spread_def)

lemma spread_append: "spread s (p @ q) = spread (spread s p) q"
  by (simp add: spread_def)

lemma spread_Nil [simp]: "spread s [] = s"
  by (simp add: spread_def)

lemma spread_Cons [simp]: "spread s (u # p) = spread (assign u s) p"
  by (simp add: spread_def)

lemma property_snoc:
  "property f (p @ [u]) = (if fieldOf u = f then Some u else property f p)"
  by (simp add: property_def)

lemma property_None_iff: "property f p = None \<longleftrightarrow> \<not> defined f p"
  by (auto simp: property_def defined_def find_None_iff)

lemma getField_spread:
  "getField f (spread s p) = (case property f p of Some u \<Rightarrow> u | None \<Rightarrow> getField f s)"
proof (induction p rule: rev_induct)
  case Nil
  show ?case by (simp add: property_def)
next
  case (snoc u p)
  show ?case
  proof (cases "fieldOf u = f")
    case True
    then show ?thesis by (simp add: spread_snoc property_snoc getField_assign_same)
  next
    case False
    then show ?thesis using snoc by (simp add: spread_snoc property_snoc getField_assign_other)
  qed
qed

lemma getField_selectedIndex_update:
  "f \<noteq> FselectedIndex \<Longrightarrow> getField f (s\<lparr>selectedIndex := i\<rparr>) = getField f s"
  by (cases f) simp_all

lemma getField_flushed:
  "getField f (flushed s m) =
     (case property f m of
        Some u \<Rightarrow> u
      | None \<Rightarrow> if f = FselectedIndex \<and> defined FsearchQuery m
                 then SelectedIndex 0 else getField f s)"
proof -
  have sp: "getField f (spread s m) =
              (case property f m of Some u \<Rightarrow> u | None \<Rightarrow> getField f s)"
    by (rule getField_spread)
  show ?thesis
  proof (cases "f = FselectedIndex")
    case False
    then show ?thesis
      by (simp add: flushed_def sp getField_selectedIndex_update)
  next
    case True
    show ?thesis
    proof (cases "property f m")
      case None
      then have "\<not> defined FselectedIndex m" using True by (simp add: property_None_iff)
      then show ?thesis using None True sp by (simp add: flushed_def)
    next
      case (Some u)
      then have "defined FselectedIndex m"
        using True property_None_iff [of f m] by simp
      then show ?thesis using Some True sp by (simp add: flushed_def)
    qed
  qed
qed

section \<open>A batch of updates and its frame\<close>

lemma setState_scheduled:
  "\<not> falsyId (rafId (sm w)) \<Longrightarrow>
   setState u w = w\<lparr>sm := (sm w)\<lparr>pendingUpdates := pendingUpdates (sm w) @ [u]\<rparr>\<rparr>"
  by (simp add: setState_def Let_def)

lemma setState_idle:
  "falsyId (rafId (sm w)) \<Longrightarrow>
   setState u w =
     w\<lparr>sm := (sm w)\<lparr>pendingUpdates := pendingUpdates (sm w) @ [u],
                     rafId := Some (Suc (rafCounter w))\<rparr>,
       rafQueue := rafQueue w @ [StoreFlush], rafCounter := Suc (rafCounter w)\<rparr>"
  by (simp add: setState_def Let_def requestAnimationFrame_def)

lemma setStates_scheduled:
  "\<not> falsyId (rafId (sm w)) \<Longrightarrow>
   foldl (\<lambda>v u. setState u v) w us =
     w\<lparr>sm := (sm w)\<lparr>pendingUpdates := pendingUpdates (sm w) @ us\<rparr>\<rparr>"
proof (induction us arbitrary: w)
  case Nil
  show ?case by simp
next
  case (Cons u us)
  have "\<not> falsyId (rafId (sm (setState u w)))"
    using Cons.prems by (simp add: setState_scheduled)
  from Cons.IH [OF this] show ?case
    using Cons.prems by (simp add: setState_scheduled)
qed

lemma setStates_idle:
  assumes "falsyId (rafId (sm w))" and "us \<noteq> []"
  shows "foldl (\<lambda>v u. setState u v) w us =
     w\<lparr>sm := (sm w)\<lparr>pendingUpdates := pendingUpdates (sm w) @ us,
                     rafId := Some (Suc (rafCounter w))\<rparr>,
       rafQueue := rafQueue w @ [StoreFlush], rafCounter := Suc (rafCounter w)\<rparr>"
proof -
  obtain u vs where us: "us = u # vs" using assms(2) by (cases us) auto
  have "\<not> falsyId (rafId (sm (setState u w)))"
    using assms(1) by (simp add: setState_idle falsyId_def)
  from setStates_scheduled [OF this, of vs] show ?thesis
    using assms(1) by (simp add: us setState_idle)
qed

lemma runFrame_batch:
  assumes "falsyId (rafId (sm w))" and "pendingUpdates (sm w) = []" and "rafQueue w = []"
    and "us \<noteq> []"
  shows "runFrame (foldl (\<lambda>v u. setState u v) w us) =
     storeFlush (w\<lparr>sm := (sm w)\<lparr>pendingUpdates := us, rafId := Some (Suc (rafCounter w))\<rparr>,
                   rafCounter := Suc (rafCounter w), rafQueue := []\<rparr>)"
  using assms by (simp add: setStates_idle runFrame_def)

lemma invalidate_frame [simp]:
  "heap (invalidateFilterCache w) = heap w"
  "state (sm (invalidateFilterCache w)) = state (sm w)"
  "listeners (sm (invalidateFilterCache w)) = listeners (sm w)"
  "deliveries (invalidateFilterCache w) = deliveries w"
  "indexBuilds (invalidateFilterCache w) = indexBuilds w"
  "fuseIndex (sm (invalidateFilterCache w)) = None"
  "nc (invalidateFilterCache w) = nc w"
  by (simp_all add: invalidateFilterCache_def)

lemma theState_invalidate [simp]: "theState (invalidateFilterCache w) = theState w"
  by (simp add: theState_def)

lemma notification_invalidate [simp]: "notification (invalidateFilterCache w) = notification w"
  by (simp add: notification_def)

lemma modifyState_frame [simp]:
  "state (sm (modifyState f w)) = state (sm w)"
  "sm (modifyState f w) = sm w"
  "deliveries (modifyState f w) = deliveries w"
  "indexBuilds (modifyState f w) = indexBuilds w"
  "nc (modifyState f w) = nc w"
  "nextRef (heap (modifyState f w)) = nextRef (heap w)"
  "requestObjs (heap (modifyState f w)) = requestObjs (heap w)"
  "arrayObjs (heap (modifyState f w)) = arrayObjs (heap w)"
  by (simp_all add: modifyState_def)

lemma modifyRequests_frame [simp]:
  "sm (modifyRequests f w) = sm w"
  "deliveries (modifyRequests f w) = deliveries w"
  "indexBuilds (modifyRequests f w) = indexBuilds w"
  "nc (modifyRequests f w) = nc w"
  "nextRef (heap (modifyRequests f w)) = nextRef (heap w)"
  "requestObjs (heap (modifyRequests f w)) = requestObjs (heap w)"
  by (simp_all add: modifyRequests_def)

lemma notification_modifyState [simp]: "notification (modifyState f w) = notification w"
  by (simp add: notification_def)

lemma notification_modifyRequests [simp]: "notification (modifyRequests f w) = notification w"
  by (simp add: notification_def)

lemma applyBatch_frame [simp]:
  "listeners (sm (applyBatch w)) = listeners (sm w)"
  "pendingUpdates (sm (applyBatch w)) = pendingUpdates (sm w)"
  "rafId (sm (applyBatch w)) = rafId (sm w)"
  "lastFuseIndexLength (sm (applyBatch w)) = lastFuseIndexLength (sm w)"
  "state (sm (applyBatch w)) = nextRef (heap w)"
  "nextRef (heap (applyBatch w)) = Suc (nextRef (heap w))"
  "arrayObjs (heap (applyBatch w)) = arrayObjs (heap w)"
  "requestObjs (heap (applyBatch w)) = requestObjs (heap w)"
  "nc (applyBatch w) = nc w"
  "kh (applyBatch w) = kh w"
  "rafQueue (applyBatch w) = rafQueue w"
  "rafCounter (applyBatch w) = rafCounter w"
  "timers (applyBatch w) = timers w"
  "deliveries (applyBatch w) = deliveries w"
  "indexBuilds (applyBatch w) = indexBuilds w"
  "copyMenu (applyBatch w) = copyMenu w"
  by (simp_all add: applyBatch_def Let_def newState_def invalidateFilterCache_def modifyState_def)

lemma applyBatch_theState:
  "theState (applyBatch w) = flushed (theState w) (concat (pendingUpdates (sm w)))"
  by (simp add: applyBatch_def Let_def newState_def flushed_def theState_def modifyState_def
      invalidateFilterCache_def)

text \<open>
  What a batch does to the memo before the subscribers are notified: it is invalidated
  when the batch writes \<open>searchQuery\<close> or \<open>filters\<close>, whatever the values written.
\<close>

lemma applyBatch_fuseIndex:
  "fuseIndex (sm (applyBatch w)) =
     (if defined FsearchQuery (concat (pendingUpdates (sm w)))
         \<or> defined Ffilters (concat (pendingUpdates (sm w)))
      then None else fuseIndex (sm w))"
  by (simp add: applyBatch_def Let_def newState_def invalidateFilterCache_def modifyState_def)

lemma applyBatch_cache:
  "filteredRequestsCache (sm (applyBatch w)) =
     (if defined FsearchQuery (concat (pendingUpdates (sm w)))
         \<or> defined Ffilters (concat (pendingUpdates (sm w)))
      then (filteredRequestsCache (sm w))\<lparr>cachedRequests := None\<rparr>
      else filteredRequestsCache (sm w))"
  by (simp add: applyBatch_def Let_def newState_def invalidateFilterCache_def modifyState_def)

lemma storeFlush_theState:
  "theState (storeFlush w) = flushed (theState w) (concat (pendingUpdates (sm w)))"
  by (simp add: storeFlush_def Let_def applyBatch_theState)

lemma storeFlush_state: "state (sm (storeFlush w)) = nextRef (heap w)"
  by (simp add: storeFlush_def Let_def)

lemma storeFlush_deliveries:
  "deliveries (storeFlush w) =
     deliveries w @ map (\<lambda>l. (lid l, nextRef (heap w))) (listeners (sm w))"
  by (simp add: storeFlush_def Let_def notification_def)

lemma storeFlush_pending:
  "pendingUpdates (sm (storeFlush w)) = [] \<and> rafId (sm (storeFlush w)) = None"
  by (simp add: storeFlush_def Let_def)


section \<open>The operations that notify at once\<close>

lemma addRequest_frame [simp]:
  "nc (addRequest r w) = nc w"
  "requestObjs (heap (addRequest r w)) = requestObjs (heap w)"
  "state (sm (addRequest r w)) = state (sm w)"
  "listeners (sm (addRequest r w)) = listeners (sm w)"
  by (simp_all add: addRequest_def Let_def)

lemma addRequest_requestsRef [simp]: "requests (theState (addRequest r w)) = requests (theState w)"
  by (simp add: addRequest_def Let_def)

lemma addRequest_deliveries: "deliveries (addRequest r w) = deliveries w @ notification w"
  by (simp add: addRequest_def Let_def)

lemma clearRequests_frame [simp]:
  "nc (clearRequests w) = nc w"
  "requestObjs (heap (clearRequests w)) = requestObjs (heap w)"
  "state (sm (clearRequests w)) = state (sm w)"
  "listeners (sm (clearRequests w)) = listeners (sm w)"
  by (simp_all add: clearRequests_def newArray_def)

lemma clearRequests_notify:
  "clearRequests w =
     notifyListeners
       (w\<lparr>heap := (heap w)
            \<lparr>arrayObjs := (arrayObjs (heap w))(nextRef (heap w) := []),
             nextRef := Suc (nextRef (heap w)),
             stateObjs := (stateObjs (heap w))
               (state (sm w) := (theState w)\<lparr>requests := nextRef (heap w), selectedIndex := 0\<rparr>)\<rparr>\<rparr>)"
  by (simp add: clearRequests_def newArray_def modifyState_def theState_def)

lemma clearRequests_requests [simp]: "theRequests (clearRequests w) = []"
  by (simp add: clearRequests_notify) (simp add: theRequests_def theState_def)

lemma clearRequests_requestsRef [simp]: "requests (theState (clearRequests w)) = nextRef (heap w)"
  by (simp add: clearRequests_notify) (simp add: theState_def)

lemma clearRequests_selectedIndex [simp]: "selectedIndex (theState (clearRequests w)) = 0"
  by (simp add: clearRequests_notify) (simp add: theState_def)

lemma clearRequests_deliveries: "deliveries (clearRequests w) = deliveries w @ notification w"
  by (simp add: clearRequests_def newArray_def notification_def)

lemma deleteRequest_frame [simp]:
  "nc (deleteRequest i w) = nc w"
  "requestObjs (heap (deleteRequest i w)) = requestObjs (heap w)"
  "state (sm (deleteRequest i w)) = state (sm w)"
  "listeners (sm (deleteRequest i w)) = listeners (sm w)"
  by (simp_all add: deleteRequest_def Let_def)

lemma deleteRequest_requests [simp]: "theRequests (deleteRequest i w) = splice1 i (theRequests w)"
  by (simp add: deleteRequest_def Let_def)

lemma deleteRequest_deliveries: "deliveries (deleteRequest i w) = deliveries w @ notification w"
  by (simp add: deleteRequest_def Let_def)

lemma splice1_length: "length (splice1 i xs) \<le> length xs"
  by (simp add: splice1_def)

section \<open>The initiated event\<close>

lemma newRequest_frame [simp]:
  "theRequests (snd (newRequest q w)) = theRequests w"
  "theState (snd (newRequest q w)) = theState w"
  "nc (snd (newRequest q w)) = nc w"
  "deliveries (snd (newRequest q w)) = deliveries w"
  "listeners (sm (snd (newRequest q w))) = listeners (sm w)"
  "state (sm (snd (newRequest q w))) = state (sm w)"
  "requestObjs (heap (snd (newRequest q w))) = (requestObjs (heap w))(nextRef (heap w) := q)"
  by (simp_all add: newRequest_def theRequests_def theState_def)

lemma notification_newRequest [simp]: "notification (snd (newRequest q w)) = notification w"
  by (simp add: notification_def)

lemma nc_update_frame [simp]:
  "theState (w\<lparr>nc := n\<rparr>) = theState w"
  "theRequests (w\<lparr>nc := n\<rparr>) = theRequests w"
  "notification (w\<lparr>nc := n\<rparr>) = notification w"
  by (simp_all add: theRequests_def theState_def notification_def)

lemma clearCaches_frame [simp]:
  "theRequests (clearCaches w) = theRequests w"
  "theState (clearCaches w) = theState w"
  "notification (clearCaches w) = notification w"
  "deliveries (clearCaches w) = deliveries w"
  "heap (clearCaches w) = heap w"
  by (simp_all add: clearCaches_def)

lemma notification_clearRequests [simp]: "notification (clearRequests w) = notification w"
  by (simp add: notification_def)

lemma cleared_frame [simp]:
  "notification (cleared params w) = notification w"
  "deliveries (cleared params w) =
     deliveries w @ (if navigates params w then notification w else [])"
  "theRequests (cleared params w) = (if navigates params w then [] else theRequests w)"
  "requests (theState (cleared params w)) =
     (if navigates params w then nextRef (heap w) else requests (theState w))"
  "mainFrameId (nc (cleared params w)) =
     (if navigates params w then Some (frameId params) else mainFrameId (nc w))"
  "pendingRequests (nc (cleared params w)) =
     (if navigates params w then Map.empty else pendingRequests (nc w))"
  "responseBodyCache (nc (cleared params w)) =
     (if navigates params w then Map.empty else responseBodyCache (nc w))"
  "fetchingBodies (nc (cleared params w)) =
     (if navigates params w then {} else fetchingBodies (nc w))"
  by (simp_all add: cleared_def clearRequests_deliveries clearCaches_def)

lemma handleRequestWillBeSent_unfold:
  "handleRequestWillBeSent parseURL params w =
     (let w3 = addRequest (newRequestRef params w)
                 (snd (newRequest (freshRequest parseURL params) (cleared params w)))
      in w3\<lparr>nc := (nc w3)\<lparr>pendingRequests :=
              (pendingRequests (nc w3))(requestId params \<mapsto> newRequestRef params w)\<rparr>\<rparr>)"
  by (simp add: handleRequestWillBeSent_def navigates_def freshRequest_def newRequest_def Let_def
      cleared_def newRequestRef_def)

lemma initiated_requests:
  "theRequests (handleRequestWillBeSent parseURL params w) =
     (if navigates params w then [newRequestRef params w]
      else drop (Suc (length (theRequests w)) - MAX_REQUESTS)
             (theRequests w @ [newRequestRef params w]))"
  by (simp add: handleRequestWillBeSent_unfold Let_def addRequest_requests MAX_REQUESTS_def)

lemma initiated_deliveries:
  "deliveries (handleRequestWillBeSent parseURL params w) =
     deliveries w @ (if navigates params w then notification w else []) @ notification w"
  by (simp add: handleRequestWillBeSent_unfold Let_def addRequest_deliveries)

section \<open>The memoized view\<close>

lemma ResourceType_UNIV:
  "(UNIV :: ResourceType set) =
     {XHR, FETCH, DOC, CSS, JS, IMG, FONT, MEDIA, MANIFEST, SOCKET, WASM, OTHER}"
proof -
  have "t \<in> {XHR, FETCH, DOC, CSS, JS, IMG, FONT, MEDIA, MANIFEST, SOCKET, WASM, OTHER}"
    for t :: ResourceType
    by (cases t) simp_all
  then show ?thesis by blast
qed

lemma finite_types [simp]: "finite (S :: ResourceType set)"
proof -
  have "finite (UNIV :: ResourceType set)" by (simp add: ResourceType_UNIV)
  then show ?thesis by (rule rev_finite_subset) simp
qed

text \<open>
  When the view is computed and the index is new (or there is no query), the array
  returned holds what the specification's function gives for the current requests,
  query and types.
\<close>

lemma recomputed_view:
  assumes "\<not> cacheValid w"
    and "searchQuery (theState w) = [] \<or> fuseIndex (sm w) = None
         \<or> lastFuseIndexLength (sm w) \<noteq> length (theRequests w)"
  shows "arrayObjs (heap (snd (getFilteredRequests fz w))) (fst (getFilteredRequests fz w)) =
           expectedView fz w"
proof -
  have idx: "searchQuery (theState w) \<noteq> [] \<Longrightarrow>
             fuseIndex (sm (rebuildIndex w)) = Some (createFuseIndex w)"
    using assms(2) by (auto simp: rebuildIndex_def)
  show ?thesis
    using assms(1) idx
    by (auto simp: getFilteredRequests_miss Let_def expectedView_def filteredViewSpec_def
        baseResults_def typeFilter_def newView_ref createFuseIndex_def fuseSearch_def
        theRequests_def theTypes_def theState_def card_gt_0_iff)
qed

section \<open>Running the example pages\<close>

lemma page_eq:
  "page = initialWorld\<lparr>sm := (sm initialWorld)\<lparr>listeners := [tableView]\<rparr>\<rparr>"
  by (simp add: page_def subscribe_def initialWorld_def)

lemma initialState_fields [simp]:
  "mode initialState = NORMAL" "requests initialState = 0" "selectedIndex initialState = 0"
  "searchQuery initialState = []" "filters initialState = 2" "jsonExpanded initialState = 3"
  "previewTab initialState = TabHeaders" "inspectFocus initialState = HEADERS"
  "isInspectExpanded initialState = False"
  by (simp_all add: initialState_def)

lemma initiated_fields [simp]:
  "requestId (initiated i t f) = i" "ptype (initiated i t f) = t" "frameId (initiated i t f) = f"
  by (simp_all add: initiated_def)

lemma freshRequest_fields [simp]:
  "rid (freshRequest p e) = requestId e" "rtype (freshRequest p e) = mapResourceType (ptype e)"
  "status (freshRequest p e) = 0"
  by (simp_all add: freshRequest_def)

lemma tableView_fields [simp]:
  "lid tableView = 1" "readsView tableView h s = False" "onNotify tableView h s v = []"
  by (simp_all add: tableView_def)

lemma statusBar_fields [simp]:
  "lid statusBar = 3" "readsView statusBar h s = True" "onNotify statusBar h s v = []"
  "fuse statusBar = matchAll"
  by (simp_all add: statusBar_def)

lemmas run_defs =
  handleRequestWillBeSent_unfold navigates_def falsyStr_def falsyId_def
  clearRequests_def clearCaches_def newArray_def newRequest_def newState_def addRequest_def
  modifyRequests_def modifyState_def notifyListeners_def callListener_def setState_def
  requestAnimationFrame_def theState_def theRequests_def theTypes_def MAX_REQUESTS_def
  mapResourceType_def getFilteredRequests_def cacheValid_def rebuildIndex_def
  createFuseIndex_def baseResults_def typeFilter_def deleteRequest_def splice1_def
  spliceStart_def storeFlush_def applyBatch_def runFrame_def defined_def invalidateFilterCache_def
  handleCheckboxChange_def getState_def filterOptions_def typeOption_def asResourceType_def
  modifySet_def addOrDelete_def handleKeyDown_def handleNormalMode_def normalKey_def
  normalShift_def moveSelection_def press_def keyThenFrame_def matchAll_def
  handleInspectMode_def inspectOtherKey_def newView_def fuseSearch_def cleared_def
  newRequestRef_def
  initialWorld_def initialHeap_def page_eq subscribe_def

lemma scriptsOnly_eq:
  "scriptsOnly =
    \<lparr>heap =
       \<lparr>stateObjs =
          (\<lambda>_. initialState)
          (5 := initialState, 6 := initialState\<lparr>filters := 2\<rparr>),
          arrayObjs = \<lambda>_. [], requestObjs = \<lambda>_. emptyRequest,
          filterObjs = \<lambda>_. \<lparr>types = Suc 0, statusCodes = []\<rparr>,
          setObjs = (\<lambda>_. {})(Suc 0 := {JS}), mapObjs = \<lambda>_ x. None,
          nextRef = 7\<rparr>,
       sm = \<lparr>state = 6, listeners = [tableView], pendingUpdates = [],
               rafId = None,
               filteredRequestsCache =
                 \<lparr>cachedRequests = None, lastRequestsLength = 0,
                    lastSearchQuery = [], lastMethodsSize = 0,
                    lastTypesSize = 0\<rparr>,
               fuseIndex = None, lastFuseIndexLength = 0\<rparr>,
       nc = \<lparr>pendingRequests = \<lambda>x. None, responseBodyCache = \<lambda>x. None,
               fetchingBodies = {}, mainFrameId = None,
               pendingUIUpdates = {}, updateBatchRafId = None\<rparr>,
       kh = \<lparr>keySequence = [], sequenceTimeout = None\<rparr>, rafQueue = [],
       rafCounter = Suc 0, timers = [], timerCounter = 0,
       deliveries = [(Suc 0, 6)], indexBuilds = 0, copyMenu = True\<rparr>"
  by (simp add: scriptsOnly_def  run_defs Let_def)

lemma withA_eq:
  "withA =
    \<lparr>heap =
       \<lparr>stateObjs =
          (\<lambda>_. initialState)
          (5 := initialState, 6 := initialState\<lparr>filters := 2\<rparr>),
          arrayObjs = (\<lambda>_. [])(0 := [7]),
          requestObjs =
            (\<lambda>_. emptyRequest)
            (7 := freshRequest noURL (initiated ''a'' ''Script'' ''F'')),
          filterObjs = \<lambda>_. \<lparr>types = Suc 0, statusCodes = []\<rparr>,
          setObjs = (\<lambda>_. {})(Suc 0 := {JS}), mapObjs = \<lambda>_ x. None,
          nextRef = 8\<rparr>,
       sm = \<lparr>state = 6, listeners = [tableView], pendingUpdates = [],
               rafId = None,
               filteredRequestsCache =
                 \<lparr>cachedRequests = None, lastRequestsLength = 0,
                    lastSearchQuery = [], lastMethodsSize = 0,
                    lastTypesSize = 0\<rparr>,
               fuseIndex = None, lastFuseIndexLength = 0\<rparr>,
       nc = \<lparr>pendingRequests = [''a'' \<mapsto> 7], responseBodyCache = \<lambda>x. None,
               fetchingBodies = {}, mainFrameId = None,
               pendingUIUpdates = {}, updateBatchRafId = None\<rparr>,
       kh = \<lparr>keySequence = [], sequenceTimeout = None\<rparr>, rafQueue = [],
       rafCounter = Suc 0, timers = [], timerCounter = 0,
       deliveries = [(Suc 0, 6), (Suc 0, 6)], indexBuilds = 0,
       copyMenu = True\<rparr>"
  by (simp add: withA_def scriptsOnly_eq run_defs Let_def)

lemma viewedA_eq:
  "viewedA =
    \<lparr>heap =
       \<lparr>stateObjs =
          (\<lambda>_. initialState)
          (5 := initialState, 6 := initialState\<lparr>filters := 2\<rparr>),
          arrayObjs = (\<lambda>_. [])(0 := [7], 8 := [7]),
          requestObjs =
            (\<lambda>_. emptyRequest)
            (7 := freshRequest noURL (initiated ''a'' ''Script'' ''F'')),
          filterObjs = \<lambda>_. \<lparr>types = Suc 0, statusCodes = []\<rparr>,
          setObjs = (\<lambda>_. {})(Suc 0 := {JS}), mapObjs = \<lambda>_ x. None,
          nextRef = 9\<rparr>,
       sm = \<lparr>state = 6, listeners = [tableView], pendingUpdates = [],
               rafId = None,
               filteredRequestsCache =
                 \<lparr>cachedRequests = Some 8, lastRequestsLength = Suc 0,
                    lastSearchQuery = [], lastMethodsSize = 0,
                    lastTypesSize = Suc 0\<rparr>,
               fuseIndex =
                 Some
                  \<lparr>docs = 0,
                     texts =
                       [(url (freshRequest noURL
                               (initiated ''a'' ''Script'' ''F'')),
                         name
                          (freshRequest noURL
                            (initiated ''a'' ''Script'' ''F'')))]\<rparr>,
               lastFuseIndexLength = Suc 0\<rparr>,
       nc = \<lparr>pendingRequests = [''a'' \<mapsto> 7], responseBodyCache = \<lambda>x. None,
               fetchingBodies = {}, mainFrameId = None,
               pendingUIUpdates = {}, updateBatchRafId = None\<rparr>,
       kh = \<lparr>keySequence = [], sequenceTimeout = None\<rparr>, rafQueue = [],
       rafCounter = Suc 0, timers = [], timerCounter = 0,
       deliveries = [(Suc 0, 6), (Suc 0, 6)], indexBuilds = Suc 0,
       copyMenu = True\<rparr>"
  by (simp add: viewedA_def withA_eq run_defs Let_def)

lemma replaced_eq:
  "replaced =
    \<lparr>heap =
       \<lparr>stateObjs =
          (\<lambda>_. initialState)
          (5 := initialState,
             6 := initialState\<lparr>filters := 2, selectedIndex := 0\<rparr>),
          arrayObjs = (\<lambda>_. [])(8 := [7], 0 := [9]),
          requestObjs =
            (\<lambda>_. emptyRequest)
            (7 := freshRequest noURL (initiated ''a'' ''Script'' ''F''),
               9 := freshRequest noURL (initiated ''b'' ''Script'' ''F'')),
          filterObjs = \<lambda>_. \<lparr>types = Suc 0, statusCodes = []\<rparr>,
          setObjs = (\<lambda>_. {})(Suc 0 := {JS}), mapObjs = \<lambda>_ x. None,
          nextRef = 10\<rparr>,
       sm = \<lparr>state = 6, listeners = [tableView], pendingUpdates = [],
               rafId = None,
               filteredRequestsCache =
                 \<lparr>cachedRequests = Some 8, lastRequestsLength = Suc 0,
                    lastSearchQuery = [], lastMethodsSize = 0,
                    lastTypesSize = Suc 0\<rparr>,
               fuseIndex =
                 Some
                  \<lparr>docs = 0,
                     texts =
                       [(url (freshRequest noURL
                               (initiated ''a'' ''Script'' ''F'')),
                         name
                          (freshRequest noURL
                            (initiated ''a'' ''Script'' ''F'')))]\<rparr>,
               lastFuseIndexLength = Suc 0\<rparr>,
       nc = \<lparr>pendingRequests = [''a'' \<mapsto> 7, ''b'' \<mapsto> 9],
               responseBodyCache = \<lambda>x. None, fetchingBodies = {},
               mainFrameId = None, pendingUIUpdates = {},
               updateBatchRafId = None\<rparr>,
       kh = \<lparr>keySequence = [], sequenceTimeout = None\<rparr>, rafQueue = [],
       rafCounter = Suc 0, timers = [], timerCounter = 0,
       deliveries = [(Suc 0, 6), (Suc 0, 6), (Suc 0, 6), (Suc 0, 6)],
       indexBuilds = Suc 0, copyMenu = True\<rparr>"
  by (simp add: replaced_def viewedA_eq run_defs Let_def)

lemma movedA_eq:
  "movedA =
    \<lparr>heap =
       \<lparr>stateObjs =
          (\<lambda>_. initialState)
          (5 := initialState, 6 := initialState\<lparr>filters := 2\<rparr>,
             9 := initialState\<lparr>filters := 2, selectedIndex := 0\<rparr>),
          arrayObjs = (\<lambda>_. [])(0 := [7], 8 := [7]),
          requestObjs =
            (\<lambda>_. emptyRequest)
            (7 := freshRequest noURL (initiated ''a'' ''Script'' ''F'')),
          filterObjs = \<lambda>_. \<lparr>types = Suc 0, statusCodes = []\<rparr>,
          setObjs = (\<lambda>_. {})(Suc 0 := {JS}), mapObjs = \<lambda>_ x. None,
          nextRef = 10\<rparr>,
       sm = \<lparr>state = 9, listeners = [tableView], pendingUpdates = [],
               rafId = None,
               filteredRequestsCache =
                 \<lparr>cachedRequests = Some 8, lastRequestsLength = Suc 0,
                    lastSearchQuery = [], lastMethodsSize = 0,
                    lastTypesSize = Suc 0\<rparr>,
               fuseIndex =
                 Some
                  \<lparr>docs = 0,
                     texts =
                       [(url (freshRequest noURL
                               (initiated ''a'' ''Script'' ''F'')),
                         name
                          (freshRequest noURL
                            (initiated ''a'' ''Script'' ''F'')))]\<rparr>,
               lastFuseIndexLength = Suc 0\<rparr>,
       nc = \<lparr>pendingRequests = [''a'' \<mapsto> 7], responseBodyCache = \<lambda>x. None,
               fetchingBodies = {}, mainFrameId = None,
               pendingUIUpdates = {}, updateBatchRafId = None\<rparr>,
       kh = \<lparr>keySequence = [], sequenceTimeout = None\<rparr>, rafQueue = [],
       rafCounter = Suc (Suc 0), timers = [], timerCounter = 0,
       deliveries = [(Suc 0, 6), (Suc 0, 6), (Suc 0, 9)],
       indexBuilds = Suc 0, copyMenu = True\<rparr>"
  by (simp add: movedA_def viewedA_eq run_defs Let_def)

lemma slashed_eq:
  "slashed =
    \<lparr>heap =
       \<lparr>stateObjs =
          (\<lambda>_. initialState)
          (5 := initialState, 6 := initialState\<lparr>filters := 2\<rparr>,
             9 := initialState
               \<lparr>filters := 2, mode := SEARCH, searchQuery := [],
                  selectedIndex := 0\<rparr>),
          arrayObjs = (\<lambda>_. [])(0 := [7], 8 := [7]),
          requestObjs =
            (\<lambda>_. emptyRequest)
            (7 := freshRequest noURL (initiated ''a'' ''Script'' ''F'')),
          filterObjs = \<lambda>_. \<lparr>types = Suc 0, statusCodes = []\<rparr>,
          setObjs = (\<lambda>_. {})(Suc 0 := {JS}), mapObjs = \<lambda>_ x. None,
          nextRef = 10\<rparr>,
       sm = \<lparr>state = 9, listeners = [tableView], pendingUpdates = [],
               rafId = None,
               filteredRequestsCache =
                 \<lparr>cachedRequests = None, lastRequestsLength = Suc 0,
                    lastSearchQuery = [], lastMethodsSize = 0,
                    lastTypesSize = Suc 0\<rparr>,
               fuseIndex = None, lastFuseIndexLength = Suc 0\<rparr>,
       nc = \<lparr>pendingRequests = [''a'' \<mapsto> 7], responseBodyCache = \<lambda>x. None,
               fetchingBodies = {}, mainFrameId = None,
               pendingUIUpdates = {}, updateBatchRafId = None\<rparr>,
       kh = \<lparr>keySequence = [], sequenceTimeout = None\<rparr>, rafQueue = [],
       rafCounter = Suc (Suc 0), timers = [], timerCounter = 0,
       deliveries = [(Suc 0, 6), (Suc 0, 6), (Suc 0, 9)],
       indexBuilds = Suc 0, copyMenu = True\<rparr>"
  by (simp add: slashed_def viewedA_eq run_defs Let_def)

lemma oneRequest_eq:
  "oneRequest =
    \<lparr>heap =
       \<lparr>stateObjs = \<lambda>_. initialState, arrayObjs = (\<lambda>_. [])(0 := [5]),
          requestObjs =
            (\<lambda>_. emptyRequest)
            (5 := freshRequest noURL (initiated ''a'' ''Script'' ''F'')),
          filterObjs = \<lambda>_. \<lparr>types = Suc 0, statusCodes = []\<rparr>,
          setObjs = \<lambda>_. {}, mapObjs = \<lambda>_ x. None, nextRef = 6\<rparr>,
       sm = \<lparr>state = 4, listeners = [tableView], pendingUpdates = [],
               rafId = None,
               filteredRequestsCache =
                 \<lparr>cachedRequests = Some 0, lastRequestsLength = Suc 0,
                    lastSearchQuery = [], lastMethodsSize = 0,
                    lastTypesSize = 0\<rparr>,
               fuseIndex =
                 Some
                  \<lparr>docs = 0,
                     texts =
                       [(url (freshRequest noURL
                               (initiated ''a'' ''Script'' ''F'')),
                         name
                          (freshRequest noURL
                            (initiated ''a'' ''Script'' ''F'')))]\<rparr>,
               lastFuseIndexLength = Suc 0\<rparr>,
       nc = \<lparr>pendingRequests = [''a'' \<mapsto> 5], responseBodyCache = \<lambda>x. None,
               fetchingBodies = {}, mainFrameId = None,
               pendingUIUpdates = {}, updateBatchRafId = None\<rparr>,
       kh = \<lparr>keySequence = [], sequenceTimeout = None\<rparr>, rafQueue = [],
       rafCounter = 0, timers = [], timerCounter = 0,
       deliveries = [(Suc 0, 4)], indexBuilds = Suc 0, copyMenu = True\<rparr>"
  by (simp add: oneRequest_def  run_defs Let_def)

lemma typed_eq:
  "typed =
    \<lparr>heap =
       \<lparr>stateObjs =
          (\<lambda>_. initialState)
          (6 := initialState\<lparr>searchQuery := ''ab'', selectedIndex := 0\<rparr>),
          arrayObjs = (\<lambda>_. [])(0 := [5]),
          requestObjs =
            (\<lambda>_. emptyRequest)
            (5 := freshRequest noURL (initiated ''a'' ''Script'' ''F'')),
          filterObjs = \<lambda>_. \<lparr>types = Suc 0, statusCodes = []\<rparr>,
          setObjs = \<lambda>_. {}, mapObjs = \<lambda>_ x. None, nextRef = 7\<rparr>,
       sm = \<lparr>state = 6, listeners = [tableView], pendingUpdates = [],
               rafId = None,
               filteredRequestsCache =
                 \<lparr>cachedRequests = None, lastRequestsLength = Suc 0,
                    lastSearchQuery = [], lastMethodsSize = 0,
                    lastTypesSize = 0\<rparr>,
               fuseIndex = None, lastFuseIndexLength = Suc 0\<rparr>,
       nc = \<lparr>pendingRequests = [''a'' \<mapsto> 5], responseBodyCache = \<lambda>x. None,
               fetchingBodies = {}, mainFrameId = None,
               pendingUIUpdates = {}, updateBatchRafId = None\<rparr>,
       kh = \<lparr>keySequence = [], sequenceTimeout = None\<rparr>, rafQueue = [],
       rafCounter = Suc 0, timers = [], timerCounter = 0,
       deliveries = [(Suc 0, 4), (Suc 0, 6)], indexBuilds = Suc 0,
       copyMenu = True\<rparr>"
  by (simp add: typed_def oneRequest_eq run_defs Let_def)

lemma twoRequests_eq:
  "twoRequests =
    \<lparr>heap =
       \<lparr>stateObjs = \<lambda>_. initialState, arrayObjs = (\<lambda>_. [])(0 := [5, 6]),
          requestObjs =
            (\<lambda>_. emptyRequest)
            (5 := freshRequest noURL (initiated ''a'' ''Script'' ''F''),
               6 := freshRequest noURL (initiated ''b'' ''Image'' ''F'')),
          filterObjs = \<lambda>_. \<lparr>types = Suc 0, statusCodes = []\<rparr>,
          setObjs = \<lambda>_. {}, mapObjs = \<lambda>_ x. None, nextRef = 7\<rparr>,
       sm = \<lparr>state = 4, listeners = [tableView], pendingUpdates = [],
               rafId = None,
               filteredRequestsCache =
                 \<lparr>cachedRequests = None, lastRequestsLength = 0,
                    lastSearchQuery = [], lastMethodsSize = 0,
                    lastTypesSize = 0\<rparr>,
               fuseIndex = None, lastFuseIndexLength = 0\<rparr>,
       nc = \<lparr>pendingRequests = [''a'' \<mapsto> 5, ''b'' \<mapsto> 6],
               responseBodyCache = \<lambda>x. None, fetchingBodies = {},
               mainFrameId = None, pendingUIUpdates = {},
               updateBatchRafId = None\<rparr>,
       kh = \<lparr>keySequence = [], sequenceTimeout = None\<rparr>, rafQueue = [],
       rafCounter = 0, timers = [], timerCounter = 0,
       deliveries = [(Suc 0, 4), (Suc 0, 4)], indexBuilds = 0,
       copyMenu = True\<rparr>"
  by (simp add: twoRequests_def  run_defs Let_def)

lemma secondSelected_eq:
  "secondSelected =
    \<lparr>heap =
       \<lparr>stateObjs =
          (\<lambda>_. initialState)(7 := initialState\<lparr>selectedIndex := 1\<rparr>),
          arrayObjs = (\<lambda>_. [])(0 := [5, 6]),
          requestObjs =
            (\<lambda>_. emptyRequest)
            (5 := freshRequest noURL (initiated ''a'' ''Script'' ''F''),
               6 := freshRequest noURL (initiated ''b'' ''Image'' ''F'')),
          filterObjs = \<lambda>_. \<lparr>types = Suc 0, statusCodes = []\<rparr>,
          setObjs = \<lambda>_. {}, mapObjs = \<lambda>_ x. None, nextRef = 8\<rparr>,
       sm = \<lparr>state = 7, listeners = [tableView], pendingUpdates = [],
               rafId = None,
               filteredRequestsCache =
                 \<lparr>cachedRequests = Some 0, lastRequestsLength = Suc (Suc 0),
                    lastSearchQuery = [], lastMethodsSize = 0,
                    lastTypesSize = 0\<rparr>,
               fuseIndex =
                 Some
                  \<lparr>docs = 0,
                     texts =
                       [(url (freshRequest noURL
                               (initiated ''a'' ''Script'' ''F'')),
                         name
                          (freshRequest noURL
                            (initiated ''a'' ''Script'' ''F''))),
                        (url (freshRequest noURL
                               (initiated ''b'' ''Image'' ''F'')),
                         name
                          (freshRequest noURL
                            (initiated ''b'' ''Image'' ''F'')))]\<rparr>,
               lastFuseIndexLength = Suc (Suc 0)\<rparr>,
       nc = \<lparr>pendingRequests = [''a'' \<mapsto> 5, ''b'' \<mapsto> 6],
               responseBodyCache = \<lambda>x. None, fetchingBodies = {},
               mainFrameId = None, pendingUIUpdates = {},
               updateBatchRafId = None\<rparr>,
       kh = \<lparr>keySequence = [], sequenceTimeout = None\<rparr>, rafQueue = [],
       rafCounter = Suc 0, timers = [], timerCounter = 0,
       deliveries = [(Suc 0, 4), (Suc 0, 4), (Suc 0, 7)],
       indexBuilds = Suc 0, copyMenu = True\<rparr>"
  by (simp add: secondSelected_def twoRequests_eq run_defs Let_def)

lemma thenFiltered_eq:
  "thenFiltered =
    \<lparr>heap =
       \<lparr>stateObjs =
          (\<lambda>_. initialState)
          (7 := initialState\<lparr>selectedIndex := 1\<rparr>,
             8 := initialState\<lparr>selectedIndex := 1\<rparr>,
             9 := initialState\<lparr>selectedIndex := 1, filters := 2\<rparr>),
          arrayObjs = (\<lambda>_. [])(0 := [5, 6]),
          requestObjs =
            (\<lambda>_. emptyRequest)
            (5 := freshRequest noURL (initiated ''a'' ''Script'' ''F''),
               6 := freshRequest noURL (initiated ''b'' ''Image'' ''F'')),
          filterObjs = \<lambda>_. \<lparr>types = Suc 0, statusCodes = []\<rparr>,
          setObjs = (\<lambda>_. {})(Suc 0 := {JS}), mapObjs = \<lambda>_ x. None,
          nextRef = 10\<rparr>,
       sm = \<lparr>state = 9, listeners = [tableView], pendingUpdates = [],
               rafId = None,
               filteredRequestsCache =
                 \<lparr>cachedRequests = None, lastRequestsLength = Suc (Suc 0),
                    lastSearchQuery = [], lastMethodsSize = 0,
                    lastTypesSize = 0\<rparr>,
               fuseIndex = None, lastFuseIndexLength = Suc (Suc 0)\<rparr>,
       nc = \<lparr>pendingRequests = [''a'' \<mapsto> 5, ''b'' \<mapsto> 6],
               responseBodyCache = \<lambda>x. None, fetchingBodies = {},
               mainFrameId = None, pendingUIUpdates = {},
               updateBatchRafId = None\<rparr>,
       kh = \<lparr>keySequence = [], sequenceTimeout = None\<rparr>, rafQueue = [],
       rafCounter = Suc (Suc 0), timers = [], timerCounter = 0,
       deliveries = [(Suc 0, 4), (Suc 0, 4), (Suc 0, 7), (Suc 0, 9)],
       indexBuilds = Suc 0, copyMenu = True\<rparr>"
  by (simp add: thenFiltered_def secondSelected_eq run_defs Let_def)

lemma inspecting_eq:
  "inspecting =
    \<lparr>heap =
       \<lparr>stateObjs =
          (\<lambda>_. initialState)
          (7 := initialState
             \<lparr>mode := INSPECT, inspectFocus := focusMap TabHeaders\<rparr>),
          arrayObjs = (\<lambda>_. [])(0 := [5, 6]),
          requestObjs =
            (\<lambda>_. emptyRequest)
            (5 := freshRequest noURL (initiated ''a'' ''Script'' ''F''),
               6 := freshRequest noURL (initiated ''b'' ''Image'' ''F'')),
          filterObjs = \<lambda>_. \<lparr>types = Suc 0, statusCodes = []\<rparr>,
          setObjs = \<lambda>_. {}, mapObjs = \<lambda>_ x. None, nextRef = 8\<rparr>,
       sm = \<lparr>state = 7, listeners = [tableView], pendingUpdates = [],
               rafId = None,
               filteredRequestsCache =
                 \<lparr>cachedRequests = Some 0, lastRequestsLength = Suc (Suc 0),
                    lastSearchQuery = [], lastMethodsSize = 0,
                    lastTypesSize = 0\<rparr>,
               fuseIndex =
                 Some
                  \<lparr>docs = 0,
                     texts =
                       [(url (freshRequest noURL
                               (initiated ''a'' ''Script'' ''F'')),
                         name
                          (freshRequest noURL
                            (initiated ''a'' ''Script'' ''F''))),
                        (url (freshRequest noURL
                               (initiated ''b'' ''Image'' ''F'')),
                         name
                          (freshRequest noURL
                            (initiated ''b'' ''Image'' ''F'')))]\<rparr>,
               lastFuseIndexLength = Suc (Suc 0)\<rparr>,
       nc = \<lparr>pendingRequests = [''a'' \<mapsto> 5, ''b'' \<mapsto> 6],
               responseBodyCache = \<lambda>x. None, fetchingBodies = {},
               mainFrameId = None, pendingUIUpdates = {},
               updateBatchRafId = None\<rparr>,
       kh = \<lparr>keySequence = [], sequenceTimeout = None\<rparr>, rafQueue = [],
       rafCounter = Suc 0, timers = [], timerCounter = 0,
       deliveries = [(Suc 0, 4), (Suc 0, 4), (Suc 0, 7)],
       indexBuilds = Suc 0, copyMenu = True\<rparr>"
  by (simp add: inspecting_def twoRequests_eq run_defs Let_def)

lemma zoomed_eq:
  "zoomed =
    \<lparr>heap =
       \<lparr>stateObjs =
          (\<lambda>_. initialState)
          (7 := initialState
             \<lparr>mode := INSPECT, inspectFocus := focusMap TabHeaders\<rparr>,
             8 := initialState
               \<lparr>mode := INSPECT, inspectFocus := focusMap TabHeaders,
                  isInspectExpanded := True\<rparr>),
          arrayObjs = (\<lambda>_. [])(0 := [5, 6]),
          requestObjs =
            (\<lambda>_. emptyRequest)
            (5 := freshRequest noURL (initiated ''a'' ''Script'' ''F''),
               6 := freshRequest noURL (initiated ''b'' ''Image'' ''F'')),
          filterObjs = \<lambda>_. \<lparr>types = Suc 0, statusCodes = []\<rparr>,
          setObjs = \<lambda>_. {}, mapObjs = \<lambda>_ x. None, nextRef = 9\<rparr>,
       sm = \<lparr>state = 8, listeners = [tableView], pendingUpdates = [],
               rafId = None,
               filteredRequestsCache =
                 \<lparr>cachedRequests = Some 0, lastRequestsLength = Suc (Suc 0),
                    lastSearchQuery = [], lastMethodsSize = 0,
                    lastTypesSize = 0\<rparr>,
               fuseIndex =
                 Some
                  \<lparr>docs = 0,
                     texts =
                       [(url (freshRequest noURL
                               (initiated ''a'' ''Script'' ''F'')),
                         name
                          (freshRequest noURL
                            (initiated ''a'' ''Script'' ''F''))),
                        (url (freshRequest noURL
                               (initiated ''b'' ''Image'' ''F'')),
                         name
                          (freshRequest noURL
                            (initiated ''b'' ''Image'' ''F'')))]\<rparr>,
               lastFuseIndexLength = Suc (Suc 0)\<rparr>,
       nc = \<lparr>pendingRequests = [''a'' \<mapsto> 5, ''b'' \<mapsto> 6],
               responseBodyCache = \<lambda>x. None, fetchingBodies = {},
               mainFrameId = None, pendingUIUpdates = {},
               updateBatchRafId = None\<rparr>,
       kh = \<lparr>keySequence = [], sequenceTimeout = None\<rparr>, rafQueue = [],
       rafCounter = Suc (Suc 0), timers = [], timerCounter = 0,
       deliveries = [(Suc 0, 4), (Suc 0, 4), (Suc 0, 7), (Suc 0, 8)],
       indexBuilds = Suc 0, copyMenu = True\<rparr>"
  by (simp add: zoomed_def inspecting_eq run_defs Let_def)

lemma watched_eq:
  "watched =
    \<lparr>heap =
       \<lparr>stateObjs = \<lambda>_. initialState, arrayObjs = (\<lambda>_. [])(0 := [5]),
          requestObjs =
            (\<lambda>_. emptyRequest)
            (5 := freshRequest noURL (initiated ''a'' ''Script'' ''F'')),
          filterObjs = \<lambda>_. \<lparr>types = Suc 0, statusCodes = []\<rparr>,
          setObjs = \<lambda>_. {}, mapObjs = \<lambda>_ x. None, nextRef = 6\<rparr>,
       sm = \<lparr>state = 4, listeners = [tableView, statusBar],
               pendingUpdates = [], rafId = None,
               filteredRequestsCache =
                 \<lparr>cachedRequests = Some 0, lastRequestsLength = Suc 0,
                    lastSearchQuery = [], lastMethodsSize = 0,
                    lastTypesSize = 0\<rparr>,
               fuseIndex =
                 Some
                  \<lparr>docs = 0,
                     texts =
                       [(url (freshRequest noURL
                               (initiated ''a'' ''Script'' ''F'')),
                         name
                          (freshRequest noURL
                            (initiated ''a'' ''Script'' ''F'')))]\<rparr>,
               lastFuseIndexLength = Suc 0\<rparr>,
       nc = \<lparr>pendingRequests = [''a'' \<mapsto> 5], responseBodyCache = \<lambda>x. None,
               fetchingBodies = {}, mainFrameId = None,
               pendingUIUpdates = {}, updateBatchRafId = None\<rparr>,
       kh = \<lparr>keySequence = [], sequenceTimeout = None\<rparr>, rafQueue = [],
       rafCounter = 0, timers = [], timerCounter = 0,
       deliveries = [(Suc 0, 4), (3, 4)], indexBuilds = Suc 0,
       copyMenu = True\<rparr>"
  by (simp add: watched_def  run_defs Let_def)

lemma watchedTyped_eq:
  "watchedTyped =
    \<lparr>heap =
       \<lparr>stateObjs =
          (\<lambda>_. initialState)
          (6 := initialState\<lparr>searchQuery := ''ab'', selectedIndex := 0\<rparr>),
          arrayObjs = (\<lambda>_. [])(0 := [5], 7 := [5]),
          requestObjs =
            (\<lambda>_. emptyRequest)
            (5 := freshRequest noURL (initiated ''a'' ''Script'' ''F'')),
          filterObjs = \<lambda>_. \<lparr>types = Suc 0, statusCodes = []\<rparr>,
          setObjs = \<lambda>_. {}, mapObjs = \<lambda>_ x. None, nextRef = 8\<rparr>,
       sm = \<lparr>state = 6, listeners = [tableView, statusBar],
               pendingUpdates = [], rafId = None,
               filteredRequestsCache =
                 \<lparr>cachedRequests = Some 7, lastRequestsLength = Suc 0,
                    lastSearchQuery = ''ab'', lastMethodsSize = 0,
                    lastTypesSize = 0\<rparr>,
               fuseIndex =
                 Some
                  \<lparr>docs = 0,
                     texts =
                       [(url (freshRequest noURL
                               (initiated ''a'' ''Script'' ''F'')),
                         name
                          (freshRequest noURL
                            (initiated ''a'' ''Script'' ''F'')))]\<rparr>,
               lastFuseIndexLength = Suc 0\<rparr>,
       nc = \<lparr>pendingRequests = [''a'' \<mapsto> 5], responseBodyCache = \<lambda>x. None,
               fetchingBodies = {}, mainFrameId = None,
               pendingUIUpdates = {}, updateBatchRafId = None\<rparr>,
       kh = \<lparr>keySequence = [], sequenceTimeout = None\<rparr>, rafQueue = [],
       rafCounter = Suc 0, timers = [], timerCounter = 0,
       deliveries = [(Suc 0, 4), (3, 4), (Suc 0, 6), (3, 6)],
       indexBuilds = Suc (Suc 0), copyMenu = True\<rparr>"
  by (simp add: watchedTyped_def watched_eq run_defs Let_def)

section \<open>The cap on stored requests\<close>

text \<open>
  C1.  After \<open>addRequest\<close>, from any state whatever, at most 1000 requests are stored.
  The stored requests are the old ones followed by the new one, without the first
  \<open>n + 1 - 1000\<close> of them when that is positive (\<open>n\<close> the old count): what is removed is
  what was inserted first.  \<open>selectedIndex\<close> then goes down by the number removed, and
  to 0 where that would be negative; without a removal it stays.
\<close>

theorem addRequest_cap_fifo:
  "length (theRequests (addRequest r w)) \<le> 1000
   \<and> theRequests (addRequest r w) =
       drop (Suc (length (theRequests w)) - 1000) (theRequests w @ [r])
   \<and> selectedIndex (theState (addRequest r w)) =
       (if Suc (length (theRequests w)) > 1000
        then max 0 (selectedIndex (theState w) - int (Suc (length (theRequests w)) - 1000))
        else selectedIndex (theState w))"
  using addRequest_requests [of r w] addRequest_selectedIndex [of r w]
  by (simp add: MAX_REQUESTS_def)

section \<open>The bound on every reachable page\<close>

text \<open>
  \<open>addRequest\<close> is not the only writer of \<open>requests\<close>: \<open>deleteRequest\<close> and
  \<open>clearRequests\<close> shorten the array, and the capture stores a copy of the array of a
  snapshot with \<open>setState\<close> on a later frame.  The invariant \<open>bounded\<close> is kept by
  every event of the page, so the bound of C1 holds after every sequence of events.
\<close>

lemma okUpdate_mono:
  "okUpdate h u \<Longrightarrow> (\<And>a. okArr h a \<Longrightarrow> okArr h' a) \<Longrightarrow> okUpdate h' u"
  by (cases u) auto

lemma okCallback_mono:
  "okCallback w cb \<Longrightarrow> (\<And>s. okSnap w s \<Longrightarrow> okSnap w' s) \<Longrightarrow> okCallback w' cb"
  by (cases cb) auto

lemma okUpdate_no_requests: "Frequests \<noteq> fieldOf u \<Longrightarrow> okUpdate h u"
  by (cases u) auto

lemma okPartial_no_requests: "\<not> defined Frequests p \<Longrightarrow> list_all (okUpdate h) p"
  by (auto simp: defined_def list_all_iff image_iff intro!: okUpdate_no_requests)

text \<open>
  The invariant carries over from \<open>w\<close> to \<open>w'\<close> when the good arrays and snapshots of
  \<open>w\<close> are good in \<open>w'\<close>, the state of \<open>w'\<close> is good, and what waits in \<open>w'\<close> waited
  in \<open>w\<close> or is good.
\<close>

lemma bounded_transfer:
  assumes "bounded w"
    and arr: "\<And>a. okArr (heap w) a \<Longrightarrow> okArr (heap w') a"
    and snap: "\<And>s. okSnap w s \<Longrightarrow> okSnap w' s"
    and st: "state (sm w') < nextRef (heap w')"
    and cur: "okArr (heap w') (requests (theState w'))"
    and ls: "listeners (sm w') = listeners (sm w)"
    and pend: "\<And>p. p \<in> set (pendingUpdates (sm w')) \<Longrightarrow>
                 p \<in> set (pendingUpdates (sm w)) \<or> list_all (okUpdate (heap w')) p"
    and queue: "\<And>cb. cb \<in> set (rafQueue w') \<Longrightarrow> cb \<in> set (rafQueue w) \<or> okCallback w' cb"
  shows "bounded w'"
proof -
  have "list_all (okUpdate (heap w')) p" if "p \<in> set (pendingUpdates (sm w'))" for p
  proof -
    from pend [OF that] show ?thesis
    proof
      assume "p \<in> set (pendingUpdates (sm w))"
      then have "list_all (okUpdate (heap w)) p"
        using assms(1) by (simp add: bounded_def list_all_iff)
      then show ?thesis
        by (auto simp: list_all_iff intro: okUpdate_mono arr)
    qed simp
  qed
  moreover have "okCallback w' cb" if "cb \<in> set (rafQueue w')" for cb
  proof -
    from queue [OF that] show ?thesis
    proof
      assume "cb \<in> set (rafQueue w)"
      then have "okCallback w cb" using assms(1) by (simp add: bounded_def list_all_iff)
      then show ?thesis by (rule okCallback_mono) (rule snap)
    qed simp
  qed
  ultimately show ?thesis
    using assms(1) st cur ls by (simp add: bounded_def list_all_iff)
qed

lemma setState_rafQueue:
  "rafQueue (setState p w) = rafQueue w \<or> rafQueue (setState p w) = rafQueue w @ [StoreFlush]"
  by (simp add: setState_def Let_def requestAnimationFrame_def)

lemma okSnap_same_heap:
  "heap w' = heap w \<Longrightarrow> state (sm w') = state (sm w) \<Longrightarrow> okSnap w' s = okSnap w s"
  by (simp add: okSnap_def)

lemma bounded_setState:
  assumes "bounded w" and "list_all (okUpdate (heap w)) p"
  shows "bounded (setState p w)"
proof (rule bounded_transfer [OF assms(1)])
  fix cb assume "cb \<in> set (rafQueue (setState p w))"
  then show "cb \<in> set (rafQueue w) \<or> okCallback (setState p w) cb"
    using setState_rafQueue [of p w] by auto
next
  fix q assume "q \<in> set (pendingUpdates (sm (setState p w)))"
  then show "q \<in> set (pendingUpdates (sm w)) \<or> list_all (okUpdate (heap (setState p w))) q"
    using assms(2) by auto
next
  fix s assume "okSnap w s"
  then show "okSnap (setState p w) s" by (simp add: okSnap_def)
qed (use assms(1) in \<open>simp_all add: bounded_def\<close>)

lemma bounded_setStates:
  assumes "bounded w" and "list_all (list_all (okUpdate (heap w))) ps"
  shows "bounded (foldl (\<lambda>v u. setState u v) w ps)"
  using assms
proof (induction ps arbitrary: w)
  case Nil
  then show ?case by simp
next
  case (Cons p ps)
  have "bounded (setState p w)" using Cons.prems by (simp add: bounded_setState)
  moreover have "list_all (list_all (okUpdate (heap (setState p w)))) ps"
    using Cons.prems by simp
  ultimately show ?case using Cons.IH by simp
qed

lemma okCallback_deliveries [simp]: "okCallback (w\<lparr>deliveries := d\<rparr>) = okCallback w"
proof
  fix cb show "okCallback (w\<lparr>deliveries := d\<rparr>) cb = okCallback w cb"
    by (cases cb) (simp_all add: okSnap_def)
qed

lemma bounded_deliveries [simp]: "bounded (w\<lparr>deliveries := d\<rparr>) = bounded w"
  by (simp add: bounded_def theState_def)

text \<open>
  A read of the view only makes new arrays and rewrites the memo: what was good stays
  good.
\<close>

lemma bounded_grow:
  assumes "bounded w"
    and "state (sm w') = state (sm w)" and "listeners (sm w') = listeners (sm w)"
    and "pendingUpdates (sm w') = pendingUpdates (sm w)" and "rafQueue w' = rafQueue w"
    and "stateObjs (heap w') = stateObjs (heap w)"
    and nr: "nextRef (heap w) \<le> nextRef (heap w')"
    and arr: "\<And>a. a < nextRef (heap w) \<Longrightarrow> arrayObjs (heap w') a = arrayObjs (heap w) a"
  shows "bounded w'"
proof (rule bounded_transfer [OF assms(1)])
  show a: "okArr (heap w') a" if "okArr (heap w) a" for a
    using that nr arr [of a] by (simp add: okArr_def)
  show "okSnap w' s" if "okSnap w s" for s
    using that a [of "requests (stateObjs (heap w) s)"] nr assms(2,6) by (simp add: okSnap_def)
  show "state (sm w') < nextRef (heap w')"
    using assms(1,2) nr by (simp add: bounded_def)
  show "okArr (heap w') (requests (theState w'))"
    using assms(1,2,6) a [of "requests (theState w)"] by (simp add: bounded_def theState_def)
qed (simp_all add: assms)

lemma bounded_getFilteredRequests:
  assumes "bounded w"
  shows "bounded (snd (getFilteredRequests fz w))"
  by (rule bounded_grow [OF assms]) (simp_all add: getFilteredRequests_ref)

lemma bounded_callListener:
  assumes "bounded w" and "quiet l"
  shows "bounded (callListener l w)"
proof -
  let ?w0 = "w\<lparr>deliveries := deliveries w @ [(lid l, state (sm w))]\<rparr>"
  let ?r = "if readsView l (heap w) (state (sm w))
            then (case getFilteredRequests (fuse l) ?w0 of (a, v) \<Rightarrow> (Some a, v))
            else (None, ?w0)"
  have b: "bounded (snd ?r)"
    using assms(1) by (simp add: case_prod_beta bounded_getFilteredRequests)
  have "\<not> defined Frequests (concat (onNotify l (heap (snd ?r)) (state (sm w)) (fst ?r)))"
    using assms(2) by (simp add: quiet_def)
  then have "list_all (list_all (okUpdate (heap (snd ?r))))
               (onNotify l (heap (snd ?r)) (state (sm w)) (fst ?r))"
    by (auto simp: list_all_iff defined_def image_iff intro!: okUpdate_no_requests)
  with b have "bounded (foldl (\<lambda>v u. setState u v) (snd ?r)
                          (onNotify l (heap (snd ?r)) (state (sm w)) (fst ?r)))"
    by (rule bounded_setStates)
  then show ?thesis by (simp only: callListener_def Let_def)
qed

lemma bounded_callListeners:
  assumes "bounded w" and "list_all quiet ls"
  shows "bounded (foldl (\<lambda>v l. callListener l v) w ls)"
  using assms
proof (induction ls arbitrary: w)
  case Nil
  then show ?case by simp
next
  case (Cons l ls)
  then show ?case by (simp add: bounded_callListener)
qed

lemma bounded_notifyListeners:
  assumes "bounded w"
  shows "bounded (notifyListeners w)"
proof -
  have "list_all quiet (listeners (sm w))" using assms by (simp add: bounded_def)
  from bounded_callListeners [OF assms this] show ?thesis
    by (simp add: notifyListeners_def)
qed

lemma okCallback_cong:
  assumes "heap w' = heap w" and "state (sm w') = state (sm w)"
  shows "okCallback w' cb = okCallback w cb"
  using assms by (cases cb) (simp_all add: okSnap_def)

lemma bounded_cong:
  assumes "heap w' = heap w" and "state (sm w') = state (sm w)"
    and "listeners (sm w') = listeners (sm w)"
    and "pendingUpdates (sm w') = pendingUpdates (sm w)"
    and "rafQueue w' = rafQueue w"
  shows "bounded w' = bounded w"
proof -
  have "list_all (okCallback w') (rafQueue w) = list_all (okCallback w) (rafQueue w)"
    using okCallback_cong [OF assms(1,2)] by (simp add: list_all_iff)
  then show ?thesis using assms by (simp add: bounded_def theState_def)
qed

text \<open>
  A change of the heap keeps the invariant when it allocates or does nothing to the
  references in use, leaves good arrays good, leaves the state objects other than the
  Store's alone, and leaves the Store's state pointing to a good array.
\<close>

lemma bounded_heap:
  assumes "bounded w"
    and nr: "nextRef (heap w) \<le> nextRef h'"
    and arr: "\<And>a. okArr (heap w) a \<Longrightarrow> length (arrayObjs h' a) \<le> MAX_REQUESTS"
    and sts: "\<And>s. s < nextRef (heap w) \<Longrightarrow> s \<noteq> state (sm w) \<Longrightarrow>
                stateObjs h' s = stateObjs (heap w) s"
    and cur: "okArr h' (requests (stateObjs h' (state (sm w))))"
  shows "bounded (w\<lparr>heap := h'\<rparr>)"
proof (rule bounded_transfer [OF assms(1)])
  show a: "okArr (heap (w\<lparr>heap := h'\<rparr>)) a" if "okArr (heap w) a" for a
    using that arr [OF that] nr by (simp add: okArr_def)
  show "okSnap (w\<lparr>heap := h'\<rparr>) s" if "okSnap w s" for s
  proof -
    have "stateObjs h' s = stateObjs (heap w) s"
      using that by (intro sts) (simp_all add: okSnap_def)
    moreover have "okArr h' (requests (stateObjs (heap w) s))"
      using a [of "requests (stateObjs (heap w) s)"] that by (simp add: okSnap_def)
    ultimately show ?thesis using that nr by (simp add: okSnap_def)
  qed
  show "state (sm (w\<lparr>heap := h'\<rparr>)) < nextRef (heap (w\<lparr>heap := h'\<rparr>))"
    using assms(1) nr by (simp add: bounded_def)
  show "okArr (heap (w\<lparr>heap := h'\<rparr>)) (requests (theState (w\<lparr>heap := h'\<rparr>)))"
    using cur by (simp add: theState_def)
qed simp_all

lemma addRequest_notify:
  "addRequest r w =
     notifyListeners
       (w\<lparr>heap := (heap w)
          \<lparr>arrayObjs := (arrayObjs (heap w))
             (requests (theState w) :=
                drop (Suc (length (theRequests w)) - MAX_REQUESTS) (theRequests w @ [r])),
           stateObjs := (stateObjs (heap w))
             (state (sm w) :=
                (if Suc (length (theRequests w)) > MAX_REQUESTS
                 then (theState w)\<lparr>selectedIndex :=
                        max 0 (selectedIndex (theState w)
                               - int (Suc (length (theRequests w)) - MAX_REQUESTS))\<rparr>
                 else theState w))\<rparr>\<rparr>)"
  by (simp add: addRequest_def Let_def modifyRequests_def modifyState_def theRequests_def
      theState_def max_def)

lemma bounded_addRequest:
  assumes "bounded w"
  shows "bounded (addRequest r w)"
proof -
  have "state (sm w) < nextRef (heap w)" and "requests (theState w) < nextRef (heap w)"
    using assms by (simp_all add: bounded_def okArr_def)
  then show ?thesis
    unfolding addRequest_notify
    by (intro bounded_notifyListeners bounded_heap [OF assms])
       (auto simp: okArr_def theState_def theRequests_def)
qed

lemma deleteRequest_notify:
  "deleteRequest i w =
     notifyListeners
       (w\<lparr>heap := (heap w)
          \<lparr>arrayObjs := (arrayObjs (heap w))(requests (theState w) := splice1 i (theRequests w)),
           stateObjs := (stateObjs (heap w))
             (state (sm w) :=
                (if selectedIndex (theState w) \<ge> int (length (splice1 i (theRequests w)))
                 then (theState w)\<lparr>selectedIndex :=
                        max 0 (int (length (splice1 i (theRequests w))) - 1)\<rparr>
                 else theState w))\<rparr>\<rparr>)"
  by (simp add: deleteRequest_def Let_def modifyRequests_def modifyState_def theRequests_def
      theState_def)

lemma bounded_deleteRequest:
  assumes "bounded w"
  shows "bounded (deleteRequest i w)"
proof -
  have "state (sm w) < nextRef (heap w)" and "okArr (heap w) (requests (theState w))"
    using assms by (simp_all add: bounded_def)
  moreover have "length (splice1 i (theRequests w)) \<le> length (theRequests w)"
    by (rule splice1_length)
  ultimately show ?thesis
    unfolding deleteRequest_notify
    by (intro bounded_notifyListeners bounded_heap [OF assms])
       (auto simp: okArr_def theState_def theRequests_def)
qed

lemma bounded_clearRequests:
  assumes "bounded w"
  shows "bounded (clearRequests w)"
  unfolding clearRequests_notify
  by (intro bounded_notifyListeners bounded_heap [OF assms])
     (auto simp: okArr_def)

lemma newRequest_world:
  "snd (newRequest q w) =
     w\<lparr>heap := (heap w)\<lparr>requestObjs := (requestObjs (heap w))(nextRef (heap w) := q),
                         nextRef := Suc (nextRef (heap w))\<rparr>\<rparr>"
  by (simp add: newRequest_def)

lemma bounded_newRequest:
  assumes "bounded w"
  shows "bounded (snd (newRequest q w))"
proof -
  have "okArr (heap w) (requests (theState w))" using assms by (simp add: bounded_def)
  then show ?thesis
    unfolding newRequest_world
    by (intro bounded_heap [OF assms]) (auto simp: okArr_def theState_def)
qed

lemma bounded_nc [simp]: "bounded (w\<lparr>nc := n\<rparr>) = bounded w"
  by (rule bounded_cong) simp_all

lemma bounded_kh [simp]: "bounded (w\<lparr>kh := k\<rparr>) = bounded w"
  by (rule bounded_cong) simp_all

lemma bounded_timers [simp]:
  "bounded (w\<lparr>timers := t\<rparr>) = bounded w"
  "bounded (w\<lparr>timerCounter := c\<rparr>) = bounded w"
  "bounded (w\<lparr>indexBuilds := b\<rparr>) = bounded w"
  by (rule bounded_cong; simp)+

lemma bounded_initiated:
  assumes "bounded w"
  shows "bounded (handleRequestWillBeSent parseURL params w)"
proof -
  have "bounded (cleared params w)"
    using assms by (simp add: cleared_def bounded_clearRequests clearCaches_def)
  then have "bounded (addRequest (newRequestRef params w)
               (snd (newRequest (freshRequest parseURL params) (cleared params w))))"
    by (intro bounded_addRequest bounded_newRequest)
  then show ?thesis
    by (simp add: handleRequestWillBeSent_unfold Let_def)
qed

lemma getState_world:
  "getState w =
     (nextRef (heap w),
      w\<lparr>heap := (heap w)\<lparr>stateObjs := (stateObjs (heap w))(nextRef (heap w) := theState w),
                          nextRef := Suc (nextRef (heap w))\<rparr>\<rparr>)"
  by (simp add: getState_def newState_def)

lemma bounded_getState:
  assumes "bounded w"
  shows "bounded (snd (getState w))" and "okSnap (snd (getState w)) (fst (getState w))"
proof -
  have s: "state (sm w) < nextRef (heap w)" and a: "okArr (heap w) (requests (theState w))"
    using assms by (simp_all add: bounded_def)
  show "bounded (snd (getState w))"
    unfolding getState_world snd_conv
    using s a by (intro bounded_heap [OF assms]) (auto simp: okArr_def theState_def)
  show "okSnap (snd (getState w)) (fst (getState w))"
    using s a by (auto simp: getState_world okSnap_def okArr_def)
qed

lemma snapshot_requests:
  "state (sm w) < nextRef (heap w) \<Longrightarrow>
   arrayObjs (heap (snd (getState w)))
     (requests (stateObjs (heap (snd (getState w))) (fst (getState w)))) = theRequests w"
  by (simp add: getState_world theRequests_def)

lemma bounded_modifyRequest:
  assumes "bounded w"
  shows "bounded (modifyRequest r f w)"
proof -
  have "okArr (heap w) (requests (theState w))" using assms by (simp add: bounded_def)
  then show ?thesis
    unfolding modifyRequest_def
    by (intro bounded_heap [OF assms]) (auto simp: okArr_def theState_def)
qed

lemma okSnap_modifyRequest [simp]: "okSnap (modifyRequest r f w) s = okSnap w s"
  by (simp add: okSnap_def okArr_def modifyRequest_def)

lemma bounded_modifySet:
  assumes "bounded w"
  shows "bounded (modifySet r f w)"
proof -
  have "okArr (heap w) (requests (theState w))" using assms by (simp add: bounded_def)
  then show ?thesis
    unfolding modifySet_def
    by (intro bounded_heap [OF assms]) (auto simp: okArr_def theState_def)
qed

lemma bounded_modifySets:
  "bounded w \<Longrightarrow> bounded (foldl (\<lambda>x t. modifySet r (g t) x) w ts)"
  by (induction ts arbitrary: w) (simp_all add: bounded_modifySet)

lemma bounded_headers:
  assumes "bounded w"
  shows "bounded (handleResponseReceived params w)"
proof -
  obtain s w1 where g: "getState w = (s, w1)" by (cases "getState w")
  have "bounded w1" using bounded_getState(1) [OF assms] g by simp
  then show ?thesis
    using g by (cases "findRequest s (rrRequestId params) w1")
               (simp_all add: handleResponseReceived_def bounded_modifyRequest)
qed

lemma bounded_enqueue:
  assumes "bounded w" and "okCallback w cb"
  shows "bounded (w\<lparr>rafQueue := rafQueue w @ [cb], rafCounter := c\<rparr>)"
proof (rule bounded_transfer [OF assms(1)])
  fix x assume "x \<in> set (rafQueue (w\<lparr>rafQueue := rafQueue w @ [cb], rafCounter := c\<rparr>))"
  then show "x \<in> set (rafQueue w) \<or>
             okCallback (w\<lparr>rafQueue := rafQueue w @ [cb], rafCounter := c\<rparr>) x"
    using assms(2) okCallback_cong [of "w\<lparr>rafQueue := rafQueue w @ [cb], rafCounter := c\<rparr>" w cb]
    by auto
qed (use assms(1) in \<open>simp_all add: bounded_def okSnap_def theState_def\<close>)

lemma bounded_finished:
  assumes "bounded w"
  shows "bounded (handleLoadingFinished params w)"
proof -
  obtain s w1 where g: "getState w = (s, w1)" by (cases "getState w")
  have b1: "bounded w1" and s1: "okSnap w1 s"
    using bounded_getState [OF assms] g by simp_all
  show ?thesis
  proof (cases "findRequest s (lfRequestId params) w1")
    case None
    then show ?thesis using g b1 by (simp add: handleLoadingFinished_def)
  next
    case (Some r)
    let ?v = "modifyRequest r
                (\<lambda>q. q\<lparr>rsize := encodedDataLength params,
                       duration := lfTimestamp params * 1000 - timestamp q\<rparr>) w1"
    have bv: "bounded ?v" using b1 by (rule bounded_modifyRequest)
    have sv: "okCallback ?v (CaptureFlush s)" using s1 by simp
    show ?thesis
    proof (cases "falsyId (updateBatchRafId (nc w1))")
      case True
      have "bounded (handleLoadingFinished params w) =
            bounded (?v\<lparr>rafQueue := rafQueue ?v @ [CaptureFlush s],
                        rafCounter := Suc (rafCounter ?v)\<rparr>)"
        using g Some True
        by (intro bounded_cong)
           (simp_all add: handleLoadingFinished_def Let_def requestAnimationFrame_def
              modifyRequest_def)
      then show ?thesis using bounded_enqueue [OF bv sv] by simp
    next
      case False
      have "bounded (handleLoadingFinished params w) = bounded ?v"
        using g Some False
        by (intro bounded_cong)
           (simp_all add: handleLoadingFinished_def Let_def modifyRequest_def)
      then show ?thesis using bv by simp
    qed
  qed
qed

lemma newArray_world:
  "newArray xs w =
     (nextRef (heap w),
      w\<lparr>heap := (heap w)\<lparr>arrayObjs := (arrayObjs (heap w))(nextRef (heap w) := xs),
                          nextRef := Suc (nextRef (heap w))\<rparr>\<rparr>)"
  by (simp add: newArray_def)

lemma bounded_newArray:
  assumes "bounded w"
  shows "bounded (snd (newArray xs w))"
proof -
  have "state (sm w) < nextRef (heap w)" and "okArr (heap w) (requests (theState w))"
    using assms by (simp_all add: bounded_def)
  then show ?thesis
    unfolding newArray_world snd_conv
    by (intro bounded_heap [OF assms]) (auto simp: okArr_def theState_def)
qed

lemma okSnap_newArray: "okSnap w s \<Longrightarrow> okSnap (snd (newArray xs w)) s"
  by (auto simp: okSnap_def okArr_def newArray_world)

text \<open>Storing a copy of the array of a good snapshot.\<close>

lemma bounded_copy:
  assumes "bounded w" and "okSnap w s"
  shows "bounded (setState [Requests (fst (newArray
                     (arrayObjs (heap w) (requests (stateObjs (heap w) s))) w))]
                   (snd (newArray (arrayObjs (heap w) (requests (stateObjs (heap w) s))) w)))"
proof (rule bounded_setState)
  show "bounded (snd (newArray (arrayObjs (heap w) (requests (stateObjs (heap w) s))) w))"
    using assms(1) by (rule bounded_newArray)
  show "list_all
          (okUpdate (heap (snd (newArray
             (arrayObjs (heap w) (requests (stateObjs (heap w) s))) w))))
          [Requests (fst (newArray (arrayObjs (heap w) (requests (stateObjs (heap w) s))) w))]"
    using assms(2) by (simp add: newArray_world okSnap_def okArr_def)
qed

lemma bounded_captureFlush:
  assumes "bounded w" and "okSnap w s"
  shows "bounded (captureFlush s w)"
proof -
  have "bounded (captureFlush s w) =
        bounded (setState [Requests (fst (newArray
                     (arrayObjs (heap w) (requests (stateObjs (heap w) s))) w))]
                   (snd (newArray (arrayObjs (heap w) (requests (stateObjs (heap w) s))) w)))"
    by (intro bounded_cong) (simp_all add: captureFlush_def Let_def case_prod_beta)
  then show ?thesis using bounded_copy [OF assms] by simp
qed

lemma bounded_failed:
  assumes "bounded w"
  shows "bounded (handleLoadingFailed params w)"
proof -
  obtain s w1 where g: "getState w = (s, w1)" by (cases "getState w")
  have b1: "bounded w1" and s1: "okSnap w1 s"
    using bounded_getState [OF assms] g by simp_all
  show ?thesis
  proof (cases "findRequest s (lxRequestId params) w1")
    case None
    then show ?thesis using g b1 by (simp add: handleLoadingFailed_def)
  next
    case (Some r)
    let ?v = "modifyRequest r
                (\<lambda>q. q\<lparr>statusText := errorText params,
                       duration := lxTimestamp params * 1000 - timestamp q\<rparr>) w1"
    have hv: "arrayObjs (heap ?v) = arrayObjs (heap w1)" "stateObjs (heap ?v) = stateObjs (heap w1)"
      by (simp_all add: modifyRequest_def)
    have "bounded ?v" and "okSnap ?v s"
      using b1 s1 by (simp_all add: bounded_modifyRequest)
    from bounded_copy [OF this]
    have c: "bounded (setState [Requests (fst (newArray
                     (arrayObjs (heap w1) (requests (stateObjs (heap w1) s))) ?v))]
                   (snd (newArray (arrayObjs (heap w1) (requests (stateObjs (heap w1) s))) ?v)))"
      by (simp only: hv)
    have "bounded (handleLoadingFailed params w) =
          bounded (setState [Requests (fst (newArray
                     (arrayObjs (heap w1) (requests (stateObjs (heap w1) s))) ?v))]
                   (snd (newArray (arrayObjs (heap w1) (requests (stateObjs (heap w1) s))) ?v)))"
      using g Some
      by (intro bounded_cong) (simp_all add: handleLoadingFailed_def Let_def case_prod_beta)
    then show ?thesis using c by simp
  qed
qed

lemma okArr_assign:
  "okArr h (requests s) \<Longrightarrow> okUpdate h u \<Longrightarrow> okArr h (requests (assign u s))"
  by (cases u) simp_all

lemma okArr_spread:
  "okArr h (requests s) \<Longrightarrow> list_all (okUpdate h) m \<Longrightarrow> okArr h (requests (spread s m))"
  by (induction m arbitrary: s) (simp_all add: okArr_assign)

lemma okSnap_storeFlush:
  assumes "state (sm w) < nextRef (heap w)" and "okSnap w s"
  shows "okSnap (storeFlush w) s"
proof -
  let ?v = "applyBatch w"
  have s: "s < nextRef (heap w)" "s \<noteq> state (sm w)"
    and a: "requests (stateObjs (heap w) s) < nextRef (heap w)"
      "length (arrayObjs (heap w) (requests (stateObjs (heap w) s))) \<le> MAX_REQUESTS"
    using assms(2) by (simp_all add: okSnap_def okArr_def)
  have so: "stateObjs (heap ?v) s = stateObjs (heap w) s"
    using s by (simp add: applyBatch_def Let_def newState_def invalidateFilterCache_def
        modifyState_def)
  have n: "nextRef (heap ?v) \<le> nextRef (heap (notifyListeners ?v))"
    by (rule notifyListeners_ref(1))
  have "arrayObjs (heap (notifyListeners ?v)) (requests (stateObjs (heap w) s)) =
          arrayObjs (heap w) (requests (stateObjs (heap w) s))"
    using a(1) by (simp add: notifyListeners_ref(2))
  then show ?thesis
    using s a so n by (simp add: okSnap_def okArr_def storeFlush_def Let_def)
qed

lemma captureFlush_heap:
  "heap (captureFlush t w) =
     (heap w)\<lparr>arrayObjs := (arrayObjs (heap w))
                 (nextRef (heap w) := arrayObjs (heap w) (requests (stateObjs (heap w) t))),
              nextRef := Suc (nextRef (heap w))\<rparr>"
  "state (sm (captureFlush t w)) = state (sm w)"
  by (simp_all add: captureFlush_def Let_def newArray_def)

lemma okSnap_captureFlush:
  assumes "okSnap w s"
  shows "okSnap (captureFlush t w) s"
  using assms by (auto simp: okSnap_def okArr_def captureFlush_heap)

lemma bounded_done:
  assumes "bounded w"
  shows "bounded (w\<lparr>sm := (sm w)\<lparr>pendingUpdates := [], rafId := r\<rparr>\<rparr>)"
proof (rule bounded_transfer [OF assms])
  show "okSnap (w\<lparr>sm := (sm w)\<lparr>pendingUpdates := [], rafId := r\<rparr>\<rparr>) s" if "okSnap w s" for s
    using that by (simp add: okSnap_def)
qed (use assms in \<open>simp_all add: bounded_def theState_def\<close>)

lemma bounded_invalidate: "bounded (invalidateFilterCache w) = bounded w"
  by (rule bounded_cong) (simp_all add: invalidateFilterCache_def)

lemma bounded_select:
  assumes "bounded w"
  shows "bounded (modifyState (\<lambda>s. s\<lparr>selectedIndex := i\<rparr>) w)"
proof -
  have "okArr (heap w) (requests (theState w))" using assms by (simp add: bounded_def)
  then show ?thesis
    unfolding modifyState_def
    by (intro bounded_heap [OF assms]) (auto simp: okArr_def theState_def)
qed

lemma bounded_if: "bounded a \<Longrightarrow> bounded b \<Longrightarrow> bounded (if c then a else b)"
  by simp

lemma bounded_applyBatch:
  assumes "bounded w"
  shows "bounded (applyBatch w)"
proof -
  let ?m = "concat (pendingUpdates (sm w))"
  let ?w1 = "case newState (spread (theState w) ?m) w of (r, v) \<Rightarrow> v\<lparr>sm := (sm v)\<lparr>state := r\<rparr>\<rparr>"
  let ?w2 = "if defined FsearchQuery ?m \<or> defined Ffilters ?m
             then invalidateFilterCache ?w1 else ?w1"
  let ?w3 = "if defined FsearchQuery ?m \<and> \<not> defined FselectedIndex ?m
             then modifyState (\<lambda>s. s\<lparr>selectedIndex := 0\<rparr>) ?w2 else ?w2"
  have st: "state (sm w) < nextRef (heap w)" and cur: "okArr (heap w) (requests (theState w))"
    and pend: "list_all (list_all (okUpdate (heap w))) (pendingUpdates (sm w))"
    using assms by (simp_all add: bounded_def)
  have "list_all (okUpdate (heap w)) ?m"
    using pend by (auto simp: list_all_iff)
  then have new: "okArr (heap w) (requests (spread (theState w) ?m))"
    using cur by (rule okArr_spread [rotated])
  have b1: "bounded ?w1"
  proof (rule bounded_transfer [OF assms])
    show "okArr (heap ?w1) a" if "okArr (heap w) a" for a
      using that by (simp add: newState_def okArr_def)
    show "okSnap ?w1 s" if "okSnap w s" for s
      using that by (auto simp: newState_def okSnap_def okArr_def)
    show "state (sm ?w1) < nextRef (heap ?w1)"
      by (simp add: newState_def)
    show "okArr (heap ?w1) (requests (theState ?w1))"
      using new by (simp add: newState_def okArr_def theState_def)
  qed (simp_all add: newState_def)
  then have b2: "bounded ?w2" by (simp add: bounded_invalidate)
  have "bounded ?w3"
    by (rule bounded_if) (rule bounded_select [OF b2], rule b2)
  then show ?thesis by (simp only: applyBatch_def Let_def)
qed

lemma bounded_storeFlush:
  assumes "bounded w"
  shows "bounded (storeFlush w)"
proof -
  have "bounded (notifyListeners (applyBatch w))"
    using assms by (intro bounded_notifyListeners bounded_applyBatch)
  then have "bounded ((notifyListeners (applyBatch w))
                \<lparr>sm := (sm (notifyListeners (applyBatch w)))\<lparr>pendingUpdates := [], rafId := None\<rparr>\<rparr>)"
    by (rule bounded_done)
  then show ?thesis by (simp only: storeFlush_def Let_def)
qed

lemma bounded_runCallback:
  assumes "bounded w" and "okCallback w cb"
  shows "bounded (runCallback cb w)"
  using assms by (cases cb) (simp_all add: bounded_storeFlush bounded_captureFlush)

lemma okSnap_runCallback:
  assumes "bounded w" and "okSnap w s"
  shows "okSnap (runCallback cb w) s"
  using assms by (cases cb) (simp_all add: okSnap_storeFlush okSnap_captureFlush bounded_def)

lemma bounded_callbacks:
  assumes "bounded w" and "list_all (okCallback w) cbs"
  shows "bounded (foldl (\<lambda>v cb. runCallback cb v) w cbs)"
  using assms
proof (induction cbs arbitrary: w)
  case Nil
  then show ?case by simp
next
  case (Cons cb cbs)
  have b: "bounded (runCallback cb w)"
    using Cons.prems by (simp add: bounded_runCallback)
  have "okCallback (runCallback cb w) x" if "x \<in> set cbs" for x
  proof -
    have "okCallback w x" using Cons.prems(2) that by (simp add: list_all_iff)
    then show ?thesis
      by (rule okCallback_mono) (rule okSnap_runCallback [OF Cons.prems(1)])
  qed
  then have "list_all (okCallback (runCallback cb w)) cbs" by (simp add: list_all_iff)
  from Cons.IH [OF b this] show ?case by simp
qed

lemma bounded_runFrame:
  assumes "bounded w"
  shows "bounded (runFrame w)"
proof -
  have b: "bounded (w\<lparr>rafQueue := []\<rparr>)"
  proof (rule bounded_transfer [OF assms])
    show "okSnap (w\<lparr>rafQueue := []\<rparr>) s" if "okSnap w s" for s
      using that by (simp add: okSnap_def)
  qed (use assms in \<open>simp_all add: bounded_def theState_def\<close>)
  have "okCallback (w\<lparr>rafQueue := []\<rparr>) cb = okCallback w cb" for cb
    by (rule okCallback_cong) simp_all
  then have "list_all (okCallback (w\<lparr>rafQueue := []\<rparr>)) (rafQueue w)"
    using assms by (simp add: bounded_def list_all_iff)
  from bounded_callbacks [OF b this] show ?thesis by (simp add: runFrame_def)
qed

lemma bounded_cache [simp]:
  "bounded (w\<lparr>sm := (sm w)\<lparr>filteredRequestsCache := c\<rparr>\<rparr>) = bounded w"
  by (rule bounded_cong) simp_all

lemma bounded_rebuildIndex [simp]: "bounded (rebuildIndex w) = bounded w"
  by (rule bounded_cong) (simp_all add: rebuildIndex_def)

lemma bounded_subscribe:
  assumes "bounded w" and "quiet l"
  shows "bounded (subscribe l w)"
proof (cases "lid l \<in> lid ` set (listeners (sm w))")
  case True
  then show ?thesis using assms by (simp add: subscribe_def)
next
  case False
  let ?v = "w\<lparr>sm := (sm w)\<lparr>listeners := listeners (sm w) @ [l]\<rparr>\<rparr>"
  have "okCallback ?v cb = okCallback w cb" for cb
    by (rule okCallback_cong) simp_all
  then have "list_all (okCallback ?v) (rafQueue w)"
    using assms(1) by (simp add: bounded_def list_all_iff)
  then have "bounded ?v"
    using assms by (simp add: bounded_def theState_def)
  then show ?thesis using False by (simp add: subscribe_def)
qed

lemma bounded_moveSelection: "bounded w \<Longrightarrow> bounded (moveSelection d n w)"
  by (simp add: moveSelection_def bounded_setState)

lemma bounded_setSequenceTimeout [simp]: "bounded (setSequenceTimeout w) = bounded w"
  by (rule bounded_cong) (simp_all add: setSequenceTimeout_def)

lemma bounded_clearSequenceTimeout [simp]: "bounded (clearSequenceTimeout w) = bounded w"
  by (rule bounded_cong) (simp_all add: clearSequenceTimeout_def)

lemma bounded_sequenceTimerFires [simp]: "bounded (sequenceTimerFires t w) = bounded w"
  by (rule bounded_cong) (simp_all add: sequenceTimerFires_def)

lemma bounded_handleGSequence: "bounded w \<Longrightarrow> bounded (handleGSequence w)"
  by (simp add: handleGSequence_def Let_def bounded_setState)

lemma bounded_handleDSequence: "bounded w \<Longrightarrow> bounded (handleDSequence w)"
  by (simp add: handleDSequence_def Let_def bounded_deleteRequest bounded_clearRequests)

lemma bounded_normalKey: "bounded w \<Longrightarrow> bounded (normalKey n event w)"
  by (simp add: normalKey_def bounded_moveSelection bounded_handleGSequence
      bounded_handleDSequence bounded_setState)

lemma bounded_normalShift: "bounded w \<Longrightarrow> bounded (normalShift event w)"
  by (simp add: normalShift_def bounded_setState)

lemma bounded_handleNormalMode:
  assumes "bounded w"
  shows "bounded (handleNormalMode fz event w)"
  unfolding handleNormalMode_def case_prod_beta
  by (intro bounded_normalShift bounded_normalKey bounded_getFilteredRequests assms)

lemma bounded_handleSearchMode: "bounded w \<Longrightarrow> bounded (handleSearchMode event w)"
  by (simp add: handleSearchMode_def bounded_setState)

lemma bounded_handleFilterMode:
  assumes "bounded w" and "handleFilterMode event w = Some v"
  shows "bounded v"
proof -
  have "case handleFilterMode event w of Some x \<Rightarrow> bounded x | None \<Rightarrow> True"
    using assms(1) by (simp add: handleFilterMode_def bounded_setState)
  then show ?thesis using assms(2) by simp
qed

lemma bounded_switchToPanel: "bounded w \<Longrightarrow> bounded (switchToPanel tab focus w)"
  by (simp add: switchToPanel_def bounded_setState)

lemma bounded_cycleInspectFocus: "bounded w \<Longrightarrow> bounded (cycleInspectFocus d w)"
  by (simp add: cycleInspectFocus_def Let_def bounded_switchToPanel)

lemma bounded_handleInspectGSequence: "bounded w \<Longrightarrow> bounded (handleInspectGSequence w)"
  by (simp add: handleInspectGSequence_def Let_def)

lemma bounded_handleJsonYankSequence:
  "bounded w \<Longrightarrow> bounded (handleJsonYankSequence event w)"
  by (simp add: handleJsonYankSequence_def Let_def)

lemma bounded_nextInspectSearchMatch:
  "bounded w \<Longrightarrow> bounded (nextInspectSearchMatch d w)"
  by (simp add: nextInspectSearchMatch_def bounded_setState)

lemma bounded_inspectOtherKey:
  assumes "bounded w"
  shows "case inspectOtherKey event w of Some x \<Rightarrow> bounded x | None \<Rightarrow> True"
  using assms by (simp add: inspectOtherKey_def bounded_nextInspectSearchMatch)

lemma bounded_handleInspectMode:
  assumes "bounded w" and "handleInspectMode event w = Some v"
  shows "bounded v"
proof -
  have "case handleInspectMode event w of Some x \<Rightarrow> bounded x | None \<Rightarrow> True"
    using assms(1) bounded_inspectOtherKey [OF assms(1), of event]
    by (simp add: handleInspectMode_def bounded_setState bounded_switchToPanel
        bounded_cycleInspectFocus bounded_handleInspectGSequence
        bounded_handleJsonYankSequence handleHeadersGSequence_def handleJsonGSequence_def)
  then show ?thesis using assms(2) by simp
qed

lemma bounded_handleCopyMode:
  assumes "bounded w" and "handleCopyMode event w = Some v"
  shows "bounded v"
proof -
  have "case handleCopyMode event w of Some x \<Rightarrow> bounded x | None \<Rightarrow> True"
    using assms(1) by (simp add: handleCopyMode_def bounded_setState)
  then show ?thesis using assms(2) by simp
qed

lemma bounded_handleKeyDown:
  assumes "bounded w" and "handleKeyDown fz event w = Some v"
  shows "bounded v"
proof (cases "mode (theState w)")
  case NORMAL
  then show ?thesis using assms by (auto simp: handleKeyDown_def bounded_handleNormalMode)
next
  case SEARCH
  then show ?thesis using assms by (auto simp: handleKeyDown_def bounded_handleSearchMode)
next
  case FILTER
  then show ?thesis using assms by (simp add: handleKeyDown_def bounded_handleFilterMode)
next
  case INSPECT
  then show ?thesis using assms by (simp add: handleKeyDown_def bounded_handleInspectMode)
next
  case COPY
  then show ?thesis using assms by (simp add: handleKeyDown_def bounded_handleCopyMode)
qed

lemma bounded_handleCheckboxChange:
  assumes "bounded w"
  shows "bounded (handleCheckboxChange v checked w)"
proof -
  obtain s w1 where g: "getState w = (s, w1)" by (cases "getState w")
  then have b1: "bounded w1" using bounded_getState(1) [OF assms] by simp
  let ?fobj = "filters (stateObjs (heap w1) s)"
  let ?tset = "types (filterObjs (heap w1) ?fobj)"
  let ?w2 = "if v = ''all''
             then (if checked then modifySet ?tset (\<lambda>S. {}) w1 else w1)
             else (case find (\<lambda>opt. optValue opt = v) filterOptions of
                     Some opt \<Rightarrow>
                       (if optKind opt = KindType
                        then (case resourceTypes opt of
                                Some ts \<Rightarrow>
                                  foldl (\<lambda>x t. modifySet ?tset (addOrDelete checked t) x) w1 ts
                              | None \<Rightarrow>
                                  (case asResourceType v of
                                     Some t \<Rightarrow> modifySet ?tset (addOrDelete checked t) w1
                                   | None \<Rightarrow> w1))
                        else w1)
                   | None \<Rightarrow> w1)"
  have "bounded ?w2"
    using b1 by (simp add: bounded_modifySet bounded_modifySets split: option.splits)
  then have "bounded (setState [Filters ?fobj] ?w2)"
    by (rule bounded_setState) simp
  then show ?thesis by (simp only: handleCheckboxChange_def g prod.case Let_def)
qed

lemma bounded_step:
  assumes "bounded w" and "plain e"
  shows "bounded (step fz parseURL e w)"
proof (cases e)
  case (Key event)
  then show ?thesis
    using assms bounded_handleKeyDown [of w fz event]
    by (cases "handleKeyDown fz event w") simp_all
next
  case (UiUpdate p)
  then show ?thesis
    using assms by (simp add: bounded_setState okPartial_no_requests)
qed (use assms in \<open>simp_all add: bounded_initiated bounded_headers bounded_finished
      bounded_failed bounded_runFrame bounded_handleCheckboxChange
      bounded_getFilteredRequests\<close>)

lemma bounded_run:
  "bounded w \<Longrightarrow> list_all plain es \<Longrightarrow> bounded (run fz parseURL es w)"
  unfolding run_def
  by (induction es arbitrary: w) (simp_all add: bounded_step)

lemma bounded_initialWorld: "bounded initialWorld"
  by (simp add: bounded_def initialWorld_def initialHeap_def initialState_def theState_def
      okArr_def MAX_REQUESTS_def)

lemma bounded_subscribers:
  "bounded w \<Longrightarrow> list_all quiet ls \<Longrightarrow> bounded (foldl (\<lambda>v l. subscribe l v) w ls)"
  by (induction ls arbitrary: w) (simp_all add: bounded_subscribe)

text \<open>
  Hence the bound holds on every page that is reached: whatever subscribers without
  a \<open>requests\<close> update are attached after construction and whatever events follow,
  the Store holds at most 1000 requests.
\<close>

lemma reachable_requests_le_MAX:
  assumes "list_all quiet ls" and "list_all plain es"
  shows "length (theRequests (run fz parseURL es (foldl (\<lambda>v l. subscribe l v) initialWorld ls)))
           \<le> 1000"
proof -
  have "bounded (run fz parseURL es (foldl (\<lambda>v l. subscribe l v) initialWorld ls))"
    using assms by (intro bounded_run bounded_subscribers bounded_initialWorld)
  then show ?thesis
    by (simp add: bounded_def okArr_def theRequests_def theState_def MAX_REQUESTS_def)
qed

section \<open>Batched updates\<close>

text \<open>
  The calls made before the frame.  Take a Store with no update waiting and no frame
  requested, and no other callback waiting for the frame.  After any number (at least
  one) of \<open>setState\<close> calls and the next frame, every field holds the value of the
  last call that wrote it, and the value it had when no call wrote it; only
  \<open>selectedIndex\<close> is 0 when the batch wrote \<open>searchQuery\<close> and not
  \<open>selectedIndex\<close>.  Every subscriber has been called exactly once, with the new
  state object, and nothing is left waiting.
\<close>

lemma setState_batch_merged:
  assumes "falsyId (rafId (sm w))" and "pendingUpdates (sm w) = []" and "rafQueue w = []"
    and "us \<noteq> []"
  shows "(\<forall>f. getField f (theState (runFrame (foldl (\<lambda>v u. setState u v) w us))) =
            (case property f (concat us) of
               Some u \<Rightarrow> u
             | None \<Rightarrow> if f = FselectedIndex \<and> defined FsearchQuery (concat us)
                        then SelectedIndex 0 else getField f (theState w)))
     \<and> deliveries (runFrame (foldl (\<lambda>v u. setState u v) w us)) =
         deliveries w @
         map (\<lambda>l. (lid l, state (sm (runFrame (foldl (\<lambda>v u. setState u v) w us)))))
           (listeners (sm w))
     \<and> pendingUpdates (sm (runFrame (foldl (\<lambda>v u. setState u v) w us))) = []
     \<and> rafId (sm (runFrame (foldl (\<lambda>v u. setState u v) w us))) = None"
proof -
  let ?v = "w\<lparr>sm := (sm w)\<lparr>pendingUpdates := us, rafId := Some (Suc (rafCounter w))\<rparr>,
               rafCounter := Suc (rafCounter w), rafQueue := []\<rparr>"
  have rf: "runFrame (foldl (\<lambda>v u. setState u v) w us) = storeFlush ?v"
    using assms by (rule runFrame_batch)
  have st: "theState ?v = theState w" by (simp add: theState_def)
  show ?thesis
    unfolding rf
    by (simp add: storeFlush_theState st getField_flushed storeFlush_deliveries
        storeFlush_state storeFlush_pending)
qed

lemma setState_batch_merged_example:
  "getField Fmode
     (theState (runFrame (foldl (\<lambda>v u. setState u v) page
        [[Mode SEARCH, SearchQuery ''ab''], [FilterSelectedIndex 2], [Mode FILTER]]))) =
     Mode FILTER
   \<and> getField FselectedIndex
     (theState (runFrame (foldl (\<lambda>v u. setState u v) page
        [[Mode SEARCH, SearchQuery ''ab''], [FilterSelectedIndex 2], [Mode FILTER]]))) =
     SelectedIndex 0
   \<and> deliveries (runFrame (foldl (\<lambda>v u. setState u v) page
        [[Mode SEARCH, SearchQuery ''ab''], [FilterSelectedIndex 2], [Mode FILTER]])) = [(1, 5)]"
proof -
  have a: "falsyId (rafId (sm page))" by (simp add: page_eq initialWorld_def falsyId_def)
  have b: "pendingUpdates (sm page) = []" by (simp add: page_eq initialWorld_def)
  have c: "rafQueue page = []" by (simp add: page_eq initialWorld_def)
  have d: "[[Mode SEARCH, SearchQuery ''ab''], [FilterSelectedIndex 2], [Mode FILTER]] \<noteq> []"
    by simp
  note t = setState_batch_merged [OF a b c d]
  have l: "listeners (sm page) = [tableView]" "deliveries page = []"
    by (simp_all add: page_eq initialWorld_def)
  have s: "state (sm (runFrame (foldl (\<lambda>v u. setState u v) page
        [[Mode SEARCH, SearchQuery ''ab''], [FilterSelectedIndex 2], [Mode FILTER]]))) = 5"
    using runFrame_batch [OF a b c d]
    by (simp add: storeFlush_state page_eq initialWorld_def initialHeap_def)
  from t have
    "getField Fmode (theState (runFrame (foldl (\<lambda>v u. setState u v) page
        [[Mode SEARCH, SearchQuery ''ab''], [FilterSelectedIndex 2], [Mode FILTER]]))) =
       (case property Fmode
          (concat [[Mode SEARCH, SearchQuery ''ab''], [FilterSelectedIndex 2], [Mode FILTER]]) of
          Some u \<Rightarrow> u
        | None \<Rightarrow> if Fmode = FselectedIndex \<and> defined FsearchQuery
             (concat [[Mode SEARCH, SearchQuery ''ab''], [FilterSelectedIndex 2], [Mode FILTER]])
                   then SelectedIndex 0 else getField Fmode (theState page))"
    by blast
  moreover from t have
    "getField FselectedIndex (theState (runFrame (foldl (\<lambda>v u. setState u v) page
        [[Mode SEARCH, SearchQuery ''ab''], [FilterSelectedIndex 2], [Mode FILTER]]))) =
       (case property FselectedIndex
          (concat [[Mode SEARCH, SearchQuery ''ab''], [FilterSelectedIndex 2], [Mode FILTER]]) of
          Some u \<Rightarrow> u
        | None \<Rightarrow> if FselectedIndex = FselectedIndex \<and> defined FsearchQuery
             (concat [[Mode SEARCH, SearchQuery ''ab''], [FilterSelectedIndex 2], [Mode FILTER]])
                   then SelectedIndex 0 else getField FselectedIndex (theState page))"
    by blast
  moreover from t have
    "deliveries (runFrame (foldl (\<lambda>v u. setState u v) page
        [[Mode SEARCH, SearchQuery ''ab''], [FilterSelectedIndex 2], [Mode FILTER]])) =
       deliveries page @
       map (\<lambda>l. (lid l, state (sm (runFrame (foldl (\<lambda>v u. setState u v) page
        [[Mode SEARCH, SearchQuery ''ab''], [FilterSelectedIndex 2], [Mode FILTER]])))))
         (listeners (sm page))"
    by blast
  ultimately show ?thesis
    using s by (simp add: property_def defined_def l tableView_def)
qed

text \<open>
  C5 fails for the calls made while the batch notifies.  The page has a second
  subscriber that calls \<open>setState\<close> with \<open>headersSelectedIndex\<close> 2 whenever it is
  notified.  One \<open>setState\<close> call and the frame: the update of the call is applied
  and both subscribers are called once with the new state object.  The subscriber's
  own call has put its update in the queue (first line below: the queue after the
  notification, before the callback's last two statements), but the frame was still
  marked as requested, so none was requested, and the callback then empties the
  queue: nothing waits, \<open>headersSelectedIndex\<close> is still 0, and it stays 0 after
  another frame.  The update is neither merged nor applied.
\<close>

theorem update_during_flush_is_dropped:
  "pendingUpdates (sm (notifyListeners (applyBatch
      (setState [SelectedIndex 1] (subscribe clamper page))))) =
     [[SelectedIndex 1], [HeadersSelectedIndex 2]]
   \<and> selectedIndex (theState clamped) = 1
   \<and> deliveries clamped = [(1, 5), (2, 5)]
   \<and> pendingUpdates (sm clamped) = []
   \<and> rafId (sm clamped) = None
   \<and> rafQueue clamped = []
   \<and> headersSelectedIndex (theState clamped) = 0
   \<and> headersSelectedIndex (theState (runFrame clamped)) = 0"
  by (simp add: clamped_def page_eq subscribe_def initialWorld_def initialHeap_def clamper_def
      tableView_def initialState_def spread_def
      setState_def requestAnimationFrame_def falsyId_def runFrame_def storeFlush_def
      applyBatch_def Let_def
      newState_def defined_def notifyListeners_def callListener_def theState_def)

section \<open>The initiated event\<close>

text \<open>
  C9.  An initiated event clears exactly when its type is \<open>Document\<close> and its frame is
  the tracked main frame or none is tracked (\<open>navigates\<close>; the handler's test
  \<open>!this.mainFrameId\<close> also takes the empty string for none).  Then the new record is
  the only stored request, in a new array; the caches of bodies and of bodies being
  fetched are empty, the pending requests hold the new record alone, and the frame is
  the main frame.  Otherwise nothing is cleared: the array is the same object and holds
  the old requests followed by the new record (below the cap of C1; at the cap the
  oldest goes), the caches keep their entries and the main frame stays.
\<close>

theorem initiated_event:
  "theRequests (handleRequestWillBeSent parseURL params w) =
     (if navigates params w then [newRequestRef params w]
      else if length (theRequests w) < 1000 then theRequests w @ [newRequestRef params w]
      else drop (Suc (length (theRequests w)) - 1000) (theRequests w @ [newRequestRef params w]))
   \<and> requests (theState (handleRequestWillBeSent parseURL params w)) =
       (if navigates params w then nextRef (heap w) else requests (theState w))
   \<and> requestObjs (heap (handleRequestWillBeSent parseURL params w)) (newRequestRef params w) =
       freshRequest parseURL params
   \<and> mainFrameId (nc (handleRequestWillBeSent parseURL params w)) =
       (if navigates params w then Some (frameId params) else mainFrameId (nc w))
   \<and> pendingRequests (nc (handleRequestWillBeSent parseURL params w)) =
       (if navigates params w then [requestId params \<mapsto> newRequestRef params w]
        else (pendingRequests (nc w))(requestId params \<mapsto> newRequestRef params w))
   \<and> responseBodyCache (nc (handleRequestWillBeSent parseURL params w)) =
       (if navigates params w then Map.empty else responseBodyCache (nc w))
   \<and> fetchingBodies (nc (handleRequestWillBeSent parseURL params w)) =
       (if navigates params w then {} else fetchingBodies (nc w))"
  by (simp add: handleRequestWillBeSent_unfold Let_def addRequest_requests MAX_REQUESTS_def
      newRequestRef_def clearCaches_def)

text \<open>
  The scenario of the specification: with five requests stored and frame \<open>F\<close> tracked,
  a document event of frame \<open>F\<close> leaves one request, a document event of another
  frame leaves six.
\<close>

lemma initiated_event_scenario:
  assumes "length (theRequests w) = 5" and "mainFrameId (nc w) = Some ''F''"
  shows "length (theRequests
           (handleRequestWillBeSent parseURL (initiated ''n'' ''Document'' ''F'') w)) = 1"
    and "length (theRequests
           (handleRequestWillBeSent parseURL (initiated ''n'' ''Document'' ''G'') w)) = 6"
  using assms
  by (simp_all add: initiated_requests navigates_def initiated_def falsyStr_def MAX_REQUESTS_def)

section \<open>Notifications outside the batch\<close>

text \<open>
  C10, as amended.  \<open>addRequest\<close>, \<open>deleteRequest\<close> and \<open>clearRequests\<close> each call
  every subscriber exactly once before they return, with the state object, whatever
  waits in the batch; their change of the requests is made at once.  An initiated
  event is one such round of calls, and two when it clears (\<open>clearRequests\<close>, then
  \<open>addRequest\<close>).
\<close>

theorem direct_notifications:
  "deliveries (addRequest r w) = deliveries w @ notification w
   \<and> deliveries (deleteRequest i w) = deliveries w @ notification w
   \<and> deliveries (clearRequests w) = deliveries w @ notification w
   \<and> theRequests (addRequest r w) =
       drop (Suc (length (theRequests w)) - 1000) (theRequests w @ [r])
   \<and> theRequests (deleteRequest i w) = splice1 i (theRequests w)
   \<and> theRequests (clearRequests w) = []
   \<and> deliveries (handleRequestWillBeSent parseURL params w) =
       deliveries w @ (if navigates params w then notification w else []) @ notification w"
  by (simp add: addRequest_deliveries deleteRequest_deliveries clearRequests_deliveries
      addRequest_requests initiated_deliveries MAX_REQUESTS_def)

text \<open>
  C10 as stated fails: one initiated event, the first document of a capture, calls the
  one subscriber of the page twice.
\<close>

theorem one_event_two_notifications:
  "listeners (sm page) = [tableView] \<and> deliveries page = []
   \<and> deliveries (handleRequestWillBeSent noURL (initiated ''d'' ''Document'' ''F'') page) =
       [(1, 4), (1, 4)]"
  by (simp add: initiated_deliveries navigates_def initiated_def falsyStr_def notification_def
      page_eq initialWorld_def tableView_def)

section \<open>The memoized view against its inputs\<close>

text \<open>
  C2 fails on the example: a script \<open>a\<close> is shown under the Script filter, then
  \<open>a\<close> is deleted and a script \<open>b\<close> is captured.  The stored requests are \<open>b\<close>
  alone and the view should be \<open>b\<close> alone, yet \<open>getFilteredRequests\<close> still returns
  the array that holds \<open>a\<close>: the count, the query and the size of the set are what they
  were when the memo was made.
\<close>

theorem stale_view_after_replacement:
  "map (\<lambda>r. rid (requestObjs (heap replaced) r)) (theRequests replaced) = [''b'']
   \<and> map (\<lambda>r. rid (requestObjs (heap replaced) r)) (expectedView matchAll replaced) = [''b'']
   \<and> map (\<lambda>r. rid (requestObjs (heap replaced) r))
         (arrayObjs (heap (snd (getFilteredRequests matchAll replaced)))
            (fst (getFilteredRequests matchAll replaced))) = [''a'']"
  by (simp add: replaced_eq expectedView_def filteredViewSpec_def run_defs Let_def)

text \<open>
  C3, as amended.  A call returns the array of the call before it when, since that
  call, the stored requests, the search query and the set of types are unchanged and
  the memo has not been invalidated: the memo object is what the earlier call left.
  (\<open>invalidateFilterCache\<close> changes it, and so does a batch that writes \<open>searchQuery\<close>
  or \<open>filters\<close>, whatever the values written: lemma \<open>applyBatch_cache\<close>.)
\<close>

theorem view_instance_stable:
  assumes "getFilteredRequests fz w = (a, w1)"
    and "theRequests w2 = theRequests w1"
    and "searchQuery (theState w2) = searchQuery (theState w1)"
    and "theTypes w2 = theTypes w1"
    and "filteredRequestsCache (sm w2) = filteredRequestsCache (sm w1)"
  shows "getFilteredRequests fz w2 = (a, w2)"
proof -
  have "cacheValid w1" and c: "cachedRequests (filteredRequestsCache (sm w1)) = Some a"
    using getFilteredRequests_post [OF assms(1)] by simp_all
  then have "cacheValid w2"
    using assms(2-5) by (simp add: cacheValid_def)
  then show ?thesis
    using c assms(5) by (simp add: getFilteredRequests_hit)
qed

text \<open>
  On the example: after the first read, \<open>j\<close> is pressed and the frame runs.  The Store
  has a new state object, and the next read returns the array of the first.
\<close>

theorem view_instance_stable_witness:
  "state (sm movedA) \<noteq> state (sm viewedA)
   \<and> getFilteredRequests matchAll movedA = (fst (getFilteredRequests matchAll withA), movedA)"
proof -
  have 1: "getFilteredRequests matchAll withA = (fst (getFilteredRequests matchAll withA), viewedA)"
    by (simp add: viewedA_def)
  have 2: "theRequests movedA = theRequests viewedA"
    by (simp add: movedA_eq viewedA_eq theRequests_def theState_def)
  have 3: "searchQuery (theState movedA) = searchQuery (theState viewedA)"
    by (simp add: movedA_eq viewedA_eq theState_def)
  have 4: "theTypes movedA = theTypes viewedA"
    by (simp add: movedA_eq viewedA_eq theTypes_def theState_def)
  have 5: "filteredRequestsCache (sm movedA) = filteredRequestsCache (sm viewedA)"
    by (simp add: movedA_eq viewedA_eq)
  have "state (sm movedA) \<noteq> state (sm viewedA)"
    by (simp add: movedA_eq viewedA_eq)
  with view_instance_stable [OF 1 2 3 4 5] show ?thesis by simp
qed

text \<open>
  C3 as stated fails: with the Script filter on, \<open>/\<close> is pressed between two reads.
  The requests (the same array, the same content), the query (empty before and after)
  and the set of types are unchanged, and the second read returns another array: the
  batch of the key wrote \<open>searchQuery\<close>, which invalidates the memo.
\<close>

theorem view_instance_changes:
  "fst (getFilteredRequests matchAll slashed) \<noteq> fst (getFilteredRequests matchAll withA)
   \<and> requests (theState slashed) = requests (theState viewedA)
   \<and> theRequests slashed = theRequests viewedA
   \<and> searchQuery (theState slashed) = searchQuery (theState viewedA)
   \<and> theTypes slashed = theTypes viewedA"
  by (simp add: slashed_eq viewedA_eq withA_eq run_defs Let_def)

section \<open>Building the search index\<close>

text \<open>
  C4, as amended.  \<open>getFilteredRequests\<close> builds the index exactly when it misses the
  memo and there is no index or the index was built for another request count.
  \<open>setState\<close> does not build it, nor does \<open>invalidateFilterCache\<close>, nor the batch up
  to its notification; but a batch that writes \<open>searchQuery\<close> or \<open>filters\<close> removes
  the index and the memoized view before the subscribers are notified.  The first read
  after an invalidation therefore builds the index, whatever the request count: after
  such a batch that is the read a subscriber makes when it is notified, or the next
  one after the frame.
\<close>

theorem index_builds:
  "indexBuilds (snd (getFilteredRequests fz w)) =
     (if \<not> cacheValid w \<and>
         (fuseIndex (sm w) = None \<or> lastFuseIndexLength (sm w) \<noteq> length (theRequests w))
      then Suc (indexBuilds w) else indexBuilds w)
   \<and> indexBuilds (setState u w) = indexBuilds w
   \<and> indexBuilds (invalidateFilterCache w) = indexBuilds w
   \<and> fuseIndex (sm (invalidateFilterCache w)) = None
   \<and> indexBuilds (snd (getFilteredRequests fz (invalidateFilterCache w))) = Suc (indexBuilds w)
   \<and> indexBuilds (applyBatch w) = indexBuilds w
   \<and> fuseIndex (sm (applyBatch w)) =
       (if defined FsearchQuery (concat (pendingUpdates (sm w)))
           \<or> defined Ffilters (concat (pendingUpdates (sm w)))
        then None else fuseIndex (sm w))
   \<and> cachedRequests (filteredRequestsCache (sm (applyBatch w))) =
       (if defined FsearchQuery (concat (pendingUpdates (sm w)))
           \<or> defined Ffilters (concat (pendingUpdates (sm w)))
        then None else cachedRequests (filteredRequestsCache (sm w)))
   \<and> indexBuilds (snd (getFilteredRequests fz (applyBatch w))) =
       (if defined FsearchQuery (concat (pendingUpdates (sm w)))
           \<or> defined Ffilters (concat (pendingUpdates (sm w)))
           \<or> \<not> cacheValid (applyBatch w)
              \<and> (fuseIndex (sm w) = None
                   \<or> lastFuseIndexLength (sm w) \<noteq> length (theRequests (applyBatch w)))
        then Suc (indexBuilds w) else indexBuilds w)"
proof -
  let ?c = "defined FsearchQuery (concat (pendingUpdates (sm w)))
            \<or> defined Ffilters (concat (pendingUpdates (sm w)))"
  have inv: "indexBuilds (invalidateFilterCache w) = indexBuilds w"
    "fuseIndex (sm (invalidateFilterCache w)) = None"
    "\<not> cacheValid (invalidateFilterCache w)"
    by (simp_all add: invalidateFilterCache_def cacheValid_def)
  have ab: "indexBuilds (applyBatch w) = indexBuilds w"
    "fuseIndex (sm (applyBatch w)) = (if ?c then None else fuseIndex (sm w))"
    "cachedRequests (filteredRequestsCache (sm (applyBatch w))) =
       (if ?c then None else cachedRequests (filteredRequestsCache (sm w)))"
    "lastFuseIndexLength (sm (applyBatch w)) = lastFuseIndexLength (sm w)"
    by (simp_all add: applyBatch_def Let_def newState_def invalidateFilterCache_def
        modifyState_def)
  have "?c \<Longrightarrow> \<not> cacheValid (applyBatch w)"
    using ab(3) by (simp add: cacheValid_def)
  then have "indexBuilds (snd (getFilteredRequests fz (applyBatch w))) =
       (if ?c \<or> \<not> cacheValid (applyBatch w)
              \<and> (fuseIndex (sm w) = None
                   \<or> lastFuseIndexLength (sm w) \<noteq> length (theRequests (applyBatch w)))
        then Suc (indexBuilds w) else indexBuilds w)"
    by (auto simp: getFilteredRequests_builds ab)
  then show ?thesis
    using inv ab by (simp add: getFilteredRequests_builds)
qed

text \<open>
  C4 as stated fails: one request is stored throughout; the index is built for the first
  read, the search box sets the query, and the next read builds the index again.
\<close>

theorem typing_rebuilds_index:
  "indexBuilds oneRequest = 1 \<and> length (theRequests oneRequest) = 1
   \<and> length (theRequests typed) = 1
   \<and> searchQuery (theState typed) = ''ab''
   \<and> indexBuilds (snd (getFilteredRequests matchAll typed)) = 2"
  by (simp add: typed_eq oneRequest_eq run_defs Let_def)

text \<open>
  On a page with a subscriber that reads the view when it is notified, the rebuild
  happens inside the frame that applies the query: one request is stored throughout,
  the index was built once while the capture was notified, and it has been built a
  second time when the frame of the search box has run.
\<close>

lemma typing_rebuilds_index_while_notifying:
  "indexBuilds watched = 1 \<and> length (theRequests watched) = 1
   \<and> length (theRequests watchedTyped) = 1
   \<and> searchQuery (theState watchedTyped) = ''ab''
   \<and> deliveries watchedTyped = deliveries watched @ [(1, 6), (3, 6)]
   \<and> indexBuilds watchedTyped = 2"
  by (simp add: watchedTyped_eq watched_eq run_defs Let_def)

section \<open>The selection against the view\<close>

text \<open>
  C7 fails on the example: with a script and an image stored, \<open>j\<close> selects the second
  row; the Script filter is then ticked.  The view has one row and \<open>selectedIndex\<close>
  is still 1.
\<close>

theorem selection_outside_view:
  "selectedIndex (theState thenFiltered) = 1
   \<and> length (arrayObjs (heap (snd (getFilteredRequests matchAll thenFiltered)))
               (fst (getFilteredRequests matchAll thenFiltered))) = 1"
  by (simp add: thenFiltered_eq run_defs Let_def)

section \<open>Snapshots\<close>

text \<open>
  What \<open>getState\<close> copies and what it does not.  The object returned is a new state
  object with the field values of the Store's: the two are different objects, and a
  write to a field of the snapshot leaves the Store's state as it is.  The request
  array, the set of types and the expansion map the snapshot points to are the Store's
  own, and so are the request records: a change made to one of them through the
  snapshot is a change of the Store's state.
\<close>

lemma getState_shallow_copy:
  assumes "state (sm w) < nextRef (heap w)"
  shows "case getState w of
           (snapshot, w1) \<Rightarrow>
             snapshot \<noteq> state (sm w1)
             \<and> stateObjs (heap w1) snapshot = theState w
             \<and> theState w1 = theState w
             \<and> (\<forall>f. theState (modifyStateObj snapshot f w1) = theState w)
             \<and> (\<forall>g. theRequests
                       (modifyArray (requests (stateObjs (heap w1) snapshot)) g w1) =
                     g (theRequests w))
             \<and> (\<forall>g. theTypes
                       (modifySet
                          (types (filterObjs (heap w1) (filters (stateObjs (heap w1) snapshot))))
                          g w1) =
                     g (theTypes w))
             \<and> (\<forall>g. theExpanded
                       (modifyMap (jsonExpanded (stateObjs (heap w1) snapshot)) g w1) =
                     g (theExpanded w))
             \<and> (\<forall>r g. requestObjs (heap (modifyRequest r g w1)) r = g (requestObjs (heap w) r))"
  using assms
  by (simp add: getState_def newState_def theState_def theRequests_def theTypes_def
      theExpanded_def modifyStateObj_def modifyArray_def modifySet_def modifyMap_def
      modifyRequest_def)

lemma getState_shallow_copy_example:
  "case getState page of
     (snapshot, w1) \<Rightarrow>
       snapshot = 5 \<and> state (sm w1) = 4
       \<and> mode (theState (modifyStateObj snapshot (\<lambda>s. s\<lparr>mode := COPY\<rparr>) w1)) = NORMAL
       \<and> theTypes (modifySet
                      (types (filterObjs (heap w1) (filters (stateObjs (heap w1) snapshot))))
                      (insert JS) w1) = {JS}"
proof -
  have "state (sm page) < nextRef (heap page)"
    by (simp add: page_eq initialWorld_def initialHeap_def)
  from getState_shallow_copy [OF this]
  have "case getState page of
          (snapshot, w1) \<Rightarrow>
            theState (modifyStateObj snapshot (\<lambda>s. s\<lparr>mode := COPY\<rparr>) w1) = theState page
            \<and> theTypes (modifySet
                      (types (filterObjs (heap w1) (filters (stateObjs (heap w1) snapshot))))
                      (insert JS) w1) = insert JS (theTypes page)"
    by (auto split: prod.splits)
  moreover have "fst (getState page) = 5" "state (sm (snd (getState page))) = 4"
    "mode (theState page) = NORMAL" "theTypes page = {}"
    by (simp_all add: getState_def newState_def theState_def theTypes_def page_eq
        initialWorld_def initialHeap_def)
  ultimately show ?thesis by (auto split: prod.splits)
qed

text \<open>
  C6 fails on the examples: the value \<open>getState\<close> returns is not an immutable copy.
  With two requests stored, the status of the second is 0; setting it to 404 in the
  record reached through the snapshot's array sets it in the Store, and that is how
  \<open>handleResponseReceived\<close> records a status.  On the new page the Store's set of types
  is empty; \<open>handleCheckboxChange\<close> adds to the set reached through its snapshot, and
  the Store's set holds the type before any frame has run.
\<close>

theorem snapshot_mutation_reaches_store:
  "status (requestObjs (heap twoRequests) (theRequests twoRequests ! 1)) = 0
   \<and> (case getState twoRequests of
         (snapshot, w1) \<Rightarrow>
           status (requestObjs
                     (heap (modifyRequest
                              (arrayObjs (heap w1) (requests (stateObjs (heap w1) snapshot)) ! 1)
                              (\<lambda>q. q\<lparr>status := 404\<rparr>) w1))
                     (theRequests w1 ! 1)) = 404)
   \<and> status (requestObjs (heap (handleResponseReceived notFound twoRequests))
               (theRequests (handleResponseReceived notFound twoRequests) ! 1)) = 404
   \<and> theTypes page = {}
   \<and> theTypes (handleCheckboxChange ''script'' True page) = {JS}
   \<and> rafQueue (handleCheckboxChange ''script'' True page) = [StoreFlush]"
  by (simp add: twoRequests_eq handleResponseReceived_def findRequest_def modifyRequest_def
      notFound_def run_defs Let_def)

section \<open>Leaving a mode\<close>

lemma defined_append: "defined f (m @ p) = (defined f m \<or> defined f p)"
  by (auto simp: defined_def)

lemma flushed_frame [simp]:
  "mode (flushed s m) = mode (spread s m)"
  "searchQuery (flushed s m) = searchQuery (spread s m)"
  "inspectFocus (flushed s m) = inspectFocus (spread s m)"
  "inspectSearchQuery (flushed s m) = inspectSearchQuery (spread s m)"
  "inspectSearchMatches (flushed s m) = inspectSearchMatches (spread s m)"
  "inspectSearchIndex (flushed s m) = inspectSearchIndex (spread s m)"
  "headersSelectedIndex (flushed s m) = headersSelectedIndex (spread s m)"
  "isInspectExpanded (flushed s m) = isInspectExpanded (spread s m)"
  by (simp_all add: flushed_def)

lemma flush_after_setState:
  "theState (storeFlush (setState p w)) =
     flushed (theState w) (concat (pendingUpdates (sm w)) @ p)"
  by (simp add: storeFlush_theState)

text \<open>
  C8.  In a mode other than NORMAL, with the copy menu on the page (\<open>panel.ts\<close> puts it
  there), \<open>q\<close> is handled, and so is Escape in COPY mode; when the batch the key's
  update joins is applied, the mode is NORMAL.  Leaving SEARCH the query is empty;
  leaving INSPECT the focus is HEADERS, the search in the panel is reset (query, matches,
  index), the selected header is 0 and the full-width view is closed.
\<close>

theorem q_returns_to_normal:
  assumes "mode (theState w) \<noteq> NORMAL" and "copyMenu w"
    and "key event = ''q'' \<or> (mode (theState w) = COPY \<and> key event = ''Escape'')"
  shows "\<exists>v. handleKeyDown fz event w = Some v
     \<and> mode (theState (storeFlush v)) = NORMAL
     \<and> (mode (theState w) = SEARCH \<longrightarrow> searchQuery (theState (storeFlush v)) = [])
     \<and> (mode (theState w) = INSPECT \<longrightarrow>
          inspectFocus (theState (storeFlush v)) = HEADERS
          \<and> inspectSearchQuery (theState (storeFlush v)) = []
          \<and> inspectSearchMatches (theState (storeFlush v)) = []
          \<and> inspectSearchIndex (theState (storeFlush v)) = 0
          \<and> headersSelectedIndex (theState (storeFlush v)) = 0
          \<and> \<not> isInspectExpanded (theState (storeFlush v)))"
proof (cases "mode (theState w)")
  case NORMAL
  then show ?thesis using assms(1) by simp
next
  case SEARCH
  then show ?thesis using assms(3)
    by (simp add: handleKeyDown_def handleSearchMode_def flush_after_setState spread_append)
next
  case FILTER
  then show ?thesis using assms(3)
    by (simp add: handleKeyDown_def handleFilterMode_def flush_after_setState spread_append)
next
  case INSPECT
  then show ?thesis using assms(3)
    by (simp add: handleKeyDown_def handleInspectMode_def flush_after_setState spread_append)
next
  case COPY
  then show ?thesis using assms(2,3)
    by (auto simp add: handleKeyDown_def handleCopyMode_def flush_after_setState spread_append)
qed

theorem q_returns_to_normal_witness:
  "mode (theState zoomed) = INSPECT \<and> isInspectExpanded (theState zoomed)
   \<and> (\<exists>v. handleKeyDown matchAll (press ''q'') zoomed = Some v
          \<and> mode (theState (storeFlush v)) = NORMAL
          \<and> inspectFocus (theState (storeFlush v)) = HEADERS
          \<and> \<not> isInspectExpanded (theState (storeFlush v)))"
proof -
  have m: "mode (theState zoomed) = INSPECT" and z: "isInspectExpanded (theState zoomed)"
    by (simp_all add: zoomed_eq theState_def)
  have a: "mode (theState zoomed) \<noteq> NORMAL" using m by simp
  have b: "copyMenu zoomed" by (simp add: zoomed_eq)
  have c: "key (press ''q'') = ''q'' \<or>
           (mode (theState zoomed) = COPY \<and> key (press ''q'') = ''Escape'')"
    by (simp add: press_def)
  from q_returns_to_normal [OF a b c, of matchAll] show ?thesis
    using m z by auto
qed

end
